(* ===== verification/Goud_Prelude.thy ===== *)
theory Goud_Prelude
  imports "HOL-Library.Word" "HOL-Library.Signed_Division"
    "HOL-Library.List_Lexorder" "HOL-Library.Char_ord"
begin

text \<open>
  Shared vocabulary of the Goud Chain development: the machine integer types, Rust strings and byte
  vectors, results and result-returning state transformers with their bind lemmas, decimal
  printing and parsing, fixed-width byte encodings, and the generic list lemmas that the components
  use. Nothing here is specific to one source file.

  Conventions. A Rust \<open>String\<close> is a \<^typ>\<open>string\<close> whose characters are the bytes of its UTF-8
  encoding, so \<open>len()\<close> is \<^const>\<open>length\<close> and \<open>as_bytes\<close> is a bijection onto its byte list. Machine
  integers wrap around, as in the release profile the repository builds and deploys.
\<close>

unbundle bit_operations_syntax

section \<open>Types\<close>

type_synonym u8 = "8 word"
type_synonym u16 = "16 word"
type_synonym u32 = "32 word"
type_synonym u64 = "64 word"
type_synonym bytes = "8 word list"

text \<open>An \<open>i64\<close> or \<open>i32\<close> is an \<^typ>\<open>int\<close>; the wrap-around of the width is written out with the
  functions below wherever an operand is not a clock reading plus a small constant.\<close>

type_synonym i64 = int
type_synonym i32 = int

definition wrap64 :: "int \<Rightarrow> i64" where
  "wrap64 x = signed_take_bit 63 x"

definition wrap32 :: "int \<Rightarrow> i32" where
  "wrap32 x = signed_take_bit 31 x"

definition in_i64 :: "int \<Rightarrow> bool" where
  "in_i64 x \<longleftrightarrow> - (2 ^ 63) \<le> x \<and> x < 2 ^ 63"

lemma wrap64_id: "in_i64 x \<Longrightarrow> wrap64 x = x"
  unfolding wrap64_def in_i64_def by (rule signed_take_bit_int_eq_self) auto

lemma wrap64_range: "in_i64 (wrap64 x)"
  unfolding wrap64_def in_i64_def
  using signed_take_bit_int_greater_eq_minus_exp [of 63 x] signed_take_bit_int_less_exp [of 63 x]
  by simp

lemma wrap64_eq: "wrap64 x = (x + 2 ^ 63) mod 2 ^ 64 - 2 ^ 63"
  by (simp add: wrap64_def signed_take_bit_eq_take_bit_shift take_bit_eq_mod)

lemma wrap32_eq: "wrap32 x = (x + 2 ^ 31) mod 2 ^ 32 - 2 ^ 31"
  by (simp add: wrap32_def signed_take_bit_eq_take_bit_shift take_bit_eq_mod)

section \<open>Automation collections\<close>

text \<open>\<open>res_simps\<close> unfolds binds over results; \<open>res_iff\<close> inverts a successful bind.\<close>

named_theorems res_simps
named_theorems res_iff

section \<open>Results\<close>

text \<open>\<open>Inl\<close> is the failure, \<open>Inr\<close> the value; \<open>bindE\<close> is Rust's \<open>?\<close> operator.\<close>

fun bindE :: "'e + 'a \<Rightarrow> ('a \<Rightarrow> 'e + 'b) \<Rightarrow> 'e + 'b" where
  "bindE (Inl e) f = Inl e"
| "bindE (Inr x) f = f x"

definition map_err :: "('d \<Rightarrow> 'e) \<Rightarrow> 'd + 'a \<Rightarrow> 'e + 'a" where
  "map_err g r = (case r of Inl d \<Rightarrow> Inl (g d) | Inr x \<Rightarrow> Inr x)"

definition ok_or :: "'a option \<Rightarrow> 'e \<Rightarrow> 'e + 'a" where
  "ok_or o' e = (case o' of None \<Rightarrow> Inl e | Some x \<Rightarrow> Inr x)"

definition is_ok :: "'e + 'a \<Rightarrow> bool" where
  "is_ok r \<longleftrightarrow> (case r of Inl _ \<Rightarrow> False | Inr _ \<Rightarrow> True)"

lemma is_ok_simps [simp]: "\<not> is_ok (Inl e)" "is_ok (Inr x)"
  by (simp_all add: is_ok_def)

lemma is_ok_iff: "is_ok r \<longleftrightarrow> (\<exists>x. r = Inr x)"
  by (cases r) auto

lemma bindE_Inr_iff [res_iff]: "bindE m f = Inr y \<longleftrightarrow> (\<exists>x. m = Inr x \<and> f x = Inr y)"
  by (cases m) auto

lemma bindE_Inl_iff: "bindE m f = Inl e \<longleftrightarrow> m = Inl e \<or> (\<exists>x. m = Inr x \<and> f x = Inl e)"
  by (cases m) auto

lemma map_err_simps [simp]: "map_err g (Inl d) = Inl (g d)" "map_err g (Inr x) = Inr x"
  by (simp_all add: map_err_def)

lemma map_err_Inr_iff [res_iff]: "map_err g m = Inr y \<longleftrightarrow> m = Inr y"
  by (cases m) auto

lemma ok_or_simps [simp]: "ok_or None e = Inl e" "ok_or (Some x) e = Inr x"
  by (simp_all add: ok_or_def)

lemma ok_or_Inr_iff [res_iff]: "ok_or m e = Inr y \<longleftrightarrow> m = Some y"
  by (cases m) auto

lemma bindE_assoc: "bindE (bindE m f) g = bindE m (\<lambda>x. bindE (f x) g)"
  by (cases m) auto

text \<open>A loop that collects results and stops at the first failure.\<close>

fun traverse :: "('a \<Rightarrow> 'e + 'b) \<Rightarrow> 'a list \<Rightarrow> 'e + 'b list" where
  "traverse f [] = Inr []"
| "traverse f (x # xs) = bindE (f x) (\<lambda>y. bindE (traverse f xs) (\<lambda>ys. Inr (y # ys)))"

lemma traverse_Inr_iff [res_iff]:
  "traverse f xs = Inr ys \<longleftrightarrow> list_all2 (\<lambda>x y. f x = Inr y) xs ys"
  by (induction xs arbitrary: ys) (auto simp: res_iff list_all2_Cons1)

lemma traverse_append:
  "traverse f (xs @ ys) = bindE (traverse f xs) (\<lambda>as. bindE (traverse f ys) (\<lambda>bs. Inr (as @ bs)))"
proof (induction xs)
  case Nil
  show ?case by (cases "traverse f ys") auto
next
  case (Cons x xs)
  then show ?case
    by (cases "f x"; cases "traverse f xs"; cases "traverse f ys") auto
qed

text \<open>A loop that checks every element and stops at the first failure.\<close>

fun check_all :: "('a \<Rightarrow> 'e + unit) \<Rightarrow> 'a list \<Rightarrow> 'e + unit" where
  "check_all f [] = Inr ()"
| "check_all f (x # xs) = bindE (f x) (\<lambda>_. check_all f xs)"

lemma check_all_Inr_iff [res_iff]: "check_all f xs = Inr u \<longleftrightarrow> (\<forall>x\<in>set xs. f x = Inr ())"
  by (induction xs) (auto simp: bindE_Inr_iff)

lemma check_all_append: "check_all f (xs @ ys) = bindE (check_all f xs) (\<lambda>_. check_all f ys)"
  by (induction xs) (auto simp: bindE_assoc)

section \<open>Result-returning state transformers\<close>

text \<open>An operation on shared state returns its result together with the state it leaves, also when
  it fails: an early return keeps the writes made before it.\<close>

type_synonym ('s, 'e, 'a) act = "'s \<Rightarrow> ('e + 'a) \<times> 's"

definition retS :: "'a \<Rightarrow> ('s, 'e, 'a) act" where
  "retS x s = (Inr x, s)"

definition failS :: "'e \<Rightarrow> ('s, 'e, 'a) act" where
  "failS e s = (Inl e, s)"

definition liftS :: "'e + 'a \<Rightarrow> ('s, 'e, 'a) act" where
  "liftS r s = (r, s)"

definition bindS :: "('s, 'e, 'a) act \<Rightarrow> ('a \<Rightarrow> ('s, 'e, 'b) act) \<Rightarrow> ('s, 'e, 'b) act" where
  "bindS m f s = (case m s of (Inl e, s') \<Rightarrow> (Inl e, s') | (Inr x, s') \<Rightarrow> f x s')"

lemma act_simps [simp]:
  "retS x s = (Inr x, s)" "failS e s = (Inl e, s)" "liftS r s = (r, s)"
  by (simp_all add: retS_def failS_def liftS_def)

lemma bindS_Inr_iff [res_iff]:
  "bindS m f s = (Inr y, s') \<longleftrightarrow> (\<exists>x t. m s = (Inr x, t) \<and> f x t = (Inr y, s'))"
  by (auto simp: bindS_def split: prod.splits sum.splits)

lemma bindS_eq: "m s = (Inr x, t) \<Longrightarrow> bindS m f s = f x t"
  by (simp add: bindS_def)

lemma bindS_Inl: "m s = (Inl e, t) \<Longrightarrow> bindS m f s = (Inl e, t)"
  by (simp add: bindS_def)

lemma bindS_retS [simp]: "bindS (retS x) f = f x" "bindS (failS e) f = failS e"
  by (auto simp: bindS_def fun_eq_iff)

lemma bindS_liftS [simp]:
  "bindS (liftS (Inr x)) f = f x" "bindS (liftS (Inl e)) f = failS e"
  by (auto simp: bindS_def fun_eq_iff)

section \<open>Strings and bytes\<close>

definition as_bytes :: "string \<Rightarrow> bytes" where
  "as_bytes s = map (\<lambda>c. of_char c) s"

definition of_bytes :: "bytes \<Rightarrow> string" where
  "of_bytes bs = map (\<lambda>b. char_of (unat b)) bs"

lemma unat_of_char: "unat (of_char c :: u8) = of_char c"
proof -
  have "(of_char c :: u8) = of_nat (of_char c)"
    by (rule of_nat_of_char [symmetric])
  then have "unat (of_char c :: u8) = of_char c mod 2 ^ LENGTH(8)"
    by (simp only: unat_of_nat)
  then show ?thesis using nat_of_char_less_256 [of c] by simp
qed

lemma of_bytes_as_bytes [simp]: "of_bytes (as_bytes s) = s"
  by (simp add: as_bytes_def of_bytes_def unat_of_char comp_def)

lemma as_bytes_of_bytes [simp]: "as_bytes (of_bytes bs) = bs"
proof -
  have "of_char (char_of (unat b) :: char) = b" for b :: u8
  proof -
    have "unat b < 2 ^ LENGTH(8)" by (rule unsigned_less)
    then have "unat (of_char (char_of (unat b) :: char) :: u8) = unat b"
      by (simp add: unat_of_char)
    then show ?thesis by (simp only: word_unat_eq_iff)
  qed
  then show ?thesis by (simp add: as_bytes_def of_bytes_def comp_def)
qed

lemma as_bytes_inject [simp]: "as_bytes s = as_bytes t \<longleftrightarrow> s = t"
  by (metis of_bytes_as_bytes)

lemma of_bytes_inject [simp]: "of_bytes s = of_bytes t \<longleftrightarrow> s = t"
  by (metis as_bytes_of_bytes)

lemma as_bytes_append [simp]: "as_bytes (s @ t) = as_bytes s @ as_bytes t"
  by (simp add: as_bytes_def)

lemma length_as_bytes [simp]: "length (as_bytes s) = length s"
  by (simp add: as_bytes_def)

lemma length_of_bytes [simp]: "length (of_bytes s) = length s"
  by (simp add: of_bytes_def)

section \<open>UTF-8\<close>

text \<open>\<open>String::from_utf8\<close> accepts exactly the well-formed UTF-8 byte sequences: no overlong form, no
  surrogate, no code point above 10FFFF.\<close>

abbreviation is_cont :: "u8 \<Rightarrow> bool" where
  "is_cont b \<equiv> 0x80 \<le> b \<and> b \<le> 0xBF"

fun utf8_valid :: "bytes \<Rightarrow> bool" where
  "utf8_valid [] \<longleftrightarrow> True"
| "utf8_valid (a # r) \<longleftrightarrow>
     (if a \<le> 0x7F then utf8_valid r
      else (case r of
          [] \<Rightarrow> False
        | b # r1 \<Rightarrow>
            if 0xC2 \<le> a \<and> a \<le> 0xDF then is_cont b \<and> utf8_valid r1
            else (case r1 of
                [] \<Rightarrow> False
              | c # r2 \<Rightarrow>
                  if 0xE0 \<le> a \<and> a \<le> 0xEF
                  then (if a = 0xE0 then 0xA0 \<le> b \<and> b \<le> 0xBF
                        else if a = 0xED then 0x80 \<le> b \<and> b \<le> 0x9F else is_cont b)
                       \<and> is_cont c \<and> utf8_valid r2
                  else (case r2 of
                      [] \<Rightarrow> False
                    | d # r3 \<Rightarrow>
                        0xF0 \<le> a \<and> a \<le> 0xF4
                        \<and> (if a = 0xF0 then 0x90 \<le> b \<and> b \<le> 0xBF
                            else if a = 0xF4 then 0x80 \<le> b \<and> b \<le> 0x8F else is_cont b)
                        \<and> is_cont c \<and> is_cont d \<and> utf8_valid r3))))"

definition from_utf8 :: "bytes \<Rightarrow> unit + string" where
  "from_utf8 bs = (if utf8_valid bs then Inr (of_bytes bs) else Inl ())"

lemma utf8_valid_ascii: "\<forall>b\<in>set bs. b \<le> 0x7F \<Longrightarrow> utf8_valid bs"
  by (induction bs) auto

lemma from_utf8_as_bytes: "utf8_valid (as_bytes s) \<Longrightarrow> from_utf8 (as_bytes s) = Inr s"
  by (simp add: from_utf8_def)

lemma from_utf8_Inr_iff [res_iff]: "from_utf8 bs = Inr s \<longleftrightarrow> utf8_valid bs \<and> bs = as_bytes s"
  by (auto simp: from_utf8_def)

section \<open>Decimal numbers\<close>

definition digit :: "nat \<Rightarrow> char" where
  "digit d = char_of (48 + d)"

fun show_nat :: "nat \<Rightarrow> string" where
  "show_nat n = (if n < 10 then [digit n] else show_nat (n div 10) @ [digit (n mod 10)])"

declare show_nat.simps [simp del]

definition show_int :: "int \<Rightarrow> string" where
  "show_int i = (if i < 0 then CHR ''-'' # show_nat (nat (- i)) else show_nat (nat i))"

definition show_u64 :: "u64 \<Rightarrow> string" where
  "show_u64 w = show_nat (unat w)"

definition show_u32 :: "u32 \<Rightarrow> string" where
  "show_u32 w = show_nat (unat w)"

definition is_ascii_digit :: "char \<Rightarrow> bool" where
  "is_ascii_digit c \<longleftrightarrow> 48 \<le> (of_char c :: nat) \<and> (of_char c :: nat) \<le> 57"

definition digit_val :: "char \<Rightarrow> nat" where
  "digit_val c = of_char c - 48"

definition digits_val :: "string \<Rightarrow> nat" where
  "digits_val s = foldl (\<lambda>a c. 10 * a + digit_val c) 0 s"

text \<open>Rust's \<open>str::parse\<close> for an unsigned and for a signed integer type: an optional sign, then at
  least one digit and nothing else, and a value in range.\<close>

definition parse_unsigned :: "nat \<Rightarrow> string \<Rightarrow> nat option" where
  "parse_unsigned max' s =
     (let ds = (case s of c # r \<Rightarrow> if c = CHR ''+'' then r else s | [] \<Rightarrow> [])
      in if ds \<noteq> [] \<and> list_all is_ascii_digit ds \<and> digits_val ds \<le> max' then Some (digits_val ds)
         else None)"

definition parse_i64 :: "string \<Rightarrow> i64 option" where
  "parse_i64 s =
     (let neg = (s \<noteq> [] \<and> hd s = CHR ''-'');
          ds = (if s \<noteq> [] \<and> hd s \<in> {CHR ''-'', CHR ''+''} then tl s else s);
          v = (if neg then - int (digits_val ds) else int (digits_val ds))
      in if ds \<noteq> [] \<and> list_all is_ascii_digit ds \<and> in_i64 v then Some v else None)"

lemma digit_eval [simp]:
  "digit 0 = CHR ''0''" "digit 1 = CHR ''1''" "digit 2 = CHR ''2''" "digit 3 = CHR ''3''" "digit 4 = CHR ''4''"
  "digit 5 = CHR ''5''" "digit 6 = CHR ''6''" "digit 7 = CHR ''7''" "digit 8 = CHR ''8''" "digit 9 = CHR ''9''"
  "digit (Suc 0) = CHR ''1''"
  by (simp_all add: digit_def char_of_def bit_0)

lemma of_char_digit: "d < 10 \<Longrightarrow> of_char (digit d) = 48 + d"
  by (simp add: digit_def)

lemma digit_val_digit [simp]: "d < 10 \<Longrightarrow> digit_val (digit d) = d"
  by (simp add: digit_val_def of_char_digit)

lemma is_ascii_digit_digit [simp]: "d < 10 \<Longrightarrow> is_ascii_digit (digit d)"
  by (simp add: is_ascii_digit_def of_char_digit)

lemma digits_val_snoc [simp]: "digits_val (s @ [c]) = 10 * digits_val s + digit_val c"
  by (simp add: digits_val_def)

lemma digits_val_show_nat [simp]: "digits_val (show_nat n) = n"
proof (induction n rule: show_nat.induct)
  case (1 n)
  show ?case
  proof (cases "n < 10")
    case True
    then show ?thesis by (simp add: show_nat.simps [of n] digits_val_def)
  next
    case False
    with 1 have "digits_val (show_nat (n div 10)) = n div 10" by simp
    with False show ?thesis by (simp add: show_nat.simps [of n])
  qed
qed

lemma show_nat_inject [simp]: "show_nat m = show_nat n \<longleftrightarrow> m = n"
  by (metis digits_val_show_nat)

lemma show_nat_digits: "c \<in> set (show_nat n) \<Longrightarrow> is_ascii_digit c"
proof (induction n rule: show_nat.induct)
  case (1 n)
  then show ?case by (cases "n < 10") (auto simp: show_nat.simps [of n])
qed

lemma show_nat_nonempty [simp]: "show_nat n \<noteq> []"
  by (subst show_nat.simps) simp

lemma show_u64_inject [simp]: "show_u64 a = show_u64 b \<longleftrightarrow> a = b"
  by (simp add: show_u64_def word_unat_eq_iff)

lemma show_int_inject [simp]: "show_int a = show_int b \<longleftrightarrow> a = b"
proof -
  have "show_nat n \<noteq> CHR ''-'' # t" for n t
    using show_nat_digits [of "CHR ''-''" n] by (force simp: is_ascii_digit_def)
  then show ?thesis
    by (auto simp: show_int_def split: if_splits dest: sym)
qed

lemma show_no_char:
  "\<not> is_ascii_digit c \<Longrightarrow> c \<notin> set (show_nat n)"
  "\<not> is_ascii_digit c \<Longrightarrow> c \<noteq> CHR ''-'' \<Longrightarrow> c \<notin> set (show_int i)"
  using show_nat_digits by (auto simp: show_int_def split: if_splits)

section \<open>Fixed-width byte encodings\<close>

fun nat_to_le :: "nat \<Rightarrow> nat \<Rightarrow> bytes" where
  "nat_to_le 0 n = []"
| "nat_to_le (Suc k) n = of_nat n # nat_to_le k (n div 256)"

fun le_to_nat :: "bytes \<Rightarrow> nat" where
  "le_to_nat [] = 0"
| "le_to_nat (b # bs) = unat b + 256 * le_to_nat bs"

lemma length_nat_to_le [simp]: "length (nat_to_le k n) = k"
  by (induction k arbitrary: n) auto

lemma le_to_nat_nat_to_le: "le_to_nat (nat_to_le k n) = n mod 256 ^ k"
proof (induction k arbitrary: n)
  case (Suc k)
  have "n mod 256 ^ Suc k = 256 * (n div 256 mod 256 ^ k) + n mod 256"
    by (simp add: mod_mult2_eq)
  with Suc show ?case by (simp add: unat_of_nat)
qed simp

lemma le_to_nat_less: "le_to_nat bs < 256 ^ length bs"
proof (induction bs)
  case (Cons b bs)
  have "unat b < 256" using unsigned_less [of b, where ?'a = nat] by simp
  with Cons show ?case by simp
qed simp

definition u32_to_le_bytes :: "u32 \<Rightarrow> bytes" where
  "u32_to_le_bytes w = nat_to_le 4 (unat w)"

definition u32_from_le_bytes :: "bytes \<Rightarrow> u32" where
  "u32_from_le_bytes bs = of_nat (le_to_nat bs)"

definition u32_to_be_bytes :: "u32 \<Rightarrow> bytes" where
  "u32_to_be_bytes w = rev (nat_to_le 4 (unat w))"

definition u32_from_be_bytes :: "bytes \<Rightarrow> u32" where
  "u32_from_be_bytes bs = of_nat (le_to_nat (rev bs))"

definition u64_to_le_bytes :: "u64 \<Rightarrow> bytes" where
  "u64_to_le_bytes w = nat_to_le 8 (unat w)"

definition u64_from_le_bytes :: "bytes \<Rightarrow> u64" where
  "u64_from_le_bytes bs = of_nat (le_to_nat bs)"

definition i64_to_le_bytes :: "i64 \<Rightarrow> bytes" where
  "i64_to_le_bytes i = nat_to_le 8 (nat (i mod 2 ^ 64))"

definition i64_from_le_bytes :: "bytes \<Rightarrow> i64" where
  "i64_from_le_bytes bs = wrap64 (int (le_to_nat bs))"

definition i64_to_be_bytes :: "i64 \<Rightarrow> bytes" where
  "i64_to_be_bytes i = rev (i64_to_le_bytes i)"

definition i64_from_be_bytes :: "bytes \<Rightarrow> i64" where
  "i64_from_be_bytes bs = i64_from_le_bytes (rev bs)"

lemma u32_bytes_roundtrip [simp]:
  "u32_from_le_bytes (u32_to_le_bytes w) = w" "u32_from_be_bytes (u32_to_be_bytes w) = w"
  "length (u32_to_le_bytes w) = 4" "length (u32_to_be_bytes w) = 4"
proof -
  have "unat w < 256 ^ 4" using unsigned_less [of w, where ?'a = nat] by simp
  then have *: "unat w mod 256 ^ 4 = unat w" by (rule mod_less)
  show "u32_from_le_bytes (u32_to_le_bytes w) = w" "u32_from_be_bytes (u32_to_be_bytes w) = w"
    by (simp_all add: u32_from_le_bytes_def u32_to_le_bytes_def u32_from_be_bytes_def
        u32_to_be_bytes_def le_to_nat_nat_to_le * del: power_numeral)
qed (simp_all add: u32_to_le_bytes_def u32_to_be_bytes_def)

lemma u64_bytes_roundtrip [simp]:
  "u64_from_le_bytes (u64_to_le_bytes w) = w" "length (u64_to_le_bytes w) = 8"
proof -
  have "unat w < 256 ^ 8" using unsigned_less [of w, where ?'a = nat] by simp
  then have *: "unat w mod 256 ^ 8 = unat w" by (rule mod_less)
  show "u64_from_le_bytes (u64_to_le_bytes w) = w"
    by (simp add: u64_from_le_bytes_def u64_to_le_bytes_def le_to_nat_nat_to_le * del: power_numeral)
qed (simp add: u64_to_le_bytes_def)

lemma i64_bytes_wrap:
  "i64_from_le_bytes (i64_to_le_bytes i) = wrap64 i" "i64_from_be_bytes (i64_to_be_bytes i) = wrap64 i"
  "length (i64_to_le_bytes i) = 8" "length (i64_to_be_bytes i) = 8"
proof -
  have "nat (i mod 2 ^ 64) mod 256 ^ 8 = nat (i mod 2 ^ 64)"
  proof (rule mod_less)
    have "i mod 2 ^ 64 < 2 ^ 64" by simp
    then show "nat (i mod 2 ^ 64) < 256 ^ 8" by (simp add: nat_less_iff)
  qed
  then have "le_to_nat (i64_to_le_bytes i) = nat (i mod 2 ^ 64)"
    by (simp only: i64_to_le_bytes_def le_to_nat_nat_to_le)
  then have "int (le_to_nat (i64_to_le_bytes i)) = i mod 2 ^ 64"
    by simp
  then show le: "i64_from_le_bytes (i64_to_le_bytes i) = wrap64 i"
    by (simp add: i64_from_le_bytes_def wrap64_eq mod_simps)
  then show "i64_from_be_bytes (i64_to_be_bytes i) = wrap64 i"
    by (simp add: i64_from_be_bytes_def i64_to_be_bytes_def)
qed (simp_all add: i64_to_le_bytes_def i64_to_be_bytes_def)

section \<open>Lists\<close>

lemma append_eq_same_length:
  "xs @ ys = zs @ ws \<Longrightarrow> length xs = length zs \<Longrightarrow> xs = zs \<and> ys = ws"
  by simp

lemma takeWhile_append_stop:
  "\<forall>x\<in>set xs. P x \<Longrightarrow> \<not> P y \<Longrightarrow> takeWhile P (xs @ y # ys) = xs"
  by (induction xs) auto

text \<open>Rust's \<open>str::trim\<close> removes the Unicode whitespace characters at both ends; they are listed
  here by their UTF-8 bytes.\<close>

definition whitespace :: "string list" where
  "whitespace =
    [[CHR 0x09], [CHR 0x0A], [CHR 0x0B], [CHR 0x0C], [CHR 0x0D], [CHR 0x20], [CHR 0xC2, CHR 0x85],
     [CHR 0xC2, CHR 0xA0], [CHR 0xE1, CHR 0x9A, CHR 0x80], [CHR 0xE2, CHR 0x80, CHR 0x80],
     [CHR 0xE2, CHR 0x80, CHR 0x81], [CHR 0xE2, CHR 0x80, CHR 0x82],
     [CHR 0xE2, CHR 0x80, CHR 0x83], [CHR 0xE2, CHR 0x80, CHR 0x84],
     [CHR 0xE2, CHR 0x80, CHR 0x85], [CHR 0xE2, CHR 0x80, CHR 0x86],
     [CHR 0xE2, CHR 0x80, CHR 0x87], [CHR 0xE2, CHR 0x80, CHR 0x88],
     [CHR 0xE2, CHR 0x80, CHR 0x89], [CHR 0xE2, CHR 0x80, CHR 0x8A],
     [CHR 0xE2, CHR 0x80, CHR 0xA8], [CHR 0xE2, CHR 0x80, CHR 0xA9],
     [CHR 0xE2, CHR 0x80, CHR 0xAF], [CHR 0xE2, CHR 0x81, CHR 0x9F],
     [CHR 0xE3, CHR 0x80, CHR 0x80]]"

definition lead :: "string list \<Rightarrow> string \<Rightarrow> nat" where
  "lead ps s = (case find (\<lambda>p. take (length p) s = p) ps of None \<Rightarrow> 0 | Some p \<Rightarrow> length p)"

function trim_with :: "string list \<Rightarrow> string \<Rightarrow> string" where
  "trim_with ps s =
     (if s = [] \<or> lead ps s = 0 then s else trim_with ps (drop (lead ps s) s))"
  by pat_completeness auto
termination
  by (relation "measure (\<lambda>(ps, s). length s)") auto

declare trim_with.simps [simp del]

definition trim :: "string \<Rightarrow> string" where
  "trim s = rev (trim_with (map rev whitespace) (rev (trim_with whitespace s)))"

text \<open>A string that neither begins nor ends with whitespace.\<close>

definition trimmed :: "string \<Rightarrow> bool" where
  "trimmed s \<longleftrightarrow> lead whitespace s = 0 \<and> lead (map rev whitespace) (rev s) = 0"

lemma trim_trimmed: "trimmed s \<Longrightarrow> trim s = s"
  by (simp add: trimmed_def trim_def trim_with.simps)

text \<open>Rust's \<open>str::split(c)\<close>: the pieces between the separators, at least one.\<close>

fun split_on :: "char \<Rightarrow> string \<Rightarrow> string list" where
  "split_on c [] = [[]]"
| "split_on c (x # xs) =
     (if x = c then [] # split_on c xs
      else (case split_on c xs of [] \<Rightarrow> [[x]] | p # ps \<Rightarrow> (x # p) # ps))"

lemma split_on_nonempty [simp]: "split_on c s \<noteq> []"
  by (induction s) (auto split: list.splits)

lemma split_on_no_sep: "c \<notin> set s \<Longrightarrow> split_on c s = [s]"
  by (induction s) auto

lemma split_on_append_sep: "c \<notin> set s \<Longrightarrow> split_on c (s @ c # t) = s # split_on c t"
  by (induction s) auto

lemma split_on_pieces: "p \<in> set (split_on c s) \<Longrightarrow> c \<notin> set p"
  by (induction s arbitrary: p) (auto split: if_splits list.splits)

section \<open>Machines and invariants\<close>

text \<open>A component driven by a sequence of operations, and the invariant its operations keep. The
  components extend this interface with what they promise about single steps.\<close>

locale machine =
  fixes step :: "'op \<Rightarrow> 's \<Rightarrow> 's"
    and op_ok :: "'op \<Rightarrow> bool"
    and inv :: "'s \<Rightarrow> bool"
  assumes step_inv: "inv s \<Longrightarrow> op_ok x \<Longrightarrow> inv (step x s)"
begin

lemma run_inv: "inv s \<Longrightarrow> list_all op_ok xs \<Longrightarrow> inv (fold step xs s)"
  by (induction xs arbitrary: s) (auto intro: step_inv)

end

end
