(* ===== verification/Goud_Errors.thy ===== *)
theory Goud_Errors
  imports Goud_Prelude
begin

text \<open>
  The error type of the node (\<open>src/types/errors.rs\<close>), its display text, its mapping to HTTP status
  codes, and the result type every fallible operation returns. A Rust panic is a failure of its own
  (\<open>Panic\<close>): code that handles an \<open>Err\<close> value does not catch it.
\<close>

section \<open>The error enum\<close>

datatype (plugins only: code size) goud_error =
    EncryptionFailed string
  | DecryptionFailed
  | InvalidSignature
  | HexDecodingError string
  | Base64DecodingError string
  | InvalidBlockHash u64
  | BrokenChain u64
  | InvalidMerkleRoot u64
  | FutureTimestamp i64
  | InvalidTimestamp u64
  | InvalidValidator u64 string string
  | NotAuthorizedValidator string string u64
  | EmptyBlockchain
  | NoPendingData
  | PeerConnectionFailed string
  | SerializationError string
  | DeserializationError string
  | SaveFailed string
  | LoadFailed string
  | DirectoryCreationFailed string
  | RocksDbError string
  | KeyNotFound string
  | InvalidRequestBody string
  | DataNotFound string
  | Unauthorized string
  | AuthenticationFailed
  | RateLimitExceeded u64 u32
  | ApiKeyBanned string i64
  | IpAddressBanned i64
  | PayloadTooLarge nat nat
  | InvalidLabel string
  | InvalidJson string
  | JsonTooDeep nat
  | InvalidRequestSignature string
  | NonceReused
  | RequestExpired
  | ConfigError string
  | AuditLogError string
  | MigrationNotFound string
  | MigrationAlreadyApplied string
  | MigrationFailed string
  | InvalidMigrationVersion string
  | MigrationRollbackFailed string
  | NoMigrationsToRollback
  | Internal string
  | Utf8Error string
  | IoError string

section \<open>Display\<close>

text \<open>The \<open>#[error(...)]\<close> texts. The constructors' payloads are printed with \<open>{}\<close>.\<close>

primrec error_to_string :: "goud_error \<Rightarrow> string" where
  "error_to_string (EncryptionFailed m) = ''Encryption failed: '' @ m"
| "error_to_string DecryptionFailed = ''Decryption failed: incorrect API key or corrupted data''"
| "error_to_string InvalidSignature = ''Invalid signature''"
| "error_to_string (HexDecodingError m) = ''Failed to decode hex: '' @ m"
| "error_to_string (Base64DecodingError m) = ''Failed to decode base64: '' @ m"
| "error_to_string (InvalidBlockHash i) = ''Invalid block hash at index '' @ show_u64 i"
| "error_to_string (BrokenChain i) = ''Broken chain at block '' @ show_u64 i @ '': previous hash mismatch''"
| "error_to_string (InvalidMerkleRoot i) = ''Invalid merkle root at block '' @ show_u64 i"
| "error_to_string (FutureTimestamp t) = ''Block timestamp is in the future: '' @ show_int t"
| "error_to_string (InvalidTimestamp i) = ''Block '' @ show_u64 i @ '' timestamp is before previous block''"
| "error_to_string (InvalidValidator i e a) =
     ''Invalid validator at block '' @ show_u64 i @ '': expected '' @ e @ '', got '' @ a"
| "error_to_string (NotAuthorizedValidator n e b) =
     ''Node '' @ n @ '' not authorized to create block '' @ show_u64 b @ '': only validator '' @ e
     @ '' can create this block (Proof of Authority)''"
| "error_to_string EmptyBlockchain = ''Empty blockchain: cannot get latest block''"
| "error_to_string NoPendingData = ''No pending data to create block''"
| "error_to_string (PeerConnectionFailed m) = ''Failed to connect to peer: '' @ m"
| "error_to_string (SerializationError m) = ''Failed to serialize message: '' @ m"
| "error_to_string (DeserializationError m) = ''Failed to deserialize message: '' @ m"
| "error_to_string (SaveFailed m) = ''Failed to save blockchain to disk: '' @ m"
| "error_to_string (LoadFailed m) = ''Failed to load blockchain from disk: '' @ m"
| "error_to_string (DirectoryCreationFailed m) = ''Failed to create data directory: '' @ m"
| "error_to_string (RocksDbError m) = ''RocksDB operation failed: '' @ m"
| "error_to_string (KeyNotFound m) = ''Key not found: '' @ m"
| "error_to_string (InvalidRequestBody m) = ''Invalid request body: '' @ m"
| "error_to_string (DataNotFound m) = ''Data not found: '' @ m"
| "error_to_string (Unauthorized m) = ''Unauthorized: '' @ m"
| "error_to_string AuthenticationFailed = ''Authentication failed''"
| "error_to_string (RateLimitExceeded r v) =
     ''Rate limit exceeded: '' @ show_u64 r @ '' seconds until reset (violation #'' @ show_u32 v @ '')''"
| "error_to_string (ApiKeyBanned l t) = ''API key banned ('' @ l @ ''): expires at '' @ show_int t"
| "error_to_string (IpAddressBanned t) = ''IP address banned: expires at '' @ show_int t"
| "error_to_string (PayloadTooLarge a m) =
     ''Payload too large: '' @ show_nat a @ '' bytes (max: '' @ show_nat m @ '' bytes)''"
| "error_to_string (InvalidLabel m) = ''Invalid label: '' @ m"
| "error_to_string (InvalidJson m) = ''Invalid JSON: '' @ m"
| "error_to_string (JsonTooDeep d) = ''JSON too deep: maximum '' @ show_nat d @ '' levels allowed''"
| "error_to_string (InvalidRequestSignature m) = ''Signature verification failed: '' @ m"
| "error_to_string NonceReused = ''Replay attack detected: nonce already used''"
| "error_to_string RequestExpired = ''Request timestamp expired (older than 5 minutes)''"
| "error_to_string (ConfigError m) = ''Configuration error: '' @ m"
| "error_to_string (AuditLogError m) = ''Audit log operation failed: '' @ m"
| "error_to_string (MigrationNotFound m) = ''Migration not found: '' @ m"
| "error_to_string (MigrationAlreadyApplied m) = ''Migration already applied: '' @ m"
| "error_to_string (MigrationFailed m) = ''Migration failed: '' @ m"
| "error_to_string (InvalidMigrationVersion m) = ''Invalid migration version format: '' @ m"
| "error_to_string (MigrationRollbackFailed m) = ''Migration rollback failed: '' @ m"
| "error_to_string NoMigrationsToRollback = ''No migrations to rollback''"
| "error_to_string (Internal m) = ''Internal error: '' @ m"
| "error_to_string (Utf8Error m) = ''UTF-8 conversion error: '' @ m"
| "error_to_string (IoError m) = ''IO error: '' @ m"

section \<open>HTTP status codes\<close>

text \<open>The equations after the 429 group spell out the wildcard arm of the match.\<close>

primrec status_code :: "goud_error \<Rightarrow> nat" where
  "status_code (InvalidRequestBody x1) = 400"
| "status_code (InvalidLabel x1) = 400"
| "status_code (InvalidJson x1) = 400"
| "status_code (JsonTooDeep x1) = 400"
| "status_code (Unauthorized x1) = 401"
| "status_code AuthenticationFailed = 401"
| "status_code DecryptionFailed = 401"
| "status_code (InvalidRequestSignature x1) = 401"
| "status_code NonceReused = 401"
| "status_code RequestExpired = 401"
| "status_code (DataNotFound x1) = 404"
| "status_code (KeyNotFound x1) = 404"
| "status_code (PayloadTooLarge x1 x2) = 413"
| "status_code InvalidSignature = 422"
| "status_code (InvalidBlockHash x1) = 422"
| "status_code (BrokenChain x1) = 422"
| "status_code (InvalidMerkleRoot x1) = 422"
| "status_code (FutureTimestamp x1) = 422"
| "status_code (InvalidTimestamp x1) = 422"
| "status_code (InvalidValidator x1 x2 x3) = 422"
| "status_code (NotAuthorizedValidator x1 x2 x3) = 422"
| "status_code (RateLimitExceeded x1 x2) = 429"
| "status_code (ApiKeyBanned x1 x2) = 429"
| "status_code (IpAddressBanned x1) = 429"
| "status_code (HexDecodingError x1) = 500"
| "status_code (Base64DecodingError x1) = 500"
| "status_code EmptyBlockchain = 500"
| "status_code NoPendingData = 500"
| "status_code (EncryptionFailed x1) = 500"
| "status_code (PeerConnectionFailed x1) = 500"
| "status_code (SerializationError x1) = 500"
| "status_code (DeserializationError x1) = 500"
| "status_code (SaveFailed x1) = 500"
| "status_code (LoadFailed x1) = 500"
| "status_code (DirectoryCreationFailed x1) = 500"
| "status_code (RocksDbError x1) = 500"
| "status_code (ConfigError x1) = 500"
| "status_code (AuditLogError x1) = 500"
| "status_code (MigrationNotFound x1) = 500"
| "status_code (MigrationAlreadyApplied x1) = 500"
| "status_code (MigrationFailed x1) = 500"
| "status_code (InvalidMigrationVersion x1) = 500"
| "status_code (MigrationRollbackFailed x1) = 500"
| "status_code NoMigrationsToRollback = 500"
| "status_code (Internal x1) = 500"
| "status_code (Utf8Error x1) = 500"
| "status_code (IoError x1) = 500"

text \<open>\<open>IntoResponse\<close>: the status line and the JSON body's \<open>error\<close> field.\<close>

definition into_response :: "goud_error \<Rightarrow> nat \<times> string" where
  "into_response e = (status_code e, error_to_string e)"

section \<open>Results with panics\<close>

datatype fail = Fail goud_error | Panic

type_synonym 'a res = "fail + 'a"

abbreviation Err :: "goud_error \<Rightarrow> 'a res" where
  "Err e \<equiv> Inl (Fail e)"

abbreviation panic :: "'a res" where
  "panic \<equiv> Inl Panic"

text \<open>\<open>map_err\<close> on a result: it rewrites an error value and lets a panic through.\<close>

definition map_fail :: "(goud_error \<Rightarrow> goud_error) \<Rightarrow> 'a res \<Rightarrow> 'a res" where
  "map_fail g r = (case r of Inl (Fail e) \<Rightarrow> Inl (Fail (g e)) | Inl Panic \<Rightarrow> Inl Panic | Inr x \<Rightarrow> Inr x)"

lemma map_fail_simps [simp]:
  "map_fail g (Err e) = Err (g e)" "map_fail g panic = panic" "map_fail g (Inr x) = Inr x"
  by (simp_all add: map_fail_def)

lemma map_fail_Inr_iff [res_iff]: "map_fail g r = Inr x \<longleftrightarrow> r = Inr x"
  by (auto simp: map_fail_def split: sum.splits fail.splits)

lemma status_code_range: "status_code e \<in> {400, 401, 404, 413, 422, 429, 500}"
  by (cases e) simp_all

end
