(* ===== verification/Goud_Env.thy ===== *)
theory Goud_Env
  imports Goud_Errors
begin

text \<open>
  What the node takes from outside its own source tree: hash functions, ciphers and signatures
  (blake3, sha2, aes-gcm, ed25519-dalek, hmac, subtle), text encodings (hex, base64), serializers
  (serde\_json, bincode), the key-value database (rocksdb) and the in-memory LRU cache (lru).
  Each is a record of functions that the model's definitions take as an argument. The predicates
  ending in \<open>_ok\<close> state the documented behaviour that a property may assume of such a record; a
  definition never depends on them. No property assumes a hash function to be injective, which no
  function into digests is: where collision resistance matters, the property names the finitely many
  hashed inputs on which it needs the hash to be injective.
\<close>

section \<open>Cryptography and text encodings\<close>

text \<open>A SHA-256 digest is a 256-bit value; \<open>digest_bytes\<close> lists its 32 bytes, most significant first.\<close>

definition digest_bytes :: "256 word \<Rightarrow> bytes" where
  "digest_bytes w = rev (nat_to_le 32 (unat w))"

lemma length_digest_bytes [simp]: "length (digest_bytes w) = 32"
  by (simp add: digest_bytes_def)

lemma digest_bytes_inject: "digest_bytes a = digest_bytes b \<longleftrightarrow> a = b"
proof
  assume "digest_bytes a = digest_bytes b"
  then have "le_to_nat (nat_to_le 32 (unat a)) = le_to_nat (nat_to_le 32 (unat b))"
    by (simp add: digest_bytes_def)
  moreover have "unat w mod 256 ^ 32 = unat w" for w :: "256 word"
    using unsigned_less [of w, where ?'a = nat] by simp
  ultimately show "a = b" by (simp add: le_to_nat_nat_to_le word_unat_eq_iff)
qed simp

record crypto_env =
  blake3_hex :: "bytes \<Rightarrow> string"
  sha256 :: "bytes \<Rightarrow> 256 word"
  digest_lower_hex :: "256 word \<Rightarrow> string"
  hmac_lib :: "bytes \<Rightarrow> bytes \<Rightarrow> string + bytes"
  ct_eq :: "bytes \<Rightarrow> bytes \<Rightarrow> bool"
  aes_encrypt :: "bytes \<Rightarrow> bytes \<Rightarrow> bytes \<Rightarrow> string + bytes"
  aes_decrypt :: "bytes \<Rightarrow> bytes \<Rightarrow> bytes \<Rightarrow> unit + bytes"
  ed_public :: "bytes \<Rightarrow> bytes"
  ed_sign :: "bytes \<Rightarrow> bytes \<Rightarrow> bytes"
  ed_valid_key :: "bytes \<Rightarrow> bool"
  ed_verify :: "bytes \<Rightarrow> bytes \<Rightarrow> bytes \<Rightarrow> bool"
  hex_encode :: "bytes \<Rightarrow> string"
  hex_decode :: "string \<Rightarrow> string + bytes"
  b64_encode :: "bytes \<Rightarrow> string"
  b64_decode :: "string \<Rightarrow> string + bytes"

definition hex_ok :: "'z crypto_env_scheme \<Rightarrow> bool" where
  "hex_ok env \<longleftrightarrow> (\<forall>b. hex_decode env (hex_encode env b) = Inr b)"

definition b64_ok :: "'z crypto_env_scheme \<Rightarrow> bool" where
  "b64_ok env \<longleftrightarrow> (\<forall>b. b64_decode env (b64_encode env b) = Inr b)"

text \<open>AES-GCM opens under a key and nonce what it sealed under them.\<close>

definition aead_ok :: "'z crypto_env_scheme \<Rightarrow> bool" where
  "aead_ok env \<longleftrightarrow> (\<forall>k n p c. aes_encrypt env k n p = Inr c \<longrightarrow> aes_decrypt env k n c = Inr p)"

text \<open>Ed25519: keys of 32 bytes, signatures of 64 bytes, and a signature verifies under the public
  key of its signing key.\<close>

definition ed_ok :: "'z crypto_env_scheme \<Rightarrow> bool" where
  "ed_ok env \<longleftrightarrow> (\<forall>sk m. length (ed_public env sk) = 32 \<and> ed_valid_key env (ed_public env sk)
     \<and> length (ed_sign env sk m) = 64 \<and> ed_verify env (ed_public env sk) m (ed_sign env sk m))"

definition ct_ok :: "'z crypto_env_scheme \<Rightarrow> bool" where
  "ct_ok env \<longleftrightarrow> (\<forall>a b. ct_eq env a b \<longleftrightarrow> a = b)"

text \<open>A blake3 hash prints as 64 hexadecimal characters, which are well-formed UTF-8.\<close>

definition blake3_ok :: "'z crypto_env_scheme \<Rightarrow> bool" where
  "blake3_ok env \<longleftrightarrow>
     (\<forall>b. length (blake3_hex env b) = 64 \<and> utf8_valid (as_bytes (blake3_hex env b)))"

text \<open>A digest printed with \<open>{:x}\<close> determines the digest.\<close>

definition lower_hex_ok :: "'z crypto_env_scheme \<Rightarrow> bool" where
  "lower_hex_ok env \<longleftrightarrow> (\<forall>a b. digest_lower_hex env a = digest_lower_hex env b \<longrightarrow> a = b)"

lemma hex_okD [simp]: "hex_ok env \<Longrightarrow> hex_decode env (hex_encode env b) = Inr b"
  by (simp add: hex_ok_def)

lemma b64_okD [simp]: "b64_ok env \<Longrightarrow> b64_decode env (b64_encode env b) = Inr b"
  by (simp add: b64_ok_def)

lemma aead_okD: "aead_ok env \<Longrightarrow> aes_encrypt env k n p = Inr c \<Longrightarrow> aes_decrypt env k n c = Inr p"
  by (simp add: aead_ok_def)

lemma ct_okD [simp]: "ct_ok env \<Longrightarrow> ct_eq env a b \<longleftrightarrow> a = b"
  by (simp add: ct_ok_def)

lemma ed_okD [simp]:
  "ed_ok env \<Longrightarrow> length (ed_public env sk) = 32"
  "ed_ok env \<Longrightarrow> ed_valid_key env (ed_public env sk)"
  "ed_ok env \<Longrightarrow> length (ed_sign env sk m) = 64"
  "ed_ok env \<Longrightarrow> ed_verify env (ed_public env sk) m (ed_sign env sk m)"
  by (simp_all add: ed_ok_def)

section \<open>Serializers\<close>

text \<open>\<open>enc\<close> and \<open>dec\<close> are the two directions of a serde format for one type: bincode into bytes,
  serde\_json into a string. The failure carries the serializer's message.\<close>

record ('a, 'w) codec =
  enc :: "'a \<Rightarrow> string + 'w"
  dec :: "'w \<Rightarrow> string + 'a"

definition codec_ok :: "('a, 'w) codec \<Rightarrow> bool" where
  "codec_ok c \<longleftrightarrow> (\<forall>x w. enc c x = Inr w \<longrightarrow> dec c w = Inr x)"

lemma codec_okD: "codec_ok c \<Longrightarrow> enc c x = Inr w \<Longrightarrow> dec c w = Inr x"
  by (simp add: codec_ok_def)

text \<open>A serializer that writes every value of its type.\<close>

definition total_codec :: "('a, 'w) codec \<Rightarrow> bool" where
  "total_codec c \<longleftrightarrow> codec_ok c \<and> (\<forall>x. \<exists>w. enc c x = Inr w)"

lemma total_codecD: "total_codec c \<Longrightarrow> \<exists>w. enc c x = Inr w \<and> dec c w = Inr x"
  unfolding total_codec_def codec_ok_def by blast

text \<open>A serializer into text writes well-formed UTF-8.\<close>

definition text_codec_ok :: "('a, string) codec \<Rightarrow> bool" where
  "text_codec_ok c \<longleftrightarrow> codec_ok c \<and> (\<forall>x s. enc c x = Inr s \<longrightarrow> utf8_valid (as_bytes s))"

text \<open>JSON values, with the constructors and accessors of \<open>serde_json::Value\<close> that the node uses.
  A float is kept by its bit pattern; the node never looks inside one.\<close>

datatype json_number = PosInt u64 | NegInt i64 | Float u64

datatype json =
    JNull
  | JBool bool
  | JNumber json_number
  | JString string
  | JArray "json list"
  | JObject "(string \<times> json) list"

fun as_str :: "json \<Rightarrow> string option" where
  "as_str (JString s) = Some s"
| "as_str _ = None"

fun as_i64 :: "json \<Rightarrow> i64 option" where
  "as_i64 (JNumber (PosInt n)) = (if unat n < 2 ^ 63 then Some (int (unat n)) else None)"
| "as_i64 (JNumber (NegInt i)) = Some i"
| "as_i64 _ = None"

text \<open>\<open>value["key"]\<close> is \<open>Null\<close> where the key is missing or the value is no object.\<close>

fun json_index :: "json \<Rightarrow> string \<Rightarrow> json" where
  "json_index (JObject kvs) k = (case map_of kvs k of None \<Rightarrow> JNull | Some v \<Rightarrow> v)"
| "json_index _ k = JNull"

definition json_of_i64 :: "i64 \<Rightarrow> json" where
  "json_of_i64 i = JNumber (if i < 0 then NegInt i else PosInt (of_int i))"

definition json_of_u64 :: "u64 \<Rightarrow> json" where
  "json_of_u64 n = JNumber (PosInt n)"

lemma as_i64_json_of_i64 [simp]: "in_i64 i \<Longrightarrow> as_i64 (json_of_i64 i) = Some i"
proof -
  assume i: "in_i64 i"
  have "unat (of_int i :: u64) = nat i" if "0 \<le> i"
  proof -
    from i that have "0 \<le> i" "i < 2 ^ 64" by (auto simp: in_i64_def)
    then have "uint (of_int i :: u64) = i"
      by (simp add: uint_word_of_int)
    then show ?thesis by (simp add: unat_eq_nat_uint)
  qed
  with i show ?thesis by (auto simp: json_of_i64_def in_i64_def nat_less_iff)
qed

section \<open>The key-value database\<close>

datatype batch_op = BPut bytes bytes | BDel bytes

text \<open>\<open>db_iter\<close> is \<open>prefix_iterator\<close>: the entries from the first key with the prefix on, in key
  order; without a prefix extractor it runs on past the last key with the prefix.\<close>

record 'db rocks =
  db_get :: "'db \<Rightarrow> bytes \<Rightarrow> string + bytes option"
  db_put :: "'db \<Rightarrow> bytes \<Rightarrow> bytes \<Rightarrow> (string + unit) \<times> 'db"
  db_delete :: "'db \<Rightarrow> bytes \<Rightarrow> (string + unit) \<times> 'db"
  db_write :: "'db \<Rightarrow> batch_op list \<Rightarrow> (string + unit) \<times> 'db"
  db_iter :: "'db \<Rightarrow> bytes \<Rightarrow> (string + bytes \<times> bytes) list"

text \<open>The contents of a healthy database as a map. The laws speak of a set of healthy states
  (those in which no call fails), closed under the operations: reads return the contents, writes
  and atomic batches update them.\<close>

definition contents :: "'db rocks \<Rightarrow> 'db \<Rightarrow> bytes \<rightharpoonup> bytes" where
  "contents rdb db k = (case db_get rdb db k of Inr v \<Rightarrow> v | Inl _ \<Rightarrow> None)"

fun apply_batch :: "batch_op list \<Rightarrow> (bytes \<rightharpoonup> bytes) \<Rightarrow> (bytes \<rightharpoonup> bytes)" where
  "apply_batch [] m = m"
| "apply_batch (BPut k v # ops) m = apply_batch ops (m(k \<mapsto> v))"
| "apply_batch (BDel k # ops) m = apply_batch ops (m(k := None))"

definition rocks_ok :: "'db rocks \<Rightarrow> ('db \<Rightarrow> bool) \<Rightarrow> bool" where
  "rocks_ok rdb healthy \<longleftrightarrow> (\<forall>db. healthy db \<longrightarrow>
     (\<forall>k. \<exists>v. db_get rdb db k = Inr v)
     \<and> (\<forall>k v. \<exists>db'. db_put rdb db k v = (Inr (), db') \<and> healthy db'
          \<and> contents rdb db' = (contents rdb db)(k \<mapsto> v))
     \<and> (\<forall>k. \<exists>db'. db_delete rdb db k = (Inr (), db') \<and> healthy db'
          \<and> contents rdb db' = (contents rdb db)(k := None))
     \<and> (\<forall>ops. \<exists>db'. db_write rdb db ops = (Inr (), db') \<and> healthy db'
          \<and> contents rdb db' = apply_batch ops (contents rdb db)))"

lemma rocks_get:
  "rocks_ok rdb healthy \<Longrightarrow> healthy db \<Longrightarrow> db_get rdb db k = Inr (contents rdb db k)"
  unfolding rocks_ok_def contents_def by (metis sum.case(2))

lemma rocks_put:
  assumes "rocks_ok rdb healthy" and "healthy db"
  obtains db' where "db_put rdb db k v = (Inr (), db')" and "healthy db'"
    and "contents rdb db' = (contents rdb db)(k \<mapsto> v)"
  using assms unfolding rocks_ok_def by blast

lemma rocks_delete:
  assumes "rocks_ok rdb healthy" and "healthy db"
  obtains db' where "db_delete rdb db k = (Inr (), db')" and "healthy db'"
    and "contents rdb db' = (contents rdb db)(k := None)"
  using assms unfolding rocks_ok_def by blast

lemma rocks_write:
  assumes "rocks_ok rdb healthy" and "healthy db"
  obtains db' where "db_write rdb db ops = (Inr (), db')" and "healthy db'"
    and "contents rdb db' = apply_batch ops (contents rdb db)"
  using assms unfolding rocks_ok_def by blast

text \<open>The prefix scan: all entries with the prefix come first, each once, and nothing with the
  prefix follows.\<close>

definition has_prefix :: "'a list \<Rightarrow> 'a list \<Rightarrow> bool" where
  "has_prefix p k \<longleftrightarrow> take (length p) k = p"

lemma has_prefix_append [simp]: "has_prefix p (p @ k)"
  by (simp add: has_prefix_def)

definition iter_ok :: "'db rocks \<Rightarrow> ('db \<Rightarrow> bool) \<Rightarrow> bool" where
  "iter_ok rdb healthy \<longleftrightarrow> (\<forall>db p. healthy db \<longrightarrow>
     (\<exists>kvs rest. db_iter rdb db p = map Inr (kvs @ rest)
        \<and> distinct (map fst kvs)
        \<and> set kvs = {(k, v). contents rdb db k = Some v \<and> has_prefix p k}
        \<and> (\<forall>(k, v)\<in>set rest. contents rdb db k = Some v)
        \<and> (rest \<noteq> [] \<longrightarrow> \<not> has_prefix p (fst (hd rest)))))"

lemma rocks_iter:
  assumes "iter_ok rdb healthy" and "healthy db"
  obtains kvs rest where "db_iter rdb db p = map Inr (kvs @ rest)" and "distinct (map fst kvs)"
    and "set kvs = {(k, v). contents rdb db k = Some v \<and> has_prefix p k}"
    and "\<forall>(k, v)\<in>set rest. contents rdb db k = Some v"
    and "rest \<noteq> [] \<longrightarrow> \<not> has_prefix p (fst (hd rest))"
  using assms unfolding iter_ok_def by blast

section \<open>The LRU cache\<close>

text \<open>\<open>lru_get\<close> and \<open>lru_get_mut\<close> may change the recency order; \<open>lru_get_mut\<close> applies the
  in-place update of the entry it finds and returns the updated entry. \<open>lru_push\<close> also returns
  what it replaced or evicted.\<close>

record ('c, 'v) lru =
  lru_new :: "nat \<Rightarrow> 'c"
  lru_get :: "'c \<Rightarrow> string \<Rightarrow> 'v option \<times> 'c"
  lru_get_mut :: "'c \<Rightarrow> string \<Rightarrow> ('v \<Rightarrow> 'v) \<Rightarrow> 'v option \<times> 'c"
  lru_put :: "'c \<Rightarrow> string \<Rightarrow> 'v \<Rightarrow> 'c"
  lru_push :: "'c \<Rightarrow> string \<Rightarrow> 'v \<Rightarrow> (string \<times> 'v) option \<times> 'c"
  lru_pop :: "'c \<Rightarrow> string \<Rightarrow> 'c"
  lru_clear :: "'c \<Rightarrow> 'c"
  lru_len :: "'c \<Rightarrow> nat"

definition lru_peek :: "('c, 'v) lru \<Rightarrow> 'c \<Rightarrow> string \<Rightarrow> 'v option" where
  "lru_peek l c k = fst (lru_get l c k)"

text \<open>A cache may forget an entry when another one is inserted; it never invents or alters one.\<close>

definition lru_ok :: "('c, 'v) lru \<Rightarrow> bool" where
  "lru_ok l \<longleftrightarrow>
     (\<forall>n k. lru_peek l (lru_new l n) k = None)
   \<and> (\<forall>c k k'. lru_peek l (snd (lru_get l c k)) k' = lru_peek l c k')
   \<and> (\<forall>c k f. fst (lru_get_mut l c k f) = map_option f (lru_peek l c k))
   \<and> (\<forall>c k f k'. lru_peek l (snd (lru_get_mut l c k f)) k' =
          (if k' = k then map_option f (lru_peek l c k) else lru_peek l c k'))
   \<and> (\<forall>c k v. lru_peek l (lru_put l c k v) k = Some v)
   \<and> (\<forall>c k v k' w. k' \<noteq> k \<longrightarrow> lru_peek l (lru_put l c k v) k' = Some w \<longrightarrow> lru_peek l c k' = Some w)
   \<and> (\<forall>c k v. snd (lru_push l c k v) = lru_put l c k v)
   \<and> (\<forall>c k k'. lru_peek l (lru_pop l c k) k' = (if k' = k then None else lru_peek l c k'))
   \<and> (\<forall>c k. lru_peek l (lru_clear l c) k = None)"

lemma lru_simps:
  assumes "lru_ok l"
  shows "lru_peek l (lru_new l n) k = None"
    and "lru_peek l (snd (lru_get l c k)) k' = lru_peek l c k'"
    and "fst (lru_get_mut l c k f) = map_option f (lru_peek l c k)"
    and "lru_peek l (snd (lru_get_mut l c k f)) k' =
          (if k' = k then map_option f (lru_peek l c k) else lru_peek l c k')"
    and "lru_peek l (lru_put l c k v) k = Some v"
    and "snd (lru_push l c k v) = lru_put l c k v"
    and "lru_peek l (lru_pop l c k) k' = (if k' = k then None else lru_peek l c k')"
    and "lru_peek l (lru_clear l c) k = None"
  using assms by (simp_all add: lru_ok_def)

lemma lru_put_other:
  "lru_ok l \<Longrightarrow> k' \<noteq> k \<Longrightarrow> lru_peek l (lru_put l c k v) k' = Some w \<Longrightarrow> lru_peek l c k' = Some w"
  unfolding lru_ok_def by blast

end
