(* ===== verification/Goud_Constants.thy ===== *)
theory Goud_Constants
  imports Goud_Errors
begin

text \<open>The system-wide constants (\<open>src/constants.rs\<close>) that the modelled operations read. The small
  numeric ones unfold by \<open>simp\<close>; \<open>consts_defs\<close> collects the rest.\<close>

definition SCHEMA_VERSION :: string where "SCHEMA_VERSION = ''v8_envelope_encryption''"

definition CHECKPOINT_INTERVAL :: u64 where [simp]: "CHECKPOINT_INTERVAL = 100"
definition TIMESTAMP_TOLERANCE_SECONDS :: i64 where [simp]: "TIMESTAMP_TOLERANCE_SECONDS = 14400"
definition TIMESTAMP_GRANULARITY_SECONDS :: i64 where [simp]: "TIMESTAMP_GRANULARITY_SECONDS = 86400"
definition TIMESTAMP_JITTER_SECONDS :: i64 where [simp]: "TIMESTAMP_JITTER_SECONDS = 14400"

definition ENCRYPTION_SALT :: bytes where "ENCRYPTION_SALT = as_bytes ''goud_chain_salt_v2''"
definition NONCE_SIZE_BYTES :: nat where [simp]: "NONCE_SIZE_BYTES = 12"
definition AES_KEY_SIZE_BYTES :: nat where [simp]: "AES_KEY_SIZE_BYTES = 32"
definition ED25519_PUBLIC_KEY_SIZE :: nat where [simp]: "ED25519_PUBLIC_KEY_SIZE = 32"
definition ED25519_SIGNATURE_SIZE :: nat where [simp]: "ED25519_SIGNATURE_SIZE = 64"
definition API_KEY_SIZE_BYTES :: nat where [simp]: "API_KEY_SIZE_BYTES = 32"
definition HKDF_ITERATIONS :: nat where "HKDF_ITERATIONS = 100000"
definition HKDF_FAST_ITERATIONS :: nat where "HKDF_FAST_ITERATIONS = 1000"
definition HKDF_CONTEXT_ENCRYPTION :: bytes where
  "HKDF_CONTEXT_ENCRYPTION = as_bytes ''goud_chain_encryption_v2''"
definition HKDF_CONTEXT_MAC :: bytes where "HKDF_CONTEXT_MAC = as_bytes ''goud_chain_mac_v2''"
definition HKDF_CONTEXT_SESSION_ENCRYPTION :: bytes where
  "HKDF_CONTEXT_SESSION_ENCRYPTION = as_bytes ''goud_chain_session_aes_v1''"

definition SESSION_EXPIRY_SECONDS :: i64 where [simp]: "SESSION_EXPIRY_SECONDS = 3600"

definition GENESIS_PREVIOUS_HASH :: string where "GENESIS_PREVIOUS_HASH = ''0''"
definition GENESIS_TIMESTAMP :: i64 where "GENESIS_TIMESTAMP = 1704067200"
definition EMPTY_MERKLE_ROOT :: string where "EMPTY_MERKLE_ROOT = ''0''"

definition DEFAULT_HTTP_PORT :: string where "DEFAULT_HTTP_PORT = ''8080''"
definition DEFAULT_P2P_PORT :: string where "DEFAULT_P2P_PORT = ''9000''"

definition REPUTATION_REWARD_VALID_BLOCK :: i32 where [simp]: "REPUTATION_REWARD_VALID_BLOCK = 1"
definition REPUTATION_PENALTY_INVALID_BLOCK :: i32 where
  [simp]: "REPUTATION_PENALTY_INVALID_BLOCK = - 5"
definition MIN_REPUTATION_THRESHOLD :: i32 where [simp]: "MIN_REPUTATION_THRESHOLD = - 10"
definition MAX_MESSAGES_PER_MINUTE :: u32 where [simp]: "MAX_MESSAGES_PER_MINUTE = 100"

definition HTTP_MAX_RETRIES :: nat where [simp]: "HTTP_MAX_RETRIES = 3"
definition HTTP_INITIAL_BACKOFF_MS :: u64 where [simp]: "HTTP_INITIAL_BACKOFF_MS = 50"
definition HTTP_MAX_BACKOFF_MS :: u64 where [simp]: "HTTP_MAX_BACKOFF_MS = 500"

definition RATE_LIMIT_WRITE_PER_SECOND :: u32 where [simp]: "RATE_LIMIT_WRITE_PER_SECOND = 10"
definition RATE_LIMIT_READ_PER_SECOND :: u32 where [simp]: "RATE_LIMIT_READ_PER_SECOND = 100"
definition RATE_LIMIT_WINDOW_SECONDS :: u64 where [simp]: "RATE_LIMIT_WINDOW_SECONDS = 1"
definition VIOLATION_COOLDOWN_SECONDS :: u64 where [simp]: "VIOLATION_COOLDOWN_SECONDS = 30"
definition BAN_WRITE_5MIN_SECONDS :: u64 where [simp]: "BAN_WRITE_5MIN_SECONDS = 300"
definition BAN_WRITE_1HR_SECONDS :: u64 where [simp]: "BAN_WRITE_1HR_SECONDS = 3600"
definition BAN_IP_24HR_SECONDS :: u64 where [simp]: "BAN_IP_24HR_SECONDS = 86400"
definition RATE_LIMIT_CACHE_SIZE :: nat where [simp]: "RATE_LIMIT_CACHE_SIZE = 10000"

definition AUDIT_LABEL_PREFIX :: string where "AUDIT_LABEL_PREFIX = ''AUDIT:''"
definition AUDIT_BATCH_SIZE :: nat where [simp]: "AUDIT_BATCH_SIZE = 50"
definition AUDIT_IP_HASH_LENGTH :: nat where [simp]: "AUDIT_IP_HASH_LENGTH = 8"

definition REQUEST_TIMESTAMP_TOLERANCE_SECONDS :: i64 where
  [simp]: "REQUEST_TIMESTAMP_TOLERANCE_SECONDS = 300"

definition ENVIRONMENT_LOCAL :: string where "ENVIRONMENT_LOCAL = ''local''"
definition ENVIRONMENT_GCP :: string where "ENVIRONMENT_GCP = ''gcp''"
definition API_SERVER_URL_LOCAL :: string where "API_SERVER_URL_LOCAL = ''http://localhost:8080''"
definition API_SERVER_URL_GCP :: string where "API_SERVER_URL_GCP = ''https://dev.goudchain.com''"

lemmas consts_defs = SCHEMA_VERSION_def ENCRYPTION_SALT_def HKDF_CONTEXT_ENCRYPTION_def
  HKDF_CONTEXT_MAC_def HKDF_CONTEXT_SESSION_ENCRYPTION_def GENESIS_PREVIOUS_HASH_def
  GENESIS_TIMESTAMP_def EMPTY_MERKLE_ROOT_def AUDIT_LABEL_PREFIX_def

end
