(* ===== verification/Goud_Crypto.thy ===== *)
theory Goud_Crypto
  imports Goud_Env Goud_Constants
begin

text \<open>
  The cryptographic layer (\<open>src/crypto\<close>): key derivation (\<open>hkdf.rs\<close>), message authentication
  (\<open>mac.rs\<close>), authenticated encryption of strings (\<open>encryption.rs\<close>), signatures
  (\<open>signature.rs\<close>), blind indexes (\<open>blind_index.rs\<close>), API keys (\<open>api_key.rs\<close>) and the
  timing dummies (\<open>timing_safe.rs\<close>). Random values are arguments.
\<close>

section \<open>Key derivation\<close>

definition sha256_bytes :: "'z crypto_env_scheme \<Rightarrow> bytes \<Rightarrow> bytes" where
  "sha256_bytes env b = digest_bytes (sha256 env b)"

lemma length_sha256_bytes [simp]: "length (sha256_bytes env b) = 32"
  by (simp add: sha256_bytes_def)

definition hkdf_extract :: "'z crypto_env_scheme \<Rightarrow> bytes \<Rightarrow> bytes \<Rightarrow> bytes" where
  "hkdf_extract env salt ikm = sha256_bytes env (salt @ ikm)"

text \<open>The expansion loop over \<open>output\<close>, the previous block \<open>t\<close> and the \<open>u8\<close> counter. Each round
  adds the 32 bytes of a digest, so the loop ends.\<close>

function hkdf_expand_loop ::
  "'z crypto_env_scheme \<Rightarrow> bytes \<Rightarrow> bytes \<Rightarrow> nat \<Rightarrow> bytes \<Rightarrow> bytes \<Rightarrow> u8 \<Rightarrow> bytes" where
  "hkdf_expand_loop env prk info len output t counter =
     (if length output < len
      then let t' = sha256_bytes env (t @ prk @ info @ [counter])
           in hkdf_expand_loop env prk info len (output @ t') t' (counter + 1)
      else output)"
  by pat_completeness auto
termination
  by (relation "measure (\<lambda>(env, prk, info, len, output, t, counter). len - length output)") auto

declare hkdf_expand_loop.simps [simp del]

definition hkdf_expand :: "'z crypto_env_scheme \<Rightarrow> bytes \<Rightarrow> bytes \<Rightarrow> nat \<Rightarrow> bytes" where
  "hkdf_expand env prk info len = take len (hkdf_expand_loop env prk info len [] [] 1)"

text \<open>The stretching loop. The final copy into a 32-byte array needs a key of exactly 32 bytes,
  which \<open>length_hkdf_with_iterations\<close> shows for every positive iteration count.\<close>

fun hkdf_with_iterations ::
  "'z crypto_env_scheme \<Rightarrow> bytes \<Rightarrow> bytes \<Rightarrow> bytes \<Rightarrow> nat \<Rightarrow> bytes" where
  "hkdf_with_iterations env ikm salt info 0 = ikm"
| "hkdf_with_iterations env ikm salt info (Suc n) =
     hkdf_with_iterations env (hkdf_expand env (hkdf_extract env salt ikm) info 32) salt info n"

definition derive_encryption_key :: "'z crypto_env_scheme \<Rightarrow> bytes \<Rightarrow> bytes \<Rightarrow> bytes" where
  "derive_encryption_key env api_key salt =
     hkdf_with_iterations env api_key salt HKDF_CONTEXT_ENCRYPTION HKDF_FAST_ITERATIONS"

definition derive_mac_key :: "'z crypto_env_scheme \<Rightarrow> bytes \<Rightarrow> bytes \<Rightarrow> bytes" where
  "derive_mac_key env api_key salt =
     hkdf_with_iterations env api_key salt HKDF_CONTEXT_MAC HKDF_FAST_ITERATIONS"

definition derive_session_encryption_key :: "'z crypto_env_scheme \<Rightarrow> bytes \<Rightarrow> bytes" where
  "derive_session_encryption_key env session_secret =
     hkdf_with_iterations env session_secret ENCRYPTION_SALT HKDF_CONTEXT_SESSION_ENCRYPTION
       HKDF_FAST_ITERATIONS"

definition hash_api_key :: "'z crypto_env_scheme \<Rightarrow> bytes \<Rightarrow> bytes" where
  "hash_api_key env api_key =
     hkdf_with_iterations env api_key ENCRYPTION_SALT (as_bytes ''api_key_hash_v2'') HKDF_ITERATIONS"

definition hash_api_key_hex :: "'z crypto_env_scheme \<Rightarrow> bytes \<Rightarrow> string" where
  "hash_api_key_hex env api_key = hex_encode env (hash_api_key env api_key)"

text \<open>On a length mismatch the comparison against a zero array is made and thrown away.\<close>

definition constant_time_compare_bytes :: "'z crypto_env_scheme \<Rightarrow> bytes \<Rightarrow> bytes \<Rightarrow> bool" where
  "constant_time_compare_bytes env a b =
     (if length a \<noteq> length b
      then let ignored = ct_eq env a (replicate (max (length a) (length b)) 0) in False
      else ct_eq env a b)"

section \<open>Timing dummies\<close>

definition dummy_hash_for_timing :: "'z crypto_env_scheme \<Rightarrow> bytes \<Rightarrow> bytes" where
  "dummy_hash_for_timing env api_key = hash_api_key env api_key"

definition dummy_constant_time_compare :: "'z crypto_env_scheme \<Rightarrow> bool" where
  "dummy_constant_time_compare env =
     constant_time_compare_bytes env (replicate 32 0) (replicate 32 1)"

section \<open>Message authentication\<close>

text \<open>\<open>Vec::resize\<close> with 0.\<close>

definition resize0 :: "nat \<Rightarrow> bytes \<Rightarrow> bytes" where
  "resize0 n k = take n k @ replicate (n - length k) 0"

definition hmac_sha256 :: "'z crypto_env_scheme \<Rightarrow> bytes \<Rightarrow> bytes \<Rightarrow> bytes" where
  "hmac_sha256 env key message =
     (let key' = (if length key > 64 then sha256_bytes env key else key);
          padded_key = resize0 64 key';
          inner_pad = map (\<lambda>i. padded_key ! i XOR 0x36) [0..<64];
          outer_pad = map (\<lambda>i. padded_key ! i XOR 0x5c) [0..<64];
          inner_hash = sha256_bytes env (inner_pad @ message)
      in sha256_bytes env (outer_pad @ inner_hash))"

definition compute_mac :: "'z crypto_env_scheme \<Rightarrow> bytes \<Rightarrow> bytes \<Rightarrow> string" where
  "compute_mac env key message = hex_encode env (hmac_sha256 env key message)"

definition verify_mac :: "'z crypto_env_scheme \<Rightarrow> bytes \<Rightarrow> bytes \<Rightarrow> string \<Rightarrow> unit res" where
  "verify_mac env key message expected_mac_hex =
     (let computed_mac = hmac_sha256 env key message
      in bindE (map_err (\<lambda>_. Fail InvalidSignature) (hex_decode env expected_mac_hex)) (\<lambda>expected_mac.
         if \<not> constant_time_compare_bytes env computed_mac expected_mac then Err InvalidSignature
         else Inr ()))"

section \<open>Authenticated encryption\<close>

definition encrypt_data_with_nonce ::
  "'z crypto_env_scheme \<Rightarrow> string \<Rightarrow> bytes \<Rightarrow> bytes \<Rightarrow> (string \<times> string) res" where
  "encrypt_data_with_nonce env data encryption_key nonce_bytes =
     bindE (map_err (\<lambda>e. Fail (EncryptionFailed e))
              (aes_encrypt env encryption_key nonce_bytes (as_bytes data))) (\<lambda>ciphertext.
     Inr (b64_encode env (nonce_bytes @ ciphertext), hex_encode env nonce_bytes))"

text \<open>The random nonce is an argument.\<close>

definition encrypt_data_with_key ::
  "'z crypto_env_scheme \<Rightarrow> bytes \<Rightarrow> string \<Rightarrow> bytes \<Rightarrow> (string \<times> string) res" where
  "encrypt_data_with_key env nonce_bytes data encryption_key =
     encrypt_data_with_nonce env data encryption_key nonce_bytes"

definition decrypt_data_with_key ::
  "'z crypto_env_scheme \<Rightarrow> string \<Rightarrow> bytes \<Rightarrow> string res" where
  "decrypt_data_with_key env encrypted_payload encryption_key =
     bindE (map_err (\<lambda>e. Fail (Base64DecodingError e)) (b64_decode env encrypted_payload)) (\<lambda>combined.
     if length combined < NONCE_SIZE_BYTES then Err DecryptionFailed
     else
       let nonce = take NONCE_SIZE_BYTES combined; ciphertext = drop NONCE_SIZE_BYTES combined
       in bindE (map_err (\<lambda>_. Fail DecryptionFailed) (aes_decrypt env encryption_key nonce ciphertext))
          (\<lambda>plaintext. map_err (\<lambda>_. Fail (Utf8Error ''invalid utf-8'')) (from_utf8 plaintext)))"

section \<open>Signatures\<close>

definition sign_message :: "'z crypto_env_scheme \<Rightarrow> bytes \<Rightarrow> bytes \<Rightarrow> string" where
  "sign_message env message signing_key = hex_encode env (ed_sign env signing_key message)"

definition verify_signature ::
  "'z crypto_env_scheme \<Rightarrow> bytes \<Rightarrow> string \<Rightarrow> string \<Rightarrow> unit res" where
  "verify_signature env message signature_hex public_key_hex =
     bindE (map_err (\<lambda>e. Fail (HexDecodingError e)) (hex_decode env public_key_hex)) (\<lambda>pk_bytes.
     if length pk_bytes \<noteq> ED25519_PUBLIC_KEY_SIZE then Err InvalidSignature
     else if \<not> ed_valid_key env pk_bytes then Err InvalidSignature
     else
       bindE (map_err (\<lambda>e. Fail (HexDecodingError e)) (hex_decode env signature_hex)) (\<lambda>sig_bytes.
       if length sig_bytes \<noteq> ED25519_SIGNATURE_SIZE then Err InvalidSignature
       else if \<not> ed_verify env pk_bytes message sig_bytes then Err InvalidSignature
       else Inr ()))"

definition get_public_key_hex :: "'z crypto_env_scheme \<Rightarrow> bytes \<Rightarrow> string" where
  "get_public_key_hex env signing_key = hex_encode env (ed_public env signing_key)"

section \<open>Blind indexes\<close>

definition generate_blind_index_with_salt ::
  "'z crypto_env_scheme \<Rightarrow> string \<Rightarrow> string \<Rightarrow> string \<Rightarrow> string \<Rightarrow> string res" where
  "generate_blind_index_with_salt env api_key_hash context' user_salt block_salt =
     bindE (map_err (\<lambda>e. Fail (Internal (''HMAC init failed: '' @ e)))
              (hmac_lib env (as_bytes (user_salt @ block_salt))
                 (as_bytes api_key_hash @ as_bytes ''|'' @ as_bytes context'))) (\<lambda>result.
     Inr (hex_encode env result))"

definition generate_account_blind_index_with_salt ::
  "'z crypto_env_scheme \<Rightarrow> string \<Rightarrow> string \<Rightarrow> string res" where
  "generate_account_blind_index_with_salt env api_key_hash block_salt =
     generate_blind_index_with_salt env api_key_hash ''account_lookup'' [] block_salt"

section \<open>API keys\<close>

definition encode_api_key :: "'z crypto_env_scheme \<Rightarrow> bytes \<Rightarrow> string" where
  "encode_api_key env api_key = b64_encode env api_key"

definition decode_api_key :: "'z crypto_env_scheme \<Rightarrow> string \<Rightarrow> string + bytes" where
  "decode_api_key env api_key_str = b64_decode env api_key_str"

definition validate_api_key :: "bytes \<Rightarrow> bool" where
  "validate_api_key api_key \<longleftrightarrow> length api_key = API_KEY_SIZE_BYTES"

section \<open>Lemmas\<close>

lemma length_hkdf_expand_loop:
  "len \<le> length (hkdf_expand_loop env prk info len out t counter)"
proof (induction env prk info len out t counter rule: hkdf_expand_loop.induct)
  case (1 env prk info len out t counter)
  then show ?case
    by (subst hkdf_expand_loop.simps) (simp add: Let_def)
qed

lemma length_hkdf_expand [simp]: "length (hkdf_expand env prk info len) = len"
  using length_hkdf_expand_loop [of len env prk info "[]" "[]" 1]
  by (simp add: hkdf_expand_def min_def)

lemma hkdf_expand_32:
  "hkdf_expand env prk info 32 = sha256_bytes env (prk @ info @ [1])"
proof -
  have "hkdf_expand_loop env prk info 32 [] [] 1 = sha256_bytes env (prk @ info @ [1])"
    by (subst hkdf_expand_loop.simps)
      (simp add: Let_def, subst hkdf_expand_loop.simps, simp)
  then show ?thesis by (simp add: hkdf_expand_def)
qed

lemma length_hkdf_with_iterations:
  "0 < n \<Longrightarrow> length (hkdf_with_iterations env ikm salt info n) = 32"
proof (induction n arbitrary: ikm)
  case (Suc n)
  then show ?case by (cases n) auto
qed simp

lemma hkdf_iterations_pos: "0 < HKDF_ITERATIONS" "0 < HKDF_FAST_ITERATIONS"
  by (simp_all add: HKDF_ITERATIONS_def HKDF_FAST_ITERATIONS_def)

lemma length_derived_keys [simp]:
  "length (derive_encryption_key env k s) = 32" "length (derive_mac_key env k s) = 32"
  "length (derive_session_encryption_key env k) = 32" "length (hash_api_key env k) = 32"
  using hkdf_iterations_pos
  by (simp_all add: derive_encryption_key_def derive_mac_key_def derive_session_encryption_key_def
      hash_api_key_def length_hkdf_with_iterations)

lemma constant_time_compare_iff [simp]:
  "ct_ok env \<Longrightarrow> constant_time_compare_bytes env a b \<longleftrightarrow> a = b"
  by (auto simp: constant_time_compare_bytes_def)

lemma dummy_compare_false: "ct_ok env \<Longrightarrow> \<not> dummy_constant_time_compare env"
  by (simp add: dummy_constant_time_compare_def replicate_eq_replicate)

lemma length_hmac [simp]: "length (hmac_sha256 env k m) = 32"
  by (simp add: hmac_sha256_def Let_def)

lemma verify_mac_iff:
  assumes "ct_ok env"
  shows "verify_mac env k m s = Inr () \<longleftrightarrow> hex_decode env s = Inr (hmac_sha256 env k m)"
  using assms by (auto simp: verify_mac_def Let_def res_iff split: if_splits)

lemma verify_compute_mac: "ct_ok env \<Longrightarrow> hex_ok env \<Longrightarrow> verify_mac env k m (compute_mac env k m) = Inr ()"
  by (simp add: verify_mac_iff compute_mac_def)

lemma verify_signature_iff:
  "verify_signature env m s p = Inr () \<longleftrightarrow>
     (\<exists>pk sg. hex_decode env p = Inr pk \<and> length pk = 32 \<and> ed_valid_key env pk
        \<and> hex_decode env s = Inr sg \<and> length sg = 64 \<and> ed_verify env pk m sg)"
  by (auto simp: verify_signature_def res_iff split: if_splits)

lemma verify_sign_message:
  "hex_ok env \<Longrightarrow> ed_ok env \<Longrightarrow>
   verify_signature env m (sign_message env m sk) (get_public_key_hex env sk) = Inr ()"
  by (simp add: verify_signature_iff sign_message_def get_public_key_hex_def)

lemma decrypt_encrypt_with_nonce:
  assumes "b64_ok env" and "aead_ok env" and "length n = 12" and "utf8_valid (as_bytes data)"
    and "encrypt_data_with_nonce env data k n = Inr (c, h)"
  shows "decrypt_data_with_key env c k = Inr data"
proof -
  from assms(5) obtain x where x: "aes_encrypt env k n (as_bytes data) = Inr x"
    and c: "c = b64_encode env (n @ x)"
    by (auto simp: encrypt_data_with_nonce_def res_iff)
  from assms(2) x have "aes_decrypt env k n x = Inr (as_bytes data)" by (rule aead_okD)
  with c assms show ?thesis
    by (simp add: decrypt_data_with_key_def from_utf8_as_bytes)
qed

lemma decode_encode_api_key: "b64_ok env \<Longrightarrow> decode_api_key env (encode_api_key env k) = Inr k"
  by (simp add: decode_api_key_def encode_api_key_def)

end
