(* ===== verification/Goud_Demo.thy ===== *)
theory Goud_Demo
  imports Goud_Env
begin

text \<open>
  One concrete instance of each external library: an additive hash, real hexadecimal, a
  keyed encapsulation with the key as tag, signatures that embed the public key, an association
  list as database, and a move-to-front list as LRU cache. They satisfy the \<open>_ok\<close> laws, which shows
  that the hypotheses of the properties can hold together, and the witnesses evaluate the model on
  them. No definition of the model refers to them.
\<close>

section \<open>Cryptography\<close>

definition sum_hash :: "bytes \<Rightarrow> 256 word" where
  "sum_hash bs = of_nat (foldl (\<lambda>a b. a + unat b + 1) 7 bs)"

lemma sum_hash_snoc: "sum_hash (xs @ [b]) = sum_hash xs + of_nat (unat b) + 1"
  by (simp add: sum_hash_def)

lemma inj_on_pair: "f a \<noteq> f b \<Longrightarrow> inj_on f {a, b}"
  by (auto simp: inj_on_def)

definition hexdigit :: "nat \<Rightarrow> char" where
  "hexdigit n = (if n < 10 then char_of (48 + n) else char_of (87 + n))"

definition unhex :: "char \<Rightarrow> nat option" where
  "unhex c = (let n = (of_char c :: nat) in
     if 48 \<le> n \<and> n \<le> 57 then Some (n - 48) else if 97 \<le> n \<and> n \<le> 102 then Some (n - 87) else None)"

definition demo_hex_encode :: "bytes \<Rightarrow> string" where
  "demo_hex_encode bs = concat (map (\<lambda>b. [hexdigit (unat b div 16), hexdigit (unat b mod 16)]) bs)"

fun demo_hex_decode :: "string \<Rightarrow> string + bytes" where
  "demo_hex_decode [] = Inr []"
| "demo_hex_decode [c] = Inl ''odd length''"
| "demo_hex_decode (c # d # cs) =
     (case (unhex c, unhex d) of
        (Some h, Some l) \<Rightarrow> bindE (demo_hex_decode cs) (\<lambda>bs. Inr (of_nat (16 * h + l) # bs))
      | _ \<Rightarrow> Inl ''invalid character'')"

lemma unhex_hexdigit: "n < 16 \<Longrightarrow> unhex (hexdigit n) = Some n"
  by (auto simp: unhex_def hexdigit_def Let_def)

lemma demo_hex_roundtrip: "demo_hex_decode (demo_hex_encode bs) = Inr bs"
proof (induction bs)
  case (Cons b bs)
  have "unat b < 256" using unsigned_less [of b, where ?'a = nat] by simp
  then have "unhex (hexdigit (unat b div 16)) = Some (unat b div 16)"
    and "unhex (hexdigit (unat b mod 16)) = Some (unat b mod 16)"
    by (simp_all add: unhex_hexdigit)
  with Cons show ?case by (simp add: demo_hex_encode_def)
qed (simp add: demo_hex_encode_def)

lemma length_demo_hex_encode: "length (demo_hex_encode bs) = 2 * length bs"
  by (induction bs) (simp_all add: demo_hex_encode_def)

lemma utf8_demo_hex: "utf8_valid (as_bytes (demo_hex_encode bs))"
proof (rule utf8_valid_ascii)
  have hex: "(of_char (hexdigit n) :: u8) \<le> 0x7F" if "n < 16" for n
  proof -
    have "n \<in> {0, 1, 2, 3, 4, 5, 6, 7, 8, 9, 10, 11, 12, 13, 14, 15}" using that by simp presburger
    then show ?thesis by (auto simp: hexdigit_def char_of_def bit_0)
  qed
  have "unat b div 16 < 16" "unat b mod 16 < 16" for b :: u8
    using unsigned_less [of b, where ?'a = nat] by auto
  then show "\<forall>b\<in>set (as_bytes (demo_hex_encode bs)). b \<le> 0x7F"
    by (auto simp: as_bytes_def demo_hex_encode_def intro: hex)
qed

definition pad32 :: "bytes \<Rightarrow> bytes" where
  "pad32 b = take 32 (b @ replicate 32 0)"

lemma length_pad32 [simp]: "length (pad32 b) = 32"
  by (simp add: pad32_def)

definition demo_env :: crypto_env where
  "demo_env = \<lparr>
     blake3_hex = (\<lambda>b. demo_hex_encode (digest_bytes (sum_hash b))),
     sha256 = sum_hash,
     digest_lower_hex = (\<lambda>w. demo_hex_encode (digest_bytes w)),
     hmac_lib = (\<lambda>k m. Inr (digest_bytes (sum_hash (k @ m)))),
     ct_eq = (=),
     aes_encrypt = (\<lambda>k n p. Inr (k @ p)),
     aes_decrypt = (\<lambda>k n c. if has_prefix k c then Inr (drop (length k) c) else Inl ()),
     ed_public = pad32,
     ed_sign = (\<lambda>sk m. pad32 sk @ digest_bytes (sum_hash m)),
     ed_valid_key = (\<lambda>_. True),
     ed_verify = (\<lambda>pk m s. s = pk @ digest_bytes (sum_hash m)),
     hex_encode = demo_hex_encode,
     hex_decode = demo_hex_decode,
     b64_encode = of_bytes,
     b64_decode = (\<lambda>s. Inr (as_bytes s))\<rparr>"

lemma demo_aes_encrypt [simp]: "aes_encrypt demo_env k n p = Inr (k @ p)"
  by (simp add: demo_env_def)

lemma demo_env_ok:
  "hex_ok demo_env" "b64_ok demo_env" "aead_ok demo_env" "ed_ok demo_env" "ct_ok demo_env"
  "blake3_ok demo_env" "lower_hex_ok demo_env"
proof -
  have "a = b" if "demo_hex_encode (digest_bytes a) = demo_hex_encode (digest_bytes b)" for a b
  proof -
    from that have "demo_hex_decode (demo_hex_encode (digest_bytes a))
        = demo_hex_decode (demo_hex_encode (digest_bytes b))" by (rule arg_cong)
    then show ?thesis by (simp add: demo_hex_roundtrip digest_bytes_inject)
  qed
  then show "lower_hex_ok demo_env"
    unfolding lower_hex_ok_def by (simp add: demo_env_def)
qed (simp_all add: hex_ok_def b64_ok_def aead_ok_def ed_ok_def ct_ok_def blake3_ok_def demo_env_def
    demo_hex_roundtrip has_prefix_def length_demo_hex_encode utf8_demo_hex)

text \<open>The laws that do not speak of the hash function hold under every hash function.\<close>

lemma sha_update_ok [simp]:
  "hex_ok (env\<lparr>sha256 := h\<rparr>) = hex_ok env" "b64_ok (env\<lparr>sha256 := h\<rparr>) = b64_ok env"
  "aead_ok (env\<lparr>sha256 := h\<rparr>) = aead_ok env" "ed_ok (env\<lparr>sha256 := h\<rparr>) = ed_ok env"
  "ct_ok (env\<lparr>sha256 := h\<rparr>) = ct_ok env"
  by (simp_all add: hex_ok_def b64_ok_def aead_ok_def ed_ok_def ct_ok_def del: ed_okD hex_okD b64_okD ct_okD)

section \<open>Serializers\<close>

text \<open>A table codec: it knows the values of a list and writes the position of a value.\<close>

definition table_codec :: "'a list \<Rightarrow> ('a, bytes) codec" where
  "table_codec xs = \<lparr>
     enc = (\<lambda>x. if x \<in> set xs then Inr (replicate (length (takeWhile (\<lambda>y. y \<noteq> x) xs)) 1) else Inl ''unknown value''),
     dec = (\<lambda>b. if length b < length xs then Inr (xs ! length b) else Inl ''unknown code'')\<rparr>"

lemma table_codec_ok: "codec_ok (table_codec xs)"
proof -
  have "length (takeWhile (\<lambda>y. y \<noteq> x) xs) < length xs
      \<and> xs ! length (takeWhile (\<lambda>y. y \<noteq> x) xs) = x" if "x \<in> set xs" for x
    using that by (induction xs) auto
  then show ?thesis by (auto simp: codec_ok_def table_codec_def split: if_splits)
qed

definition str_codec :: "('a, bytes) codec \<Rightarrow> ('a, string) codec" where
  "str_codec c = \<lparr>
     enc = (\<lambda>x. bindE (enc c x) (\<lambda>b. Inr (of_bytes b))), dec = (\<lambda>s. dec c (as_bytes s))\<rparr>"

lemma str_codec_ok: "codec_ok c \<Longrightarrow> codec_ok (str_codec c)"
  by (auto simp: codec_ok_def str_codec_def res_iff)

lemma str_table_codec_ok: "text_codec_ok (str_codec (table_codec xs))"
proof -
  have "utf8_valid (replicate n 1)" for n by (rule utf8_valid_ascii) simp
  then show ?thesis
    using str_codec_ok [OF table_codec_ok, of xs]
    by (auto simp: text_codec_ok_def str_codec_def table_codec_def split: if_splits)
qed

section \<open>Database\<close>

type_synonym demo_db = "(bytes \<times> bytes) list"

definition al_put :: "'k \<Rightarrow> 'v \<Rightarrow> ('k \<times> 'v) list \<Rightarrow> ('k \<times> 'v) list" where
  "al_put k v xs = (k, v) # filter (\<lambda>p. fst p \<noteq> k) xs"

definition al_del :: "'k \<Rightarrow> ('k \<times> 'v) list \<Rightarrow> ('k \<times> 'v) list" where
  "al_del k xs = filter (\<lambda>p. fst p \<noteq> k) xs"

fun al_batch :: "batch_op list \<Rightarrow> demo_db \<Rightarrow> demo_db" where
  "al_batch [] db = db"
| "al_batch (BPut k v # ops) db = al_batch ops (al_put k v db)"
| "al_batch (BDel k # ops) db = al_batch ops (al_del k db)"

definition demo_rocks :: "demo_db rocks" where
  "demo_rocks = \<lparr>
     db_get = (\<lambda>db k. Inr (map_of db k)),
     db_put = (\<lambda>db k v. (Inr (), al_put k v db)),
     db_delete = (\<lambda>db k. (Inr (), al_del k db)),
     db_write = (\<lambda>db ops. (Inr (), al_batch ops db)),
     db_iter = (\<lambda>db p. map Inr (filter (\<lambda>(k, v). has_prefix p k) db))\<rparr>"

definition demo_healthy :: "demo_db \<Rightarrow> bool" where
  "demo_healthy db \<longleftrightarrow> distinct (map fst db)"

lemma map_of_al_del: "map_of (al_del k xs) = (map_of xs)(k := None)"
  by (induction xs) (auto simp: al_del_def fun_eq_iff)

lemma map_of_al_put: "map_of (al_put k v xs) = (map_of xs)(k \<mapsto> v)"
  using map_of_al_del [of k xs] by (auto simp: al_put_def al_del_def fun_eq_iff)

lemma distinct_al_del: "distinct (map fst xs) \<Longrightarrow> distinct (map fst (al_del k xs))"
  by (simp add: al_del_def distinct_map_filter)

lemma distinct_al_put: "distinct (map fst xs) \<Longrightarrow> distinct (map fst (al_put k v xs))"
  by (auto simp: al_put_def distinct_map_filter)

lemma al_batch_ok:
  "map_of (al_batch ops db) = apply_batch ops (map_of db)"
  "distinct (map fst db) \<Longrightarrow> distinct (map fst (al_batch ops db))"
  by (induction ops db rule: al_batch.induct)
    (auto simp: map_of_al_put map_of_al_del distinct_al_put distinct_al_del)

lemma contents_demo [simp]: "contents demo_rocks db = map_of db"
  by (simp add: contents_def demo_rocks_def fun_eq_iff)

lemma demo_rocks_ok: "rocks_ok demo_rocks demo_healthy"
  unfolding rocks_ok_def contents_demo
  by (simp add: demo_rocks_def demo_healthy_def map_of_al_put map_of_al_del al_batch_ok
      distinct_al_put distinct_al_del)

lemma demo_iter_ok: "iter_ok demo_rocks demo_healthy"
  unfolding iter_ok_def contents_demo
proof (intro allI impI)
  fix db p assume "demo_healthy db"
  then have d: "distinct (map fst db)" by (simp add: demo_healthy_def)
  let ?kvs = "filter (\<lambda>(k, v). has_prefix p k) db"
  have "distinct (map fst ?kvs)" using d by (simp add: distinct_map_filter)
  moreover have "set ?kvs = {(k, v). map_of db k = Some v \<and> has_prefix p k}"
    using d by (auto intro: map_of_SomeD)
  moreover have "db_iter demo_rocks db p = map Inr (?kvs @ [])" by (simp add: demo_rocks_def)
  ultimately show "\<exists>kvs rest. db_iter demo_rocks db p = map Inr (kvs @ rest) \<and> distinct (map fst kvs)
      \<and> set kvs = {(k, v). map_of db k = Some v \<and> has_prefix p k}
      \<and> (\<forall>(k, v)\<in>set rest. map_of db k = Some v)
      \<and> (rest \<noteq> [] \<longrightarrow> \<not> has_prefix p (fst (hd rest)))"
    by (intro exI [of _ ?kvs] exI [of _ "[]"]) simp
qed

section \<open>A serializer for lists of strings\<close>

text \<open>Every byte of a string is preceded by a one, and every string ends with a zero.\<close>

fun put_str :: "bytes \<Rightarrow> bytes" where
  "put_str [] = [0]"
| "put_str (b # bs) = 1 # b # put_str bs"

fun get_str :: "bytes \<Rightarrow> bytes \<times> bytes" where
  "get_str (x # b # r) = (if x = 0 then ([], b # r) else (let (s, r') = get_str r in (b # s, r')))"
| "get_str r = ([], [])"

lemma get_put_str: "get_str (put_str s @ r) = (s, r)"
proof (induction s)
  case Nil
  show ?case by (cases r) simp_all
qed simp

fun put_strs :: "string list \<Rightarrow> bytes" where
  "put_strs [] = []"
| "put_strs (s # ss) = put_str (as_bytes s) @ put_strs ss"

fun get_strs :: "nat \<Rightarrow> bytes \<Rightarrow> string list" where
  "get_strs 0 bs = []"
| "get_strs (Suc n) bs = (let (s, r) = get_str bs in of_bytes s # get_strs n r)"

lemma get_put_strs: "get_strs (length ss) (put_strs ss) = ss"
  by (induction ss) (simp_all add: get_put_str)

definition read_int :: "string \<Rightarrow> int" where
  "read_int s = (if s \<noteq> [] \<and> hd s = CHR ''-'' then - int (digits_val (tl s)) else int (digits_val s))"

lemma read_int_show_int: "read_int (show_int i) = i"
proof (cases "i < 0")
  case False
  have "hd (show_nat (nat i)) \<noteq> CHR ''-''"
    using show_nat_digits [of "hd (show_nat (nat i))" "nat i"] hd_in_set [of "show_nat (nat i)"]
    by (auto simp: is_ascii_digit_def)
  with False show ?thesis by (simp add: read_int_def show_int_def)
qed (simp add: read_int_def show_int_def)

section \<open>LRU cache\<close>

type_synonym 'v demo_cache = "nat \<times> (string \<times> 'v) list"

definition demo_lru :: "('v demo_cache, 'v) lru" where
  "demo_lru = \<lparr>
     lru_new = (\<lambda>n. (n, [])),
     lru_get = (\<lambda>(n, xs) k. case map_of xs k of
        None \<Rightarrow> (None, (n, xs)) | Some v \<Rightarrow> (Some v, (n, al_put k v xs))),
     lru_get_mut = (\<lambda>(n, xs) k f. case map_of xs k of
        None \<Rightarrow> (None, (n, xs)) | Some v \<Rightarrow> (Some (f v), (n, al_put k (f v) xs))),
     lru_put = (\<lambda>(n, xs) k v. (n, take (max 1 n) (al_put k v xs))),
     lru_push = (\<lambda>(n, xs) k v.
        (case map_of xs k of
           Some w \<Rightarrow> Some (k, w)
         | None \<Rightarrow> if length xs < max 1 n then None else Some (last xs),
         (n, take (max 1 n) (al_put k v xs)))),
     lru_pop = (\<lambda>(n, xs) k. (n, al_del k xs)),
     lru_clear = (\<lambda>(n, xs). (n, [])),
     lru_len = (\<lambda>(n, xs). length xs)\<rparr>"

lemma map_of_take: "map_of (take n xs) k = Some v \<Longrightarrow> map_of xs k = Some v"
  by (metis append_take_drop_id map_add_Some_iff map_of_append map_add_find_right)

lemma lru_peek_demo [simp]: "lru_peek demo_lru (n, xs) = map_of xs"
  by (auto simp: lru_peek_def demo_lru_def fun_eq_iff split: option.splits)

lemma demo_lru_ok: "lru_ok demo_lru"
proof -
  have peek: "lru_peek demo_lru c = map_of (snd c)" for c :: "'a demo_cache"
    by (cases c) simp
  have put: "map_of (take (max (Suc 0) n) (al_put k v xs)) k = Some v" for n k v and xs :: "(string \<times> 'a) list"
    by (simp add: al_put_def take_Cons split: nat.splits)
  show ?thesis
    unfolding lru_ok_def peek
    by (auto simp: demo_lru_def map_of_al_put map_of_al_del put split: option.splits
        dest: map_of_take [where xs = "al_put _ _ _"])
qed

end
