(* ===== verification/Goud_Collection.thy ===== *)
theory Goud_Collection
  imports Goud_Crypto Goud_Demo
begin

text \<open>
  User data at rest (\<open>src/domain\<close>): encrypted collections (\<open>encrypted_collection.rs\<close>), user
  accounts (\<open>user_account.rs\<close>) and the envelopes that put them into a block (\<open>envelope.rs\<close>). Keys
  come from the key service of \<open>Goud_Key_Cache\<close>, whose contract says that they are the derived
  keys. JSON serialization is a codec argument; UUIDs, salts and nonces are arguments.
\<close>

section \<open>Data\<close>

record encrypted_collection =
  collection_id :: string
  owner_api_key_hash :: string
  encrypted_metadata :: string
  encrypted_payload :: string
  col_mac :: string
  col_nonce :: string
  col_signature :: string
  col_public_key :: string
  user_salt :: string

record user_account =
  account_id :: string
  acc_api_key_hash :: string
  acc_public_key :: string
  created_at :: i64
  metadata_encrypted :: "string option"
  acc_signature :: string

record account_envelope =
  env_encrypted_data :: string
  env_api_key_hash :: string
  env_nonce :: string

record collection_envelope =
  env_collection :: encrypted_collection

record block_envelope_container =
  account_envelopes :: "account_envelope list"
  collection_envelopes :: "collection_envelope list"
  container_validator :: string

section \<open>Collections\<close>

definition mac_message :: "string \<Rightarrow> string \<Rightarrow> string \<Rightarrow> string \<Rightarrow> string" where
  "mac_message cid meta payload salt = cid @ meta @ payload @ salt"

definition signature_message ::
  "string \<Rightarrow> string \<Rightarrow> string \<Rightarrow> string \<Rightarrow> string \<Rightarrow> string \<Rightarrow> string" where
  "signature_message cid owner meta payload mac salt = cid @ owner @ meta @ payload @ mac @ salt"

text \<open>The randomness of one new collection: its UUID, its salt and the nonces of its two
  ciphertexts.\<close>

record collection_seed =
  seed_uuid :: string
  seed_salt :: bytes
  seed_meta_nonce :: bytes
  seed_payload_nonce :: bytes

definition collection_metadata :: "string \<Rightarrow> i64 \<Rightarrow> json" where
  "collection_metadata label now = JObject [(''created_at'', json_of_i64 now), (''label'', JString label)]"

definition encrypted_collection_new ::
  "'z crypto_env_scheme \<Rightarrow> (json, string) codec \<Rightarrow> collection_seed \<Rightarrow> i64 \<Rightarrow> string \<Rightarrow> string
     \<Rightarrow> bytes \<Rightarrow> string \<Rightarrow> bytes \<Rightarrow> encrypted_collection res" where
  "encrypted_collection_new env js seed now label data api_key api_key_hash signing_key =
     (let cid = seed_uuid seed;
          public_key = get_public_key_hex env signing_key;
          salt = hex_encode env (seed_salt seed);
          encryption_key = derive_encryption_key env api_key ENCRYPTION_SALT;
          mac_key = derive_mac_key env api_key ENCRYPTION_SALT
      in bindE (map_err (\<lambda>e. Fail (Internal e)) (enc js (collection_metadata label now))) (\<lambda>metadata_str.
         bindE (encrypt_data_with_key env (seed_meta_nonce seed) metadata_str encryption_key)
           (\<lambda>(meta, meta_nonce).
         bindE (encrypt_data_with_key env (seed_payload_nonce seed) data encryption_key)
           (\<lambda>(payload, nonce).
         let mac = compute_mac env mac_key (as_bytes (mac_message cid meta payload salt));
             signature = sign_message env
               (as_bytes (signature_message cid api_key_hash meta payload mac salt)) signing_key
         in Inr \<lparr>collection_id = cid, owner_api_key_hash = api_key_hash, encrypted_metadata = meta,
                 encrypted_payload = payload, col_mac = mac, col_nonce = nonce,
                 col_signature = signature, col_public_key = public_key, user_salt = salt\<rparr>))))"

definition verify_collection ::
  "'z crypto_env_scheme \<Rightarrow> encrypted_collection \<Rightarrow> bytes option \<Rightarrow> unit res" where
  "verify_collection env c api_key =
     bindE (verify_signature env
              (as_bytes (signature_message (collection_id c) (owner_api_key_hash c)
                 (encrypted_metadata c) (encrypted_payload c) (col_mac c) (user_salt c)))
              (col_signature c) (col_public_key c)) (\<lambda>_.
     case api_key of
       Some key \<Rightarrow>
         verify_mac env (derive_mac_key env key ENCRYPTION_SALT)
           (as_bytes (mac_message (collection_id c) (encrypted_metadata c) (encrypted_payload c)
              (user_salt c))) (col_mac c)
     | None \<Rightarrow> Inr ())"

definition decrypt_metadata ::
  "'z crypto_env_scheme \<Rightarrow> (json, string) codec \<Rightarrow> encrypted_collection \<Rightarrow> bytes \<Rightarrow> json res" where
  "decrypt_metadata env js c api_key =
     bindE (decrypt_data_with_key env (encrypted_metadata c)
              (derive_encryption_key env api_key ENCRYPTION_SALT)) (\<lambda>decrypted.
     map_err (\<lambda>e. Fail (Internal e)) (dec js decrypted))"

definition decrypt_payload :: "'z crypto_env_scheme \<Rightarrow> encrypted_collection \<Rightarrow> bytes \<Rightarrow> string res" where
  "decrypt_payload env c api_key =
     decrypt_data_with_key env (encrypted_payload c)
       (derive_encryption_key env api_key ENCRYPTION_SALT)"

section \<open>Accounts\<close>

definition account_message :: "string \<Rightarrow> string \<Rightarrow> i64 \<Rightarrow> string option \<Rightarrow> string" where
  "account_message aid key_hash created meta =
     aid @ key_hash @ show_int created @ (case meta of Some m \<Rightarrow> m | None \<Rightarrow> [])"

definition user_account_new ::
  "'z crypto_env_scheme \<Rightarrow> (json, string) codec \<Rightarrow> string \<Rightarrow> bytes \<Rightarrow> i64 \<Rightarrow> bytes \<Rightarrow> bytes
     \<Rightarrow> json option \<Rightarrow> user_account res" where
  "user_account_new env js uuid nonce now api_key signing_key metadata =
     (let key_hash = hash_api_key_hex env api_key;
          public_key = get_public_key_hex env signing_key
      in bindE (case metadata of
             Some meta \<Rightarrow>
               bindE (map_err (\<lambda>e. Fail (Internal e)) (enc js meta)) (\<lambda>meta_string.
               bindE (encrypt_data_with_key env nonce meta_string
                        (derive_encryption_key env api_key ENCRYPTION_SALT)) (\<lambda>(encrypted, n).
               Inr (Some encrypted)))
           | None \<Rightarrow> Inr None) (\<lambda>meta_enc.
         Inr \<lparr>account_id = uuid, acc_api_key_hash = key_hash, acc_public_key = public_key,
              created_at = now, metadata_encrypted = meta_enc,
              acc_signature = sign_message env
                (as_bytes (account_message uuid key_hash now meta_enc)) signing_key\<rparr>))"

section \<open>Envelopes\<close>

definition derive_envelope_key :: "'z crypto_env_scheme \<Rightarrow> bytes \<Rightarrow> string \<Rightarrow> bytes" where
  "derive_envelope_key env api_key block_salt =
     derive_encryption_key env api_key (as_bytes (''envelope_v1:'' @ block_salt))"

definition encrypt_account_envelope ::
  "'z crypto_env_scheme \<Rightarrow> (user_account, string) codec \<Rightarrow> bytes \<Rightarrow> user_account \<Rightarrow> bytes \<Rightarrow> string
     \<Rightarrow> account_envelope res" where
  "encrypt_account_envelope env acc_js nonce_bytes account api_key block_salt =
     (let envelope_key = derive_envelope_key env api_key block_salt
      in bindE (map_err (\<lambda>e. Fail (Internal (''Failed to serialize account: '' @ e)))
                  (enc acc_js account)) (\<lambda>account_json.
         bindE (encrypt_data_with_key env nonce_bytes account_json envelope_key)
           (\<lambda>(encrypted_data, nonce).
         Inr \<lparr>env_encrypted_data = encrypted_data, env_api_key_hash = hash_api_key_hex env api_key,
              env_nonce = nonce\<rparr>)))"

definition decrypt_account_envelope ::
  "'z crypto_env_scheme \<Rightarrow> (user_account, string) codec \<Rightarrow> account_envelope \<Rightarrow> bytes \<Rightarrow> string
     \<Rightarrow> user_account res" where
  "decrypt_account_envelope env acc_js envelope api_key block_salt =
     (let envelope_key = derive_envelope_key env api_key block_salt
      in bindE (decrypt_data_with_key env (env_encrypted_data envelope) envelope_key)
           (\<lambda>decrypted_json.
         map_err (\<lambda>e. Fail (Internal (''Failed to deserialize account: '' @ e)))
           (dec acc_js decrypted_json)))"

section \<open>Lemmas\<close>

lemma decrypt_encrypt:
  assumes "b64_ok env" and "aead_ok env" and "length n = 12" and "utf8_valid (as_bytes data)"
    and "encrypt_data_with_key env n data k = Inr (c, h)"
  shows "decrypt_data_with_key env c k = Inr data"
  using assms decrypt_encrypt_with_nonce by (simp add: encrypt_data_with_key_def)

lemma encrypted_collection_new_fields:
  assumes "encrypted_collection_new env js seed now label data api_key api_key_hash sk = Inr c"
  obtains metadata_str meta_nonce where
    "enc js (collection_metadata label now) = Inr metadata_str"
    and "encrypt_data_with_key env (seed_meta_nonce seed) metadata_str
           (derive_encryption_key env api_key ENCRYPTION_SALT) = Inr (encrypted_metadata c, meta_nonce)"
    and "encrypt_data_with_key env (seed_payload_nonce seed) data
           (derive_encryption_key env api_key ENCRYPTION_SALT) = Inr (encrypted_payload c, col_nonce c)"
    and "col_mac c = compute_mac env (derive_mac_key env api_key ENCRYPTION_SALT)
           (as_bytes (mac_message (collection_id c) (encrypted_metadata c) (encrypted_payload c)
              (user_salt c)))"
    and "col_signature c = sign_message env (as_bytes (signature_message (collection_id c)
           (owner_api_key_hash c) (encrypted_metadata c) (encrypted_payload c) (col_mac c)
           (user_salt c))) sk"
    and "col_public_key c = get_public_key_hex env sk" and "owner_api_key_hash c = api_key_hash"
    and "collection_id c = seed_uuid seed"
  using assms by (auto simp: encrypted_collection_new_def Let_def res_iff)

lemma decrypt_encrypt_envelope:
  assumes "b64_ok env" and "aead_ok env" and "text_codec_ok acc_js" and "length n = 12"
    and "encrypt_account_envelope env acc_js n account api_key salt = Inr e"
  shows "decrypt_account_envelope env acc_js e api_key salt = Inr account
       \<and> env_api_key_hash e = hash_api_key_hex env api_key"
proof -
  from assms(5) obtain j where j: "enc acc_js account = Inr j"
    and c: "encrypt_data_with_key env n j (derive_envelope_key env api_key salt)
              = Inr (env_encrypted_data e, env_nonce e)"
    and h: "env_api_key_hash e = hash_api_key_hex env api_key"
    by (auto simp: encrypt_account_envelope_def Let_def res_iff)
  from assms(3) j have "utf8_valid (as_bytes j)" and d: "dec acc_js j = Inr account"
    by (auto simp: text_codec_ok_def codec_okD)
  then have "decrypt_data_with_key env (env_encrypted_data e) (derive_envelope_key env api_key salt) = Inr j"
    using decrypt_encrypt [OF assms(1,2,4) _ c] by simp
  with h d show ?thesis by (simp add: decrypt_account_envelope_def Let_def)
qed

lemma new_collection_verifies:
  assumes "hex_ok env" and "ed_ok env" and "ct_ok env"
    and "encrypted_collection_new env js seed now label data api_key key_hash sk = Inr c"
  shows "verify_collection env c (Some api_key) = Inr ()" and "verify_collection env c None = Inr ()"
  using assms(4)
  by (rule encrypted_collection_new_fields;
      use assms(1-3) in \<open>simp add: verify_collection_def verify_sign_message verify_compute_mac\<close>)+

lemma new_collection_decrypts:
  assumes "b64_ok env" and "aead_ok env" and "text_codec_ok js" and "utf8_valid (as_bytes data)"
    and "length (seed_meta_nonce seed) = 12" and "length (seed_payload_nonce seed) = 12"
    and new: "encrypted_collection_new env js seed now label data api_key key_hash sk = Inr c"
  shows "decrypt_payload env c api_key = Inr data"
    and "decrypt_metadata env js c api_key = Inr (collection_metadata label now)"
proof -
  from new obtain ms mn where
    ms: "enc js (collection_metadata label now) = Inr ms"
    and meta: "encrypt_data_with_key env (seed_meta_nonce seed) ms
        (derive_encryption_key env api_key ENCRYPTION_SALT) = Inr (encrypted_metadata c, mn)"
    and payload: "encrypt_data_with_key env (seed_payload_nonce seed) data
        (derive_encryption_key env api_key ENCRYPTION_SALT) = Inr (encrypted_payload c, col_nonce c)"
    by (rule encrypted_collection_new_fields)
  from assms(3) ms have u: "utf8_valid (as_bytes ms)" and d: "dec js ms = Inr (collection_metadata label now)"
    by (auto simp: text_codec_ok_def codec_okD)
  show "decrypt_metadata env js c api_key = Inr (collection_metadata label now)"
    by (simp add: decrypt_metadata_def decrypt_encrypt [OF assms(1,2,5) u meta] d)
  show "decrypt_payload env c api_key = Inr data"
    by (simp add: decrypt_payload_def decrypt_encrypt [OF assms(1,2,6,4) payload])
qed

text \<open>The strings that a MAC computation hashes: the inner and the outer one.\<close>

definition mac_key_block :: "'z crypto_env_scheme \<Rightarrow> bytes \<Rightarrow> bytes" where
  "mac_key_block env key = resize0 64 (if length key > 64 then sha256_bytes env key else key)"

definition mac_inner :: "'z crypto_env_scheme \<Rightarrow> bytes \<Rightarrow> bytes \<Rightarrow> bytes" where
  "mac_inner env key m = map (\<lambda>b. b XOR 0x36) (mac_key_block env key) @ m"

definition mac_outer :: "'z crypto_env_scheme \<Rightarrow> bytes \<Rightarrow> bytes \<Rightarrow> bytes" where
  "mac_outer env key m =
     map (\<lambda>b. b XOR 0x5c) (mac_key_block env key) @ sha256_bytes env (mac_inner env key m)"

lemma length_mac_key_block [simp]: "length (mac_key_block env key) = 64"
  by (simp add: mac_key_block_def resize0_def)

lemma hmac_unfold: "hmac_sha256 env key m = sha256_bytes env (mac_outer env key m)"
proof -
  have "map (\<lambda>i. f (mac_key_block env key ! i)) [0..<64] = map f (mac_key_block env key)" for f
    by (rule nth_equalityI) simp_all
  from this [of "\<lambda>b. b XOR 0x36"] this [of "\<lambda>b. b XOR 0x5c"] show ?thesis
    by (simp add: hmac_sha256_def mac_outer_def mac_inner_def Let_def flip: mac_key_block_def)
qed

lemma hmac_inject:
  assumes "inj_on (sha256 env) {mac_inner env k m1, mac_outer env k m1, mac_inner env k m2, mac_outer env k m2}"
    and "hmac_sha256 env k m1 = hmac_sha256 env k m2"
  shows "m1 = m2"
proof -
  have "sha256 env (mac_outer env k m1) = sha256 env (mac_outer env k m2)"
    using assms(2) by (simp add: hmac_unfold sha256_bytes_def digest_bytes_inject)
  with assms(1) have "mac_outer env k m1 = mac_outer env k m2" by (auto dest!: inj_onD)
  then have "sha256 env (mac_inner env k m1) = sha256 env (mac_inner env k m2)"
    by (simp add: mac_outer_def sha256_bytes_def digest_bytes_inject)
  with assms(1) have "mac_inner env k m1 = mac_inner env k m2" by (auto dest!: inj_onD)
  then show ?thesis by (simp add: mac_inner_def)
qed

lemma verify_collection_mac:
  "ct_ok env \<Longrightarrow> verify_collection env c (Some key) = Inr () \<Longrightarrow>
   hex_decode env (col_mac c) = Inr (hmac_sha256 env (derive_mac_key env key ENCRYPTION_SALT)
     (as_bytes (mac_message (collection_id c) (encrypted_metadata c) (encrypted_payload c) (user_salt c))))"
  by (auto simp: verify_collection_def res_iff verify_mac_iff)

abbreviation protected_bytes :: "encrypted_collection \<Rightarrow> bytes" where
  "protected_bytes c \<equiv>
     as_bytes (mac_message (collection_id c) (encrypted_metadata c) (encrypted_payload c) (user_salt c))"

section \<open>Properties\<close>

text \<open>A collection that was created with an API key and a node key verifies, with the API key
  (signature and MAC) and without it (signature only), decrypts under the API key to exactly the
  submitted data, and carries the submitted label and creation time in its metadata.\<close>

theorem collection_roundtrip:
  assumes "hex_ok env" and "b64_ok env" and "aead_ok env" and "ed_ok env" and "ct_ok env"
    and "text_codec_ok js" and "utf8_valid (as_bytes data)" and "in_i64 now"
    and "length (seed_meta_nonce seed) = 12" and "length (seed_payload_nonce seed) = 12"
    and new: "encrypted_collection_new env js seed now label data api_key key_hash sk = Inr c"
  shows "verify_collection env c (Some api_key) = Inr ()
       \<and> verify_collection env c None = Inr ()
       \<and> decrypt_payload env c api_key = Inr data
       \<and> (\<exists>m. decrypt_metadata env js c api_key = Inr m
             \<and> as_str (json_index m ''label'') = Some label
             \<and> as_i64 (json_index m ''created_at'') = Some now)"
  using new_collection_verifies [OF assms(1,4,5) new] new_collection_decrypts [OF assms(2,3,6,7,9,10) new]
    assms(8)
  by (simp add: collection_metadata_def)

theorem collection_roundtrip_witness:
  "let js = str_codec (table_codec [collection_metadata ''L'' 5]);
       seed = \<lparr>seed_uuid = ''id'', seed_salt = [9], seed_meta_nonce = replicate 12 1,
               seed_payload_nonce = replicate 12 2\<rparr>
   in \<exists>c. encrypted_collection_new demo_env js seed 5 ''L'' ''data'' [1] ''owner'' [7] = Inr c
        \<and> verify_collection demo_env c (Some [1]) = Inr ()
        \<and> decrypt_payload demo_env c [1] = Inr ''data''"
proof -
  let ?js = "str_codec (table_codec [collection_metadata ''L'' 5])"
  let ?seed = "\<lparr>seed_uuid = ''id'', seed_salt = [9], seed_meta_nonce = replicate 12 1,
               seed_payload_nonce = replicate 12 2\<rparr>"
  have "enc ?js (collection_metadata ''L'' 5) = Inr []"
    by (simp add: str_codec_def table_codec_def of_bytes_def)
  then have "\<exists>c. encrypted_collection_new demo_env ?js ?seed 5 ''L'' ''data'' [1] ''owner'' [7] = Inr c"
    by (simp add: encrypted_collection_new_def encrypt_data_with_key_def encrypt_data_with_nonce_def Let_def)
  then obtain c where c: "encrypted_collection_new demo_env ?js ?seed 5 ''L'' ''data'' [1] ''owner'' [7] = Inr c"
    by blast
  have "utf8_valid (as_bytes ''data'')" by (simp add: as_bytes_def)
  from collection_roundtrip [OF demo_env_ok(1-5) str_table_codec_ok this _ _ _ c] c show ?thesis
    unfolding Let_def by (intro exI [of _ c]) (simp add: in_i64_def)
qed

text \<open>C16. Tamper evidence of a collection under the owner's API key. Two collections that carry the
  same MAC and both verify under one API key have equal protected content (the concatenation of
  id, ciphertexts and salt), provided the hash does not collide on the inputs of the two MAC
  computations.\<close>

theorem collection_tamper_evident:
  assumes "ct_ok env" and "col_mac c1 = col_mac c2"
    and "verify_collection env c1 (Some api_key) = Inr ()"
    and "verify_collection env c2 (Some api_key) = Inr ()"
    and "inj_on (sha256 env)
      {mac_inner env (derive_mac_key env api_key ENCRYPTION_SALT) (protected_bytes c1),
       mac_outer env (derive_mac_key env api_key ENCRYPTION_SALT) (protected_bytes c1),
       mac_inner env (derive_mac_key env api_key ENCRYPTION_SALT) (protected_bytes c2),
       mac_outer env (derive_mac_key env api_key ENCRYPTION_SALT) (protected_bytes c2)}"
  shows "collection_id c1 @ encrypted_metadata c1 @ encrypted_payload c1 @ user_salt c1
       = collection_id c2 @ encrypted_metadata c2 @ encrypted_payload c2 @ user_salt c2"
proof -
  have "hmac_sha256 env (derive_mac_key env api_key ENCRYPTION_SALT) (protected_bytes c1)
      = hmac_sha256 env (derive_mac_key env api_key ENCRYPTION_SALT) (protected_bytes c2)"
    using verify_collection_mac [OF assms(1,3)] verify_collection_mac [OF assms(1,4)] assms(2) by simp
  from hmac_inject [OF assms(5) this] show ?thesis by (simp only: as_bytes_inject mac_message_def)
qed

definition demo_collection :: "'z crypto_env_scheme \<Rightarrow> bytes \<Rightarrow> bytes \<Rightarrow> encrypted_collection" where
  "demo_collection env api_key sk =
     (let mac = compute_mac env (derive_mac_key env api_key ENCRYPTION_SALT) (as_bytes ''idmps'')
      in \<lparr>collection_id = ''id'', owner_api_key_hash = ''o'', encrypted_metadata = ''m'',
          encrypted_payload = ''p'', col_mac = mac, col_nonce = ''n'',
          col_signature = sign_message env (as_bytes (''idomp'' @ mac @ ''s'')) sk,
          col_public_key = get_public_key_hex env sk, user_salt = ''s''\<rparr>)"

theorem collection_tamper_evident_witness:
  "let env = demo_env\<lparr>sha256 := \<lambda>b. of_nat (length b)\<rparr>; c1 = demo_collection env [1] [2];
       c2 = c1\<lparr>col_nonce := ''other''\<rparr>
   in c1 \<noteq> c2 \<and> verify_collection env c1 (Some [1]) = Inr () \<and> verify_collection env c2 (Some [1]) = Inr ()
      \<and> collection_id c1 @ encrypted_metadata c1 @ encrypted_payload c1 @ user_salt c1
        = collection_id c2 @ encrypted_metadata c2 @ encrypted_payload c2 @ user_salt c2"
proof -
  let ?env = "demo_env\<lparr>sha256 := \<lambda>b. of_nat (length b)\<rparr>"
  let ?c1 = "demo_collection ?env [1] [2]"
  let ?c2 = "?c1\<lparr>col_nonce := ''other''\<rparr>"
  let ?k = "derive_mac_key ?env [1] ENCRYPTION_SALT"
  have ok: "hex_ok ?env" "ed_ok ?env" "ct_ok ?env" by (simp_all add: demo_env_ok)
  note sealed = verify_sign_message [OF ok(1,2)] verify_compute_mac [OF ok(3,1)]
  have v: "verify_collection ?env ?c1 (Some [1]) = Inr ()" "verify_collection ?env ?c2 (Some [1]) = Inr ()"
    using sealed(1) [of "as_bytes (''idomp'' @ compute_mac ?env ?k (as_bytes ''idmps'') @ ''s'')" "[2]"]
      sealed(2) [of ?k "as_bytes ''idmps''"]
    by (simp_all add: verify_collection_def demo_collection_def signature_message_def mac_message_def
        Let_def del: as_bytes_append)
  have len: "length (protected_bytes ?c1) = 5"
    by (simp add: demo_collection_def mac_message_def Let_def)
  have "inj_on (sha256 ?env) {mac_inner ?env ?k (protected_bytes ?c1), mac_outer ?env ?k (protected_bytes ?c1)}"
    using len by (intro inj_on_pair) (simp add: mac_inner_def mac_outer_def)
  then have inj: "inj_on (sha256 ?env)
      {mac_inner ?env ?k (protected_bytes ?c1), mac_outer ?env ?k (protected_bytes ?c1),
       mac_inner ?env ?k (protected_bytes ?c2), mac_outer ?env ?k (protected_bytes ?c2)}"
    by (simp add: insert_commute)
  have "?c1 \<noteq> ?c2" by (simp add: demo_collection_def Let_def)
  with v collection_tamper_evident [OF ok(3) _ v inj] show ?thesis by (simp add: Let_def)
qed

text \<open>Envelope round trip: an account sealed into a block's envelope under an API key and the
  block's salt is opened with the same key and salt to exactly the account, and the envelope is
  filed under the hash of that key.\<close>

theorem envelope_roundtrip:
  assumes "b64_ok env" and "aead_ok env" and "text_codec_ok acc_js" and "length n = 12"
    and "encrypt_account_envelope env acc_js n account api_key salt = Inr e"
  shows "decrypt_account_envelope env acc_js e api_key salt = Inr account
       \<and> env_api_key_hash e = hash_api_key_hex env api_key"
  using assms by (rule decrypt_encrypt_envelope)

theorem envelope_roundtrip_witness:
  "let a = \<lparr>account_id = ''a'', acc_api_key_hash = ''h'', acc_public_key = ''p'', created_at = 5,
            metadata_encrypted = None, acc_signature = ''s''\<rparr>;
       js = str_codec (table_codec [a])
   in \<exists>e. encrypt_account_envelope demo_env js (replicate 12 3) a [1] ''salt'' = Inr e
        \<and> decrypt_account_envelope demo_env js e [1] ''salt'' = Inr a"
proof -
  let ?a = "\<lparr>account_id = ''a'', acc_api_key_hash = ''h'', acc_public_key = ''p'', created_at = 5,
            metadata_encrypted = None, acc_signature = ''s''\<rparr>"
  let ?js = "str_codec (table_codec [?a])"
  have "enc ?js ?a = Inr []" by (simp add: str_codec_def table_codec_def of_bytes_def)
  then have "\<exists>e. encrypt_account_envelope demo_env ?js (replicate 12 3) ?a [1] ''salt'' = Inr e"
    by (simp add: encrypt_account_envelope_def encrypt_data_with_key_def encrypt_data_with_nonce_def Let_def)
  then obtain e where e: "encrypt_account_envelope demo_env ?js (replicate 12 3) ?a [1] ''salt'' = Inr e"
    by blast
  from envelope_roundtrip [OF demo_env_ok(2,3) str_table_codec_ok _ e] e show ?thesis
    unfolding Let_def by (intro exI [of _ e]) simp
qed

end
