(* ===== verification/Goud_Block.thy ===== *)
theory Goud_Block
  imports Goud_Collection
begin

text \<open>
  Blocks (\<open>src/domain/block.rs\<close>): timestamps rounded to the day with a random jitter, the Merkle
  root over the encrypted data and the blind indexes, the block hash, the envelope container and
  the lookups in it. The random salt and jitter are arguments, as is the JSON codec of the container.
\<close>

section \<open>Data\<close>

record block =
  b_index :: u64
  b_timestamp :: i64
  b_encrypted_block_data :: string
  b_blind_indexes :: "string list"
  b_block_salt :: string
  b_validator :: string
  b_previous_hash :: string
  b_merkle_root :: string
  b_hash :: string

record block_config =
  bc_index :: u64
  bc_account_envelopes :: "account_envelope list"
  bc_collection_envelopes :: "collection_envelope list"
  bc_previous_hash :: string
  bc_validator :: string
  bc_blind_indexes :: "string list"
  bc_block_salt :: string

type_synonym container_codec = "(block_envelope_container, string) codec"

section \<open>Operations\<close>

definition generate_block_salt :: "'z crypto_env_scheme \<Rightarrow> bytes \<Rightarrow> string" where
  "generate_block_salt env salt_bytes = hex_encode env salt_bytes"

text \<open>Rust's remainder truncates towards zero.\<close>

definition obfuscate_timestamp :: "i64 \<Rightarrow> i64 \<Rightarrow> i64" where
  "obfuscate_timestamp jitter timestamp =
     (let rounded = timestamp - (timestamp smod TIMESTAMP_GRANULARITY_SECONDS) in rounded + jitter)"

definition hash_string :: "'z crypto_env_scheme \<Rightarrow> string \<Rightarrow> string" where
  "hash_string env s = blake3_hex env (as_bytes s)"

fun merkle_level :: "'z crypto_env_scheme \<Rightarrow> string list \<Rightarrow> string list" where
  "merkle_level env [] = []"
| "merkle_level env [a] = [hash_string env a]"
| "merkle_level env (a # b # rest) = hash_string env (a @ b) # merkle_level env rest"

lemma length_merkle_level [simp]: "length (merkle_level env hs) = (length hs + 1) div 2"
  by (induction env hs rule: merkle_level.induct) auto

function merkle_reduce :: "'z crypto_env_scheme \<Rightarrow> string list \<Rightarrow> string list" where
  "merkle_reduce env hs =
     (if length hs > 1 then merkle_reduce env (merkle_level env hs) else hs)"
  by pat_completeness auto
termination
  by (relation "measure (\<lambda>(env, hs). length hs)") auto

declare merkle_reduce.simps [simp del]

definition calculate_merkle_root :: "'z crypto_env_scheme \<Rightarrow> string \<Rightarrow> string list \<Rightarrow> string" where
  "calculate_merkle_root env encrypted_data blind_indexes =
     (if encrypted_data = [] \<and> blind_indexes = [] then EMPTY_MERKLE_ROOT
      else hd (merkle_reduce env
             (hash_string env encrypted_data # map (hash_string env) blind_indexes)))"

definition hash_content :: "block \<Rightarrow> string" where
  "hash_content b =
     show_u64 (b_index b) @ show_int (b_timestamp b) @ b_merkle_root b @ b_previous_hash b @ b_validator b"

definition calculate_hash :: "'z crypto_env_scheme \<Rightarrow> block \<Rightarrow> string" where
  "calculate_hash env b = hash_string env (hash_content b)"

text \<open>\<open>jitter\<close> is the random offset, \<open>now\<close> the clock.\<close>

definition block_new ::
  "'z crypto_env_scheme \<Rightarrow> container_codec \<Rightarrow> i64 \<Rightarrow> i64 \<Rightarrow> block_config \<Rightarrow> block res" where
  "block_new env cjs now jitter cfg =
     (let timestamp = (if bc_index cfg = 0 then GENESIS_TIMESTAMP else obfuscate_timestamp jitter now);
          envelope_container = \<lparr>account_envelopes = bc_account_envelopes cfg,
            collection_envelopes = bc_collection_envelopes cfg, container_validator = bc_validator cfg\<rparr>
      in bindE (map_err (\<lambda>e. Fail (Internal (''Failed to serialize envelope container: '' @ e)))
                  (enc cjs envelope_container)) (\<lambda>container_json.
         let encrypted_block_data = b64_encode env (as_bytes container_json);
             merkle_root = calculate_merkle_root env encrypted_block_data (bc_blind_indexes cfg);
             block = \<lparr>b_index = bc_index cfg, b_timestamp = timestamp,
               b_encrypted_block_data = encrypted_block_data, b_blind_indexes = bc_blind_indexes cfg,
               b_block_salt = bc_block_salt cfg, b_validator = bc_validator cfg,
               b_previous_hash = bc_previous_hash cfg, b_merkle_root = merkle_root, b_hash = []\<rparr>
         in Inr (block\<lparr>b_hash := calculate_hash env block\<rparr>)))"

definition get_envelope_container ::
  "'z crypto_env_scheme \<Rightarrow> container_codec \<Rightarrow> block \<Rightarrow> block_envelope_container res" where
  "get_envelope_container env cjs b =
     bindE (map_err (\<lambda>e. Fail (Internal (''Failed to decode Base64: '' @ e)))
              (b64_decode env (b_encrypted_block_data b))) (\<lambda>container_json.
     map_err (\<lambda>e. Fail (Internal (''Failed to deserialize envelope container: '' @ e)))
       (dec cjs (of_bytes container_json)))"

text \<open>The first envelope filed under the key's hash decides, also when it does not open.\<close>

definition get_account ::
  "'z crypto_env_scheme \<Rightarrow> container_codec \<Rightarrow> (user_account, string) codec \<Rightarrow> block \<Rightarrow> bytes
     \<Rightarrow> user_account option res" where
  "get_account env cjs acc_js b api_key =
     (let api_key_hash = hash_api_key_hex env api_key
      in bindE (get_envelope_container env cjs b) (\<lambda>container.
         case find (\<lambda>e. env_api_key_hash e = api_key_hash) (account_envelopes container) of
           Some envelope \<Rightarrow>
             bindE (decrypt_account_envelope env acc_js envelope api_key (b_block_salt b)) (\<lambda>account.
             Inr (Some account))
         | None \<Rightarrow> Inr None))"

definition get_collections_by_owner ::
  "'z crypto_env_scheme \<Rightarrow> container_codec \<Rightarrow> block \<Rightarrow> bytes \<Rightarrow> encrypted_collection list res" where
  "get_collections_by_owner env cjs b api_key =
     (let api_key_hash = hash_api_key_hex env api_key
      in bindE (get_envelope_container env cjs b) (\<lambda>container.
         Inr (filter (\<lambda>c. owner_api_key_hash c = api_key_hash)
                (map env_collection (collection_envelopes container)))))"

definition get_account_count :: "'z crypto_env_scheme \<Rightarrow> container_codec \<Rightarrow> block \<Rightarrow> nat res" where
  "get_account_count env cjs b =
     bindE (get_envelope_container env cjs b) (\<lambda>c. Inr (length (account_envelopes c)))"

definition get_collection_count :: "'z crypto_env_scheme \<Rightarrow> container_codec \<Rightarrow> block \<Rightarrow> nat res" where
  "get_collection_count env cjs b =
     bindE (get_envelope_container env cjs b) (\<lambda>c. Inr (length (collection_envelopes c)))"

definition verify_data :: "'z crypto_env_scheme \<Rightarrow> container_codec \<Rightarrow> block \<Rightarrow> unit res" where
  "verify_data env cjs b =
     bindE (get_envelope_container env cjs b) (\<lambda>container.
     check_all (\<lambda>ce. verify_collection env (env_collection ce) None) (collection_envelopes container))"

section \<open>Lemmas on the Merkle tree\<close>

text \<open>The strings that one level, and the whole computation, hash.\<close>

fun level_inputs :: "string list \<Rightarrow> string list" where
  "level_inputs [] = []"
| "level_inputs [a] = [a]"
| "level_inputs (a # b # rest) = (a @ b) # level_inputs rest"

function reduce_inputs :: "'z crypto_env_scheme \<Rightarrow> string list \<Rightarrow> string list" where
  "reduce_inputs env hs =
     (if length hs > 1 then level_inputs hs @ reduce_inputs env (merkle_level env hs) else [])"
  by pat_completeness auto
termination
  by (relation "measure (\<lambda>(env, hs). length hs)") auto

declare reduce_inputs.simps [simp del]

definition merkle_inputs :: "'z crypto_env_scheme \<Rightarrow> string \<Rightarrow> string list \<Rightarrow> string set" where
  "merkle_inputs env d ix =
     set (d # ix) \<union> set (reduce_inputs env (map (hash_string env) (d # ix)))"

lemma merkle_level_inputs: "merkle_level env hs = map (hash_string env) (level_inputs hs)"
  by (induction env hs rule: merkle_level.induct) auto

lemma level_inputs_inject:
  assumes "length hs = length hs'" and "\<forall>h\<in>set hs \<union> set hs'. length h = n"
    and "level_inputs hs = level_inputs hs'"
  shows "hs = hs'"
  using assms
proof (induction hs arbitrary: hs' rule: level_inputs.induct)
  case (2 a)
  then show ?case by (cases hs') (auto simp: length_Suc_conv)
next
  case (3 a b rest)
  from "3.prems"(1) obtain c d rest' where hs': "hs' = c # d # rest'" and "length rest = length rest'"
    by (auto simp: length_Suc_conv Suc_length_conv)
  with 3 show ?case by auto
qed simp

lemma merkle_reduce_nonempty: "hs \<noteq> [] \<Longrightarrow> \<exists>r. merkle_reduce env hs = [r]"
proof (induction env hs rule: merkle_reduce.induct)
  case (1 env hs)
  show ?case
  proof (cases "length hs > 1")
    case True
    then have "merkle_level env hs \<noteq> []"
      using length_merkle_level [of env hs] by (cases "merkle_level env hs") auto
    with 1 True show ?thesis by (subst merkle_reduce.simps) simp
  next
    case False
    with 1 show ?thesis by (cases hs) (auto simp: merkle_reduce.simps [of env "[_]"])
  qed
qed

lemma length_merkle_reduce:
  "blake3_ok env \<Longrightarrow> \<forall>h\<in>set hs. length h = 64 \<Longrightarrow> \<forall>h\<in>set (merkle_reduce env hs). length h = 64"
proof (induction env hs rule: merkle_reduce.induct)
  case (1 env hs)
  have "\<forall>h\<in>set (merkle_level env hs). length h = 64"
    using 1 by (auto simp: merkle_level_inputs hash_string_def blake3_ok_def)
  with 1 show ?case by (subst merkle_reduce.simps) simp
qed

lemma merkle_reduce_inject:
  assumes "length hs = length hs'" and "\<forall>h\<in>set hs \<union> set hs'. length h = 64" and "blake3_ok env"
    and "inj_on (hash_string env) (set (reduce_inputs env hs) \<union> set (reduce_inputs env hs'))"
    and "merkle_reduce env hs = merkle_reduce env hs'"
  shows "hs = hs'"
  using assms
proof (induction env hs arbitrary: hs' rule: merkle_reduce.induct)
  case (1 env hs)
  show ?case
  proof (cases "length hs > 1")
    case True
    let ?l = "merkle_level env hs" and ?l' = "merkle_level env hs'"
    from True "1.prems"(1) have inputs:
      "reduce_inputs env hs = level_inputs hs @ reduce_inputs env ?l"
      "reduce_inputs env hs' = level_inputs hs' @ reduce_inputs env ?l'"
      by (simp_all add: reduce_inputs.simps [of env hs] reduce_inputs.simps [of env hs'])
    have "?l = ?l'"
    proof (rule "1.IH" [OF True])
      show "\<forall>h\<in>set ?l \<union> set ?l'. length h = 64"
        using "1.prems"(3) by (auto simp: merkle_level_inputs hash_string_def blake3_ok_def)
      show "inj_on (hash_string env) (set (reduce_inputs env ?l) \<union> set (reduce_inputs env ?l'))"
        using "1.prems"(4) by (rule inj_on_subset) (auto simp: inputs)
      show "merkle_reduce env ?l = merkle_reduce env ?l'"
        using "1.prems"(1,5) True by (simp add: merkle_reduce.simps [of env hs] merkle_reduce.simps [of env hs'])
    qed (use "1.prems"(1,3) in auto)
    moreover have "inj_on (hash_string env) (set (level_inputs hs) \<union> set (level_inputs hs'))"
      using "1.prems"(4) by (rule inj_on_subset) (auto simp: inputs)
    ultimately have "level_inputs hs = level_inputs hs'"
      by (simp add: merkle_level_inputs inj_on_map_eq_map)
    then show ?thesis using level_inputs_inject "1.prems"(1,2) by blast
  next
    case False
    with "1.prems"(1,5) show ?thesis by (simp add: merkle_reduce.simps [of env hs] merkle_reduce.simps [of env hs'])
  qed
qed

lemma merkle_root_length:
  "blake3_ok env \<Longrightarrow> d \<noteq> [] \<or> ix \<noteq> [] \<Longrightarrow> length (calculate_merkle_root env d ix) = 64"
  using merkle_reduce_nonempty [of "hash_string env d # map (hash_string env) ix" env]
    length_merkle_reduce [of env "hash_string env d # map (hash_string env) ix"]
  by (auto simp: calculate_merkle_root_def hash_string_def blake3_ok_def)

lemma merkle_root_inject:
  assumes "blake3_ok env" and "length ix = length ix'"
    and "inj_on (hash_string env) (merkle_inputs env d ix \<union> merkle_inputs env d' ix')"
    and "calculate_merkle_root env d ix = calculate_merkle_root env d' ix'"
  shows "d = d' \<and> ix = ix'"
proof (cases "ix = [] \<and> (d = [] \<or> d' = [])")
  case True
  moreover have "length EMPTY_MERKLE_ROOT \<noteq> 64" by (simp add: EMPTY_MERKLE_ROOT_def)
  ultimately show ?thesis
    using assms(2,4) merkle_root_length [OF assms(1), of d ix] merkle_root_length [OF assms(1), of d' ix']
    by (auto simp: calculate_merkle_root_def split: if_splits)
next
  case False
  let ?hs = "map (hash_string env) (d # ix)" and ?hs' = "map (hash_string env) (d' # ix')"
  obtain r r' where r: "merkle_reduce env ?hs = [r]" "merkle_reduce env ?hs' = [r']"
    using merkle_reduce_nonempty [of ?hs env] merkle_reduce_nonempty [of ?hs' env] by auto
  moreover from False assms(2,4) have "hd (merkle_reduce env ?hs) = hd (merkle_reduce env ?hs')"
    by (auto simp: calculate_merkle_root_def split: if_splits)
  ultimately have "merkle_reduce env ?hs = merkle_reduce env ?hs'" by simp
  moreover have "\<forall>h\<in>set ?hs \<union> set ?hs'. length h = 64"
    using assms(1) by (auto simp: hash_string_def blake3_ok_def)
  moreover have "inj_on (hash_string env) (set (reduce_inputs env ?hs) \<union> set (reduce_inputs env ?hs'))"
    using assms(3) by (rule inj_on_subset) (auto simp: merkle_inputs_def)
  ultimately have "?hs = ?hs'"
    using assms(1,2) by (intro merkle_reduce_inject [of ?hs ?hs' env]) auto
  moreover have "inj_on (hash_string env) (set (d # ix) \<union> set (d' # ix'))"
    using assms(3) by (rule inj_on_subset) (auto simp: merkle_inputs_def)
  ultimately have "d # ix = d' # ix'" by (metis inj_on_map_eq_map)
  then show ?thesis by simp
qed

section \<open>Lemmas on blocks\<close>

lemma calculate_hash_hash_update [simp]: "calculate_hash env (b\<lparr>b_hash := h\<rparr>) = calculate_hash env b"
  by (simp add: calculate_hash_def hash_content_def)

lemma block_new_fields:
  assumes "block_new env cjs now jitter cfg = Inr b"
  shows "b_index b = bc_index cfg" and "b_validator b = bc_validator cfg"
    and "b_previous_hash b = bc_previous_hash cfg" and "b_block_salt b = bc_block_salt cfg"
    and "b_blind_indexes b = bc_blind_indexes cfg"
    and "b_timestamp b = (if bc_index cfg = 0 then GENESIS_TIMESTAMP else obfuscate_timestamp jitter now)"
    and "b_hash b = calculate_hash env b"
    and "b_merkle_root b = calculate_merkle_root env (b_encrypted_block_data b) (b_blind_indexes b)"
  using assms by (auto simp: block_new_def Let_def res_iff calculate_hash_def hash_content_def)

lemma block_new_container:
  assumes "b64_ok env" and "text_codec_ok cjs" and "block_new env cjs now jitter cfg = Inr b"
  shows "get_envelope_container env cjs b =
    Inr \<lparr>account_envelopes = bc_account_envelopes cfg, collection_envelopes = bc_collection_envelopes cfg,
         container_validator = bc_validator cfg\<rparr>"
  using assms
  by (auto simp: block_new_def get_envelope_container_def Let_def res_iff text_codec_ok_def
      dest: codec_okD)

lemma verify_data_iff:
  assumes "get_envelope_container env cjs b = Inr c"
  shows "verify_data env cjs b = Inr () \<longleftrightarrow>
    (\<forall>ce\<in>set (collection_envelopes c). verify_collection env (env_collection ce) None = Inr ())"
  by (simp add: verify_data_def assms check_all_Inr_iff)

text \<open>A string in front of one of the same length ix cancelled.\<close>

lemma hash_content_inject:
  assumes "hash_content a = hash_content b" and "b_index a = b_index b" and "b_validator a = b_validator b"
    and "length (b_previous_hash a) = length (b_previous_hash b)"
    and "length (b_merkle_root a) = length (b_merkle_root b)"
  shows "b_timestamp a = b_timestamp b \<and> b_merkle_root a = b_merkle_root b
       \<and> b_previous_hash a = b_previous_hash b"
  using assms append_eq_append_conv [of "b_merkle_root a" "b_merkle_root b"]
  by (auto simp: hash_content_def simp flip: append_assoc)

end
