(* ===== verification/Goud_Config.thy ===== *)
theory Goud_Config
  imports Goud_Constants
begin

text \<open>
  Node configuration (\<open>src/config.rs\<close>): the validator set with its round-robin schedule and the
  loading of the configuration from environment variables and secret files. The environment is a map
  from names to values, the file system a map from paths to contents with the paths on which
  input and output fails.
\<close>

section \<open>The validator set\<close>

record validator_config =
  validators :: "string list"
  node_to_validator :: "string \<rightharpoonup> string"
  validator_to_address :: "string \<rightharpoonup> string"

text \<open>The remainder by zero panics.\<close>

definition get_validator_for_block :: "validator_config \<Rightarrow> u64 \<Rightarrow> string res" where
  "get_validator_for_block cfg block_number =
     (if validators cfg = [] then panic
      else Inr (validators cfg ! (unat block_number mod length (validators cfg))))"

definition is_node_authorized :: "validator_config \<Rightarrow> string \<Rightarrow> u64 \<Rightarrow> bool res" where
  "is_node_authorized cfg node_id block_number =
     bindE (get_validator_for_block cfg block_number) (\<lambda>expected_validator.
     Inr (case node_to_validator cfg node_id of
            Some v \<Rightarrow> v = expected_validator
          | None \<Rightarrow> False))"

definition get_validator_address :: "validator_config \<Rightarrow> string \<Rightarrow> string option" where
  "get_validator_address cfg validator = validator_to_address cfg validator"

section \<open>Loading\<close>

datatype config_error =
    InvalidPort
  | WeakJwtSecret
  | WeakSessionSecret
  | InvalidValidatorConfig string
  | ConfigIoError string

record config =
  cfg_node_id :: string
  cfg_http_port :: string
  cfg_p2p_port :: u16
  cfg_peers :: "string list"
  cfg_jwt_secret :: bytes
  cfg_session_secret :: bytes
  cfg_validator_config :: validator_config

type_synonym env_vars = "string \<rightharpoonup> string"

record file_system =
  files :: "string \<rightharpoonup> bytes"
  io_error :: "string \<rightharpoonup> string"

definition unwrap_or :: "'a option \<Rightarrow> 'a \<Rightarrow> 'a" where
  "unwrap_or o' d = (case o' of None \<Rightarrow> d | Some x \<Rightarrow> x)"

definition comma_list :: "string \<Rightarrow> string list" where
  "comma_list s = filter (\<lambda>p. p \<noteq> []) (map trim (split_on CHR '','' s))"

definition parse_peers :: "env_vars \<Rightarrow> string list" where
  "parse_peers ev = (case ev ''PEERS'' of None \<Rightarrow> [] | Some peer_urls \<Rightarrow> comma_list peer_urls)"

text \<open>The loop over the \<open>node:validator\<close> entries; malformed entries are skipped.\<close>

definition parse_nodes :: "string \<Rightarrow> (string \<rightharpoonup> string)" where
  "parse_nodes mapping =
     foldl (\<lambda>m entry. case split_on CHR '':'' entry of
               [node, validator] \<Rightarrow> m(trim node \<mapsto> trim validator)
             | _ \<Rightarrow> m)
       Map.empty (split_on CHR '','' mapping)"

definition parse_addresses :: "string \<Rightarrow> (string \<rightharpoonup> string)" where
  "parse_addresses mapping =
     foldl (\<lambda>m entry. case split_on CHR '':'' entry of
               [validator, host, port] \<Rightarrow> m(trim validator \<mapsto> trim host @ '':'' @ trim port)
             | _ \<Rightarrow> m)
       Map.empty (split_on CHR '','' mapping)"

definition load_validator_config :: "env_vars \<Rightarrow> config_error + validator_config" where
  "load_validator_config ev =
     (let names = comma_list (unwrap_or (ev ''VALIDATORS'') ''Validator_1,Validator_2'')
      in if names = [] then Inl (InvalidValidatorConfig ''No validators configured'')
         else
           let nodes = (case ev ''VALIDATOR_NODES'' of
                 Some mapping \<Rightarrow> parse_nodes mapping
               | None \<Rightarrow> [''node1'' \<mapsto> ''Validator_1'', ''node2'' \<mapsto> ''Validator_2'',
                         ''node3'' \<mapsto> ''Validator_3'']);
               addresses = (case ev ''VALIDATOR_ADDRESSES'' of
                 Some mapping \<Rightarrow> parse_addresses mapping
               | None \<Rightarrow>
                   [''Validator_1'' \<mapsto> unwrap_or (ev ''NODE1_ADDR'') ''node1:8080'',
                    ''Validator_2'' \<mapsto> unwrap_or (ev ''NODE2_ADDR'') ''node2:8080'',
                    ''Validator_3'' \<mapsto> unwrap_or (ev ''NODE3_ADDR'') ''node3:8080''])
           in Inr \<lparr>validators = names, node_to_validator = nodes, validator_to_address = addresses\<rparr>)"

text \<open>Both secrets load the same way: from the variable, else from the file, else freshly generated
  and written to the file.\<close>

definition load_secret ::
  "string \<Rightarrow> config_error \<Rightarrow> string \<Rightarrow> env_vars \<Rightarrow> bytes \<Rightarrow> (file_system, config_error, bytes) act" where
  "load_secret var weak path ev new_secret fs =
     (case ev var of
        Some secret \<Rightarrow>
          if length (as_bytes secret) < 32 then (Inl weak, fs) else (Inr (as_bytes secret), fs)
      | None \<Rightarrow>
          (case files fs path of
             Some content \<Rightarrow>
               (case io_error fs path of
                  Some e \<Rightarrow> (Inl (ConfigIoError e), fs)
                | None \<Rightarrow> (Inr content, fs))
           | None \<Rightarrow>
               (case io_error fs path of
                  Some e \<Rightarrow> (Inl (ConfigIoError e), fs)
                | None \<Rightarrow> (Inr new_secret, fs\<lparr>files := (files fs)(path \<mapsto> new_secret)\<rparr>))))"

definition DATA_DIRECTORY :: string where "DATA_DIRECTORY = ''/data''"

definition load_jwt_secret :: "env_vars \<Rightarrow> bytes \<Rightarrow> (file_system, config_error, bytes) act" where
  "load_jwt_secret = load_secret ''JWT_SECRET'' WeakJwtSecret (DATA_DIRECTORY @ ''/jwt_secret'')"

definition load_session_secret :: "env_vars \<Rightarrow> bytes \<Rightarrow> (file_system, config_error, bytes) act" where
  "load_session_secret =
     load_secret ''SESSION_SECRET'' WeakSessionSecret (DATA_DIRECTORY @ ''/session_secret'')"

definition from_env ::
  "env_vars \<Rightarrow> string \<Rightarrow> bytes \<Rightarrow> bytes \<Rightarrow> (file_system, config_error, config) act" where
  "from_env ev uuid new_jwt new_session =
     (let node_id = unwrap_or (ev ''NODE_ID'') uuid;
          http_port = unwrap_or (ev ''HTTP_PORT'') DEFAULT_HTTP_PORT
      in bindS (liftS (ok_or (parse_unsigned 65535 (unwrap_or (ev ''P2P_PORT'') DEFAULT_P2P_PORT))
                         InvalidPort)) (\<lambda>p2p_port.
         let peers = parse_peers ev
         in bindS (load_jwt_secret ev new_jwt) (\<lambda>jwt_secret.
            bindS (load_session_secret ev new_session) (\<lambda>session_secret.
            bindS (liftS (load_validator_config ev)) (\<lambda>vc.
            retS \<lparr>cfg_node_id = node_id, cfg_http_port = http_port, cfg_p2p_port = of_nat p2p_port,
                  cfg_peers = peers, cfg_jwt_secret = jwt_secret,
                  cfg_session_secret = session_secret, cfg_validator_config = vc\<rparr>)))))"

definition http_bind_addr :: "config \<Rightarrow> string" where
  "http_bind_addr cfg = ''0.0.0.0:'' @ cfg_http_port cfg"

section \<open>Lemmas\<close>

lemma get_validator_for_block_ok:
  "validators cfg \<noteq> [] \<Longrightarrow>
   get_validator_for_block cfg n = Inr (validators cfg ! (unat n mod length (validators cfg)))"
  by (simp add: get_validator_for_block_def)

lemma is_node_authorized_iff [res_iff]:
  "is_node_authorized cfg node n = Inr True \<longleftrightarrow>
     (\<exists>v. get_validator_for_block cfg n = Inr v \<and> node_to_validator cfg node = Some v)"
  by (auto simp: is_node_authorized_def res_iff split: option.splits)

text \<open>The schedule over a full turn: block numbers from \<open>b\<close> to \<open>b + n - 1\<close> hit every position of a
  list of length \<open>n\<close> exactly once.\<close>

lemma consecutive_mods:
  assumes "0 < (n :: nat)"
  shows "bij_betw (\<lambda>i. (b + i) mod n) {..<n} {..<n}"
proof -
  have "inj_on (\<lambda>i. (b + i) mod n) {..<n}"
  proof (rule inj_onI)
    fix i j assume ij: "i \<in> {..<n}" "j \<in> {..<n}" and e: "(b + i) mod n = (b + j) mod n"
    have *: "x = y" if "x \<le> y" "y < n" "(b + x) mod n = (b + y) mod n" for x y
    proof -
      have "b + x \<le> b + y" using that(1) by simp
      from mod_eq_dvd_iff_nat [OF this, of n] that(3) have "n dvd y - x" by simp
      with that(1,2) show ?thesis by (metis diff_is_0_eq dvd_imp_le less_imp_diff_less
            linorder_not_le le_antisym neq0_conv)
    qed
    from ij e show "i = j" by (cases "i \<le> j") (use * [of i j] * [of j i] in auto)
  qed
  moreover have "(\<lambda>i. (b + i) mod n) ` {..<n} \<subseteq> {..<n}" using assms by auto
  ultimately show ?thesis by (simp add: bij_betw_def endo_inj_surj)
qed

lemma bij_betw_ex1: "bij_betw f A B \<Longrightarrow> y \<in> B \<Longrightarrow> \<exists>!x. x \<in> A \<and> f x = y"
  unfolding bij_betw_def inj_on_def by blast

text \<open>A comma-separated list of proper names reads back as the list.\<close>

fun join_commas :: "string list \<Rightarrow> string" where
  "join_commas [] = []"
| "join_commas [x] = x"
| "join_commas (x # y # xs) = x @ '','' @ join_commas (y # xs)"

lemma split_join_commas:
  "\<forall>x\<in>set xs. CHR '','' \<notin> set x \<Longrightarrow> xs \<noteq> [] \<Longrightarrow> split_on CHR '','' (join_commas xs) = xs"
  by (induction xs rule: join_commas.induct) (simp_all add: split_on_no_sep split_on_append_sep)

lemma comma_list_join:
  assumes "xs \<noteq> []" and "\<forall>x\<in>set xs. CHR '','' \<notin> set x \<and> x \<noteq> [] \<and> trimmed x"
  shows "comma_list (join_commas xs) = xs"
proof -
  have "map trim xs = xs" using assms(2) by (simp add: trim_trimmed map_idI)
  moreover have "split_on CHR '','' (join_commas xs) = xs"
    using assms by (intro split_join_commas) auto
  ultimately show ?thesis using assms(2) by (simp add: comma_list_def filter_id_conv)
qed

lemma load_validator_config_names:
  "load_validator_config ev = Inr cfg \<Longrightarrow>
   validators cfg = comma_list (unwrap_or (ev ''VALIDATORS'') ''Validator_1,Validator_2'')"
  by (auto simp: load_validator_config_def Let_def split: if_splits)

lemma load_validator_config_nonempty:
  "load_validator_config ev = Inr cfg \<Longrightarrow> validators cfg \<noteq> []"
  by (auto simp: load_validator_config_def Let_def split: if_splits)

section \<open>Properties\<close>

text \<open>C22. Round-robin fairness. In any window of as many consecutive block numbers as there are
  validators, starting at a block number that leaves room below the 64-bit limit, every validator of
  a duplicate-free list is scheduled for exactly one block, and the lookup never panics.\<close>

theorem round_robin_fair:
  assumes "validators cfg \<noteq> []" and "distinct (validators cfg)" and "v \<in> set (validators cfg)"
    and "unat start + length (validators cfg) \<le> 2 ^ 64"
  shows "\<exists>!i. i < length (validators cfg) \<and> get_validator_for_block cfg (start + of_nat i) = Inr v"
proof -
  let ?n = "length (validators cfg)"
  have num: "unat (start + of_nat i) = unat start + i" if "i < ?n" for i
  proof -
    have "unat (start + of_nat i) = (unat start + i) mod 2 ^ 64"
      by (simp add: unat_word_ariths unat_of_nat mod_simps)
    with that assms(4) show ?thesis by simp
  qed
  from assms(3) obtain j where j: "j < ?n" "validators cfg ! j = v" by (auto simp: in_set_conv_nth)
  have "bij_betw (\<lambda>i. (unat start + i) mod ?n) {..<?n} {..<?n}"
    by (rule consecutive_mods) (use assms(1) in simp)
  then have "\<exists>!i. i \<in> {..<?n} \<and> (unat start + i) mod ?n = j"
    using j(1) by (intro bij_betw_ex1) auto
  moreover have "get_validator_for_block cfg (start + of_nat i) = Inr v
      \<longleftrightarrow> (unat start + i) mod ?n = j" if "i < ?n" for i
  proof -
    have "(unat start + i) mod ?n < ?n" using that by (intro mod_less_divisor) auto
    with j assms(1,2) show ?thesis
      by (simp add: get_validator_for_block_ok num [OF that] nth_eq_iff_index_eq flip: j(2))
  qed
  ultimately show ?thesis by (metis lessThan_iff)
qed

theorem round_robin_fair_witness:
  "\<exists>!i. i < 3 \<and> get_validator_for_block
      \<lparr>validators = [''V1'', ''V2'', ''V3''], node_to_validator = Map.empty,
       validator_to_address = Map.empty\<rparr> (7 + of_nat i) = Inr ''V2''"
  using round_robin_fair [of "\<lparr>validators = [''V1'', ''V2'', ''V3''], node_to_validator = Map.empty,
       validator_to_address = Map.empty\<rparr>" "''V2''" 7]
  by (simp add: numeral_3_eq_3)

text \<open>C23. Configuration loading. A node that starts has at least one validator, so no schedule
  lookup panics; a \<open>VALIDATORS\<close> variable that lists proper names (nonempty, without commas or
  surrounding whitespace) is read back as exactly that list; and each secret has at least 32 bytes, or its
  variable is not set and it is the content of the secret file that was there before: the length of a secret is
  checked when it comes from the environment, a new one has 32 bytes, but a file is taken as it is.\<close>

theorem from_env_sound:
  assumes "from_env ev uuid new_jwt new_session fs = (Inr cfg, fs')"
    and "length new_jwt = 32" and "length new_session = 32"
  shows "(\<forall>n. is_ok (get_validator_for_block (cfg_validator_config cfg) n))
       \<and> (32 \<le> length (cfg_jwt_secret cfg) \<or> ev ''JWT_SECRET'' = None
            \<and> files fs (DATA_DIRECTORY @ ''/jwt_secret'') = Some (cfg_jwt_secret cfg))
       \<and> (32 \<le> length (cfg_session_secret cfg) \<or> ev ''SESSION_SECRET'' = None
            \<and> files fs (DATA_DIRECTORY @ ''/session_secret'') = Some (cfg_session_secret cfg))
       \<and> (\<forall>names. names \<noteq> [] \<and> (\<forall>x\<in>set names. CHR '','' \<notin> set x \<and> x \<noteq> [] \<and> trimmed x)
            \<and> ev ''VALIDATORS'' = Some (join_commas names)
            \<longrightarrow> validators (cfg_validator_config cfg) = names)"
proof -
  from assms(1) obtain fs1 where
    jwt: "load_jwt_secret ev new_jwt fs = (Inr (cfg_jwt_secret cfg), fs1)"
    and session: "load_session_secret ev new_session fs1 = (Inr (cfg_session_secret cfg), fs')"
    and vc: "load_validator_config ev = Inr (cfg_validator_config cfg)"
    by (auto simp: from_env_def Let_def res_iff liftS_def)
  have secret: "(32 \<le> length s \<or> ev var = None \<and> files g path = Some s) \<and> (\<forall>p. p \<noteq> path \<longrightarrow> files g' p = files g p)"
    if "load_secret var weak path ev new g = (Inr s, g')" and "length new = 32" for var weak path new g s g'
    using that by (auto simp: load_secret_def split: option.splits if_splits)
  note 1 = secret [OF jwt [unfolded load_jwt_secret_def] assms(2)]
  note 2 = secret [OF session [unfolded load_session_secret_def] assms(3)]
  have 3: "is_ok (get_validator_for_block (cfg_validator_config cfg) n)" for n
    using load_validator_config_nonempty [OF vc] by (simp add: get_validator_for_block_ok)
  have 4: "validators (cfg_validator_config cfg) = names"
    if "names \<noteq> []" "\<forall>x\<in>set names. CHR '','' \<notin> set x \<and> x \<noteq> [] \<and> trimmed x"
      "ev ''VALIDATORS'' = Some (join_commas names)" for names
    using load_validator_config_names [OF vc] comma_list_join [OF that(1,2)] that(3)
    by (simp add: unwrap_or_def)
  from 1 2 have "files fs1 (DATA_DIRECTORY @ ''/session_secret'') = files fs (DATA_DIRECTORY @ ''/session_secret'')" by simp
  with 1 2 3 4 show ?thesis by auto
qed

theorem from_env_sound_witness:
  "let ev = [''VALIDATORS'' \<mapsto> join_commas [''V1'', ''V2'']];
       fs = \<lparr>files = Map.empty, io_error = Map.empty\<rparr>
   in \<exists>cfg fs'. from_env ev ''uuid'' (replicate 32 1) (replicate 32 2) fs = (Inr cfg, fs')
        \<and> validators (cfg_validator_config cfg) = [''V1'', ''V2'']
        \<and> 32 \<le> length (cfg_session_secret cfg)"
proof -
  let ?ev = "[''VALIDATORS'' \<mapsto> join_commas [''V1'', ''V2'']]"
  let ?fs = "\<lparr>files = Map.empty, io_error = Map.empty\<rparr>"
  have names: "\<forall>x\<in>set [''V1'', ''V2'']. CHR '','' \<notin> set x \<and> x \<noteq> [] \<and> trimmed x"
    by (simp add: trimmed_def lead_def whitespace_def)
  have port: "parse_unsigned 65535 ''9000'' = Some 9000"
    by (simp add: parse_unsigned_def is_ascii_digit_def digits_val_def digit_val_def)
  have "\<exists>cfg fs'. from_env ?ev ''uuid'' (replicate 32 1) (replicate 32 2) ?fs = (Inr cfg, fs')"
    using comma_list_join [OF _ names]
    by (simp add: from_env_def load_jwt_secret_def load_session_secret_def load_secret_def
        load_validator_config_def unwrap_or_def DEFAULT_P2P_PORT_def port bindS_def DATA_DIRECTORY_def
        del: join_commas.simps)
  then obtain cfg fs' where
    run: "from_env ?ev ''uuid'' (replicate 32 1) (replicate 32 2) ?fs = (Inr cfg, fs')" by blast
  have sound: "32 \<le> length (cfg_session_secret cfg)"
      "?ev ''VALIDATORS'' = Some (join_commas [''V1'', ''V2'']) \<Longrightarrow>
       validators (cfg_validator_config cfg) = [''V1'', ''V2'']"
    using from_env_sound [OF run] names by auto
  have "?ev ''VALIDATORS'' = Some (join_commas [''V1'', ''V2''])" by (rule map_upd_Some_unfold [THEN iffD2]) simp
  from run sound(1) sound(2) [OF this] show ?thesis unfolding Let_def by blast
qed

end
