(* ===== verification/Goud_Blockchain.thy ===== *)
theory Goud_Blockchain
  imports Goud_Block Goud_Config
begin

text \<open>
  The blockchain (\<open>src/domain/blockchain.rs\<close>): pending data, block creation by the scheduled
  validator, validation of a chain, chain replacement with its tie-breaking rules, and the lookups
  of accounts and collections. The clock reading of the \<open>i\<close>-th iteration of the validation loop is
  \<open>clk i\<close>; randomness is an argument.
\<close>

section \<open>State\<close>

record node_env = crypto_env +
  container_js :: container_codec
  account_js :: "(user_account, string) codec"
  value_js :: "(json, string) codec"

record blockchain =
  schema_version :: string
  chain :: "block list"
  node_id :: string
  checkpoints :: "string list"
  pending_accounts_with_keys :: "(user_account \<times> bytes) list"
  pending_collections :: "encrypted_collection list"
  node_signing_key :: "bytes option"
  validator_cfg :: validator_config

text \<open>The clock and the randomness of one block: time, jitter, salt, and the nonce of the envelope of
  each pending account by its position.\<close>

record block_seed =
  bs_now :: i64
  bs_jitter :: i64
  bs_salt :: bytes
  bs_nonce :: "nat \<Rightarrow> bytes"

section \<open>Operations\<close>

definition get_current_validator :: "string list \<Rightarrow> u64 \<Rightarrow> string res" where
  "get_current_validator vs block_number =
     (if vs = [] then panic else Inr (vs ! (unat block_number mod length vs)))"

definition is_authorized_validator :: "string \<Rightarrow> u64 \<Rightarrow> validator_config \<Rightarrow> bool res" where
  "is_authorized_validator nid block_number cfg = is_node_authorized cfg nid block_number"

definition blockchain_new ::
  "'z node_env_scheme \<Rightarrow> bytes \<Rightarrow> block_seed \<Rightarrow> string \<Rightarrow> validator_config \<Rightarrow> blockchain res" where
  "blockchain_new env signing_key seed nid cfg =
     bindE (get_current_validator (validators cfg) 0) (\<lambda>validator.
     bindE (block_new env (container_js env) (bs_now seed) (bs_jitter seed)
              \<lparr>bc_index = 0, bc_account_envelopes = [], bc_collection_envelopes = [],
               bc_previous_hash = GENESIS_PREVIOUS_HASH, bc_validator = validator,
               bc_blind_indexes = [], bc_block_salt = ''genesis_salt''\<rparr>) (\<lambda>genesis.
     Inr \<lparr>schema_version = SCHEMA_VERSION, chain = [genesis], node_id = nid, checkpoints = [],
          pending_accounts_with_keys = [], pending_collections = [],
          node_signing_key = Some signing_key, validator_cfg = cfg\<rparr>))"

definition get_latest_block :: "blockchain \<Rightarrow> block res" where
  "get_latest_block bc = (if chain bc = [] then Err EmptyBlockchain else Inr (last (chain bc)))"

definition add_account_with_key :: "user_account \<Rightarrow> bytes \<Rightarrow> (blockchain, fail, unit) act" where
  "add_account_with_key account api_key bc =
     (Inr (), bc\<lparr>pending_accounts_with_keys := pending_accounts_with_keys bc @ [(account, api_key)]\<rparr>)"

definition add_collection :: "encrypted_collection \<Rightarrow> (blockchain, fail, unit) act" where
  "add_collection collection bc =
     (Inr (), bc\<lparr>pending_collections := pending_collections bc @ [collection]\<rparr>)"

text \<open>The block that \<open>add_block\<close> builds before it changes the state.\<close>

definition make_block :: "'z node_env_scheme \<Rightarrow> block_seed \<Rightarrow> blockchain \<Rightarrow> block res" where
  "make_block env seed bc =
     (if pending_accounts_with_keys bc = [] \<and> pending_collections bc = [] then Err NoPendingData
      else
        bindE (get_latest_block bc) (\<lambda>previous_block.
        let block_number = b_index previous_block + 1
        in bindE (get_current_validator (validators (validator_cfg bc)) block_number) (\<lambda>validator.
           bindE (is_authorized_validator (node_id bc) block_number (validator_cfg bc)) (\<lambda>authorized.
           if \<not> authorized then Err (NotAuthorizedValidator (node_id bc) validator block_number)
           else
             let block_salt = generate_block_salt env (bs_salt seed)
             in bindE (traverse (\<lambda>(i, account, api_key).
                          encrypt_account_envelope env (account_js env) (bs_nonce seed i) account
                            api_key block_salt)
                        (enumerate 0 (pending_accounts_with_keys bc))) (\<lambda>envelopes.
                block_new env (container_js env) (bs_now seed) (bs_jitter seed)
                  \<lparr>bc_index = block_number, bc_account_envelopes = envelopes,
                   bc_collection_envelopes =
                     map (\<lambda>c. \<lparr>env_collection = c\<rparr>) (pending_collections bc),
                   bc_previous_hash = b_hash previous_block, bc_validator = validator,
                   bc_blind_indexes = [], bc_block_salt = block_salt\<rparr>)))))"

definition add_block :: "'z node_env_scheme \<Rightarrow> block_seed \<Rightarrow> (blockchain, fail, block) act" where
  "add_block env seed bc =
     (case make_block env seed bc of
        Inl e \<Rightarrow> (Inl e, bc)
      | Inr new_block \<Rightarrow>
          (Inr new_block,
           bc\<lparr>chain := chain bc @ [new_block], pending_accounts_with_keys := [],
              pending_collections := [],
              checkpoints := checkpoints bc
                @ (if b_index new_block mod CHECKPOINT_INTERVAL = 0 then [b_hash new_block] else [])\<rparr>))"

text \<open>One iteration of the validation loop, and the loop from block \<open>i\<close> on.\<close>

definition check_block ::
  "'z node_env_scheme \<Rightarrow> string list \<Rightarrow> i64 \<Rightarrow> nat \<Rightarrow> block \<Rightarrow> block \<Rightarrow> unit res" where
  "check_block env vs now i previous current =
     (if b_hash current \<noteq> calculate_hash env current then Err (InvalidBlockHash (of_nat i))
      else if b_previous_hash current \<noteq> b_hash previous then Err (BrokenChain (of_nat i))
      else if b_timestamp current > now + TIMESTAMP_TOLERANCE_SECONDS
        then Err (FutureTimestamp (b_timestamp current))
      else if b_timestamp current < b_timestamp previous then Err (InvalidTimestamp (of_nat i))
      else if b_merkle_root current
           \<noteq> calculate_merkle_root env (b_encrypted_block_data current) (b_blind_indexes current)
        then Err (InvalidMerkleRoot (of_nat i))
      else
        bindE (verify_data env (container_js env) current) (\<lambda>_.
        bindE (get_current_validator vs (b_index current)) (\<lambda>expected_validator.
        if b_validator current \<noteq> expected_validator
        then Err (InvalidValidator (of_nat i) expected_validator (b_validator current))
        else Inr ())))"

fun valid_from ::
  "'z node_env_scheme \<Rightarrow> string list \<Rightarrow> (nat \<Rightarrow> i64) \<Rightarrow> nat \<Rightarrow> block \<Rightarrow> block list \<Rightarrow> unit res" where
  "valid_from env vs clk i previous [] = Inr ()"
| "valid_from env vs clk i previous (current # rest) =
     bindE (check_block env vs (clk i) i previous current) (\<lambda>_.
     valid_from env vs clk (Suc i) current rest)"

definition is_valid :: "'z node_env_scheme \<Rightarrow> (nat \<Rightarrow> i64) \<Rightarrow> blockchain \<Rightarrow> unit res" where
  "is_valid env clk bc =
     (case chain bc of
        [] \<Rightarrow> Inr ()
      | genesis # rest \<Rightarrow> valid_from env (validators (validator_cfg bc)) clk 1 genesis rest)"

definition checkpoint_blocks :: "blockchain \<Rightarrow> block list \<Rightarrow> bool" where
  "checkpoint_blocks bc new_chain \<longleftrightarrow>
     checkpoints bc \<noteq> []
     \<and> (case find (\<lambda>b. b_hash b = last (checkpoints bc)) (chain bc) of
          Some checkpoint_block \<Rightarrow> length new_chain \<le> unat (b_index checkpoint_block)
        | None \<Rightarrow> False)"

text \<open>Chain selection. Strings compare byte by byte.\<close>

definition should_replace :: "blockchain \<Rightarrow> block list \<Rightarrow> bool res" where
  "should_replace bc new_chain =
     (if length new_chain > length (chain bc) then Inr True
      else if length new_chain = length (chain bc) \<and> length new_chain > 1 then
        (if list_all (\<lambda>(a, b). b_hash a = b_hash b) (zip (chain bc) new_chain) then Inr False
         else
           let our_last = last (chain bc); their_last = last new_chain
           in bindE (get_current_validator (validators (validator_cfg bc)) (b_index our_last))
                (\<lambda>expected_validator.
              let our_is_valid = (b_validator our_last = expected_validator);
                  their_is_valid = (b_validator their_last = expected_validator)
              in Inr (if their_is_valid \<and> \<not> our_is_valid then True
                      else if our_is_valid \<and> \<not> their_is_valid then False
                      else b_hash their_last < b_hash our_last)))
      else Inr False)"

definition replace_chain ::
  "'z node_env_scheme \<Rightarrow> (nat \<Rightarrow> i64) \<Rightarrow> block list \<Rightarrow> (blockchain, fail, bool) act" where
  "replace_chain env clk new_chain bc =
     (if checkpoint_blocks bc new_chain then (Inr False, bc)
      else
        let temp_blockchain = bc\<lparr>chain := new_chain, pending_accounts_with_keys := [],
              pending_collections := [], node_signing_key := None\<rparr>
        in case should_replace bc new_chain of
             Inl e \<Rightarrow> (Inl e, bc)
           | Inr False \<Rightarrow> (Inr False, bc)
           | Inr True \<Rightarrow>
               (case is_valid env clk temp_blockchain of
                  Inl e \<Rightarrow> (Inl e, bc)
                | Inr _ \<Rightarrow> (Inr True, bc\<lparr>chain := new_chain\<rparr>)))"

definition should_search_block :: "'z node_env_scheme \<Rightarrow> string \<Rightarrow> block \<Rightarrow> bool" where
  "should_search_block env api_key_hash b =
     (if b_blind_indexes b = [] then True
      else (case generate_account_blind_index_with_salt env api_key_hash (b_block_salt b) of
              Inr idx \<Rightarrow> idx \<in> set (b_blind_indexes b)
            | Inl _ \<Rightarrow> False))"

fun find_account_in ::
  "'z node_env_scheme \<Rightarrow> bytes \<Rightarrow> string \<Rightarrow> block list \<Rightarrow> user_account option" where
  "find_account_in env api_key api_key_hash [] = None"
| "find_account_in env api_key api_key_hash (b # bs) =
     (if should_search_block env api_key_hash b then
        (case get_account env (container_js env) (account_js env) b api_key of
           Inr (Some account) \<Rightarrow> Some account
         | _ \<Rightarrow> find_account_in env api_key api_key_hash bs)
      else find_account_in env api_key api_key_hash bs)"

definition find_account_with_hash ::
  "'z node_env_scheme \<Rightarrow> blockchain \<Rightarrow> bytes \<Rightarrow> string option \<Rightarrow> user_account option" where
  "find_account_with_hash env bc api_key api_key_hash =
     find_account_in env api_key
       (case api_key_hash of Some h \<Rightarrow> h | None \<Rightarrow> hash_api_key_hex env api_key) (chain bc)"

definition find_account :: "'z node_env_scheme \<Rightarrow> blockchain \<Rightarrow> bytes \<Rightarrow> user_account option" where
  "find_account env bc api_key = find_account_with_hash env bc api_key None"

fun find_collection_in ::
  "'z node_env_scheme \<Rightarrow> string \<Rightarrow> bytes \<Rightarrow> block list \<Rightarrow> encrypted_collection option" where
  "find_collection_in env cid api_key [] = None"
| "find_collection_in env cid api_key (b # bs) =
     (case get_collections_by_owner env (container_js env) b api_key of
        Inr collections \<Rightarrow>
          (case find (\<lambda>c. collection_id c = cid \<and> owner_api_key_hash c = hash_api_key_hex env api_key)
                  collections of
             Some c \<Rightarrow> Some c
           | None \<Rightarrow> find_collection_in env cid api_key bs)
      | Inl _ \<Rightarrow> find_collection_in env cid api_key bs)"

definition find_collection ::
  "'z node_env_scheme \<Rightarrow> blockchain \<Rightarrow> string \<Rightarrow> bytes \<Rightarrow> encrypted_collection option" where
  "find_collection env bc cid api_key = find_collection_in env cid api_key (chain bc)"

definition find_collections_by_owner ::
  "'z node_env_scheme \<Rightarrow> blockchain \<Rightarrow> bytes \<Rightarrow> encrypted_collection list" where
  "find_collections_by_owner env bc api_key =
     concat (map (\<lambda>b.
       if should_search_block env (hash_api_key_hex env api_key) b
       then (case get_collections_by_owner env (container_js env) b api_key of
               Inr collections \<Rightarrow> collections
             | Inl _ \<Rightarrow> [])
       else []) (chain bc))"

section \<open>What a valid chain is\<close>

text \<open>The part of validity that does not depend on the clock: each block's hash and Merkle root are
  those of its content, it points to its predecessor, its collections are signed, and it
  names the validator that the schedule has for its index.\<close>

definition block_links :: "'z node_env_scheme \<Rightarrow> string list \<Rightarrow> block \<Rightarrow> block \<Rightarrow> bool" where
  "block_links env vs p b \<longleftrightarrow>
     b_hash b = calculate_hash env b \<and> b_previous_hash b = b_hash p
     \<and> b_merkle_root b = calculate_merkle_root env (b_encrypted_block_data b) (b_blind_indexes b)
     \<and> verify_data env (container_js env) b = Inr ()
     \<and> get_current_validator vs (b_index b) = Inr (b_validator b)"

definition linked_chain :: "'z node_env_scheme \<Rightarrow> string list \<Rightarrow> block list \<Rightarrow> bool" where
  "linked_chain env vs bs \<longleftrightarrow> successively (block_links env vs) bs"

definition times_ordered :: "block list \<Rightarrow> bool" where
  "times_ordered bs \<longleftrightarrow> successively (\<lambda>p b. b_timestamp p \<le> b_timestamp b) bs"

lemma check_block_iff [res_iff]:
  "check_block env vs now i p b = Inr u \<longleftrightarrow>
     block_links env vs p b \<and> b_timestamp p \<le> b_timestamp b \<and> b_timestamp b \<le> now + 14400"
  by (auto simp: check_block_def block_links_def res_iff not_less)

lemma valid_from_iff:
  "valid_from env vs clk i p bs = Inr u \<longleftrightarrow>
     linked_chain env vs (p # bs) \<and> times_ordered (p # bs)
     \<and> (\<forall>j<length bs. b_timestamp (bs ! j) \<le> clk (i + j) + 14400)"
proof (induction bs arbitrary: i p)
  case (Cons b bs)
  have "(\<forall>j<length (b # bs). b_timestamp ((b # bs) ! j) \<le> clk (i + j) + 14400) \<longleftrightarrow>
      b_timestamp b \<le> clk i + 14400 \<and> (\<forall>j<length bs. b_timestamp (bs ! j) \<le> clk (Suc i + j) + 14400)"
    by (auto simp: All_less_Suc2)
  with Cons show ?case by (auto simp: res_iff linked_chain_def times_ordered_def)
qed (simp add: linked_chain_def times_ordered_def)

lemma is_valid_iff [res_iff]:
  "is_valid env clk bc = Inr u \<longleftrightarrow>
     linked_chain env (validators (validator_cfg bc)) (chain bc) \<and> times_ordered (chain bc)
     \<and> (\<forall>i. 0 < i \<and> i < length (chain bc) \<longrightarrow> b_timestamp (chain bc ! i) \<le> clk i + 14400)"
proof (cases "chain bc")
  case Nil
  then show ?thesis by (simp add: is_valid_def linked_chain_def times_ordered_def)
next
  case (Cons g bs)
  have "(\<forall>i. 0 < i \<and> i < length (g # bs) \<longrightarrow> b_timestamp ((g # bs) ! i) \<le> clk i + 14400) \<longleftrightarrow>
      (\<forall>j<length bs. b_timestamp (bs ! j) \<le> clk (1 + j) + 14400)"
    by (auto simp: nth_Cons' gr0_conv_Suc)
  with Cons show ?thesis by (simp add: is_valid_def valid_from_iff)
qed

lemma bindE_Inr: "bindE m Inr = m"
  by (cases m) auto

lemma valid_from_append:
  "valid_from env vs clk i p (bs @ cs) =
     bindE (valid_from env vs clk i p bs) (\<lambda>_.
       valid_from env vs clk (i + length bs) (last (p # bs)) cs)"
  by (induction bs arbitrary: i p) (auto simp: bindE_assoc)

lemma is_valid_snoc:
  assumes "is_valid env clk (bc\<lparr>chain := bs\<rparr>) = Inr ()" and "bs \<noteq> []"
  shows "is_valid env clk (bc\<lparr>chain := bs @ [b]\<rparr>) =
    check_block env (validators (validator_cfg bc)) (clk (length bs)) (length bs) (last bs) b"
proof -
  from assms(2) obtain g rest where bs: "bs = g # rest" by (cases bs) auto
  with assms(1) have "valid_from env (validators (validator_cfg bc)) clk 1 g rest = Inr ()"
    by (simp add: is_valid_def)
  with bs show ?thesis by (simp add: is_valid_def valid_from_append bindE_Inr)
qed

section \<open>Lemmas on block creation\<close>

lemma validator_lookups: "get_current_validator (validators cfg) n = get_validator_for_block cfg n"
  by (simp add: get_current_validator_def get_validator_for_block_def)

lemma make_block_cases:
  assumes "make_block env seed bc = Inr b"
  obtains envelopes where "chain bc \<noteq> []"
    and "pending_accounts_with_keys bc \<noteq> [] \<or> pending_collections bc \<noteq> []"
    and "get_current_validator (validators (validator_cfg bc)) (b_index b) = Inr (b_validator b)"
    and "is_node_authorized (validator_cfg bc) (node_id bc) (b_index b) = Inr True"
    and "b_index b = b_index (last (chain bc)) + 1"
    and "b_previous_hash b = b_hash (last (chain bc))"
    and "traverse (\<lambda>(i, account, api_key).
           encrypt_account_envelope env (account_js env) (bs_nonce seed i) account
             api_key (b_block_salt b)) (enumerate 0 (pending_accounts_with_keys bc)) = Inr envelopes"
    and "block_new env (container_js env) (bs_now seed) (bs_jitter seed)
           \<lparr>bc_index = b_index b, bc_account_envelopes = envelopes,
            bc_collection_envelopes = map (\<lambda>c. \<lparr>env_collection = c\<rparr>) (pending_collections bc),
            bc_previous_hash = b_hash (last (chain bc)), bc_validator = b_validator b,
            bc_blind_indexes = [], bc_block_salt = b_block_salt b\<rparr> = Inr b"
proof -
  from assms obtain v envelopes where
    basic: "chain bc \<noteq> []" "pending_accounts_with_keys bc \<noteq> [] \<or> pending_collections bc \<noteq> []"
    and v: "get_current_validator (validators (validator_cfg bc)) (b_index (last (chain bc)) + 1) = Inr v"
    and auth: "is_node_authorized (validator_cfg bc) (node_id bc) (b_index (last (chain bc)) + 1) = Inr True"
    and envs: "traverse (\<lambda>(i, account, api_key).
           encrypt_account_envelope env (account_js env) (bs_nonce seed i) account
             api_key (generate_block_salt env (bs_salt seed)))
           (enumerate 0 (pending_accounts_with_keys bc)) = Inr envelopes"
    and new: "block_new env (container_js env) (bs_now seed) (bs_jitter seed)
           \<lparr>bc_index = b_index (last (chain bc)) + 1, bc_account_envelopes = envelopes,
            bc_collection_envelopes = map (\<lambda>c. \<lparr>env_collection = c\<rparr>) (pending_collections bc),
            bc_previous_hash = b_hash (last (chain bc)), bc_validator = v,
            bc_blind_indexes = [], bc_block_salt = generate_block_salt env (bs_salt seed)\<rparr> = Inr b"
    unfolding make_block_def get_latest_block_def is_authorized_validator_def Let_def
    by (simp only: bindE_Inr_iff split: if_splits) (auto simp: traverse_Inr_iff)
  note f = block_new_fields(1-4) [OF new, simplified]
  show thesis
    by (rule that [of envelopes]) (use basic v auth envs new f in simp_all)
qed

lemma add_block_cases:
  "add_block env seed bc = (Inr b, bc') \<longleftrightarrow>
     make_block env seed bc = Inr b
     \<and> bc' = bc\<lparr>chain := chain bc @ [b], pending_accounts_with_keys := [], pending_collections := [],
          checkpoints := checkpoints bc
            @ (if b_index b mod 100 = 0 then [b_hash b] else [])\<rparr>"
  unfolding add_block_def CHECKPOINT_INTERVAL_def
  by (cases "make_block env seed bc"; simp only: sum.case prod.inject sum.inject sum.distinct) blast+

lemma add_block_failure: "add_block env seed bc = (Inl e, bc') \<Longrightarrow> bc' = bc"
  by (auto simp: add_block_def split: sum.splits)

lemma make_block_container:
  assumes "b64_ok env" and "text_codec_ok (container_js env)" and "make_block env seed bc = Inr b"
  obtains envelopes where
    "get_envelope_container env (container_js env) b =
       Inr \<lparr>account_envelopes = envelopes,
            collection_envelopes = map (\<lambda>c. \<lparr>env_collection = c\<rparr>) (pending_collections bc),
            container_validator = b_validator b\<rparr>"
    and "list_all2 (\<lambda>(i, account, api_key) e.
           encrypt_account_envelope env (account_js env) (bs_nonce seed i) account api_key
             (b_block_salt b) = Inr e) (enumerate 0 (pending_accounts_with_keys bc)) envelopes"
  using assms(3)
proof (cases rule: make_block_cases)
  case (1 envelopes)
  from block_new_container [OF assms(1,2) 1(8)] 1(7) show thesis
    by (intro that [of envelopes]) (simp_all add: traverse_Inr_iff case_prod_unfold)
qed

lemma make_block_links:
  assumes "b64_ok env" and "text_codec_ok (container_js env)" and "make_block env seed bc = Inr b"
    and "\<forall>c\<in>set (pending_collections bc). verify_collection env c None = Inr ()"
  shows "block_links env (validators (validator_cfg bc)) (last (chain bc)) b"
proof -
  obtain envelopes where
    cont: "get_envelope_container env (container_js env) b =
       Inr \<lparr>account_envelopes = envelopes,
            collection_envelopes = map (\<lambda>c. \<lparr>env_collection = c\<rparr>) (pending_collections bc),
            container_validator = b_validator b\<rparr>"
    by (rule make_block_container [OF assms(1-3)])
  from assms(3) show ?thesis
    by (cases rule: make_block_cases)
      (use assms(4) cont in \<open>auto simp: block_links_def verify_data_iff dest: block_new_fields(7,8)\<close>)
qed

lemma make_block_timestamp:
  assumes "make_block env seed bc = Inr b"
  shows "b_timestamp b =
    (if b_index b = 0 then GENESIS_TIMESTAMP else obfuscate_timestamp (bs_jitter seed) (bs_now seed))"
    and "b_blind_indexes b = []"
proof -
  from assms obtain cfg where
    new: "block_new env (container_js env) (bs_now seed) (bs_jitter seed) cfg = Inr b"
    and "bc_index cfg = b_index b" and "bc_blind_indexes cfg = []"
    by (cases rule: make_block_cases) (metis block_config.select_convs(1,6))
  then show "b_timestamp b =
    (if b_index b = 0 then GENESIS_TIMESTAMP else obfuscate_timestamp (bs_jitter seed) (bs_now seed))"
    and "b_blind_indexes b = []"
    using block_new_fields(5,6) [OF new] by auto
qed

end
