(* ===== verification/Goud_Demo_Chain.thy ===== *)
theory Goud_Demo_Chain
  imports Goud_Blockchain
begin

text \<open>
  A small concrete node for the witnesses: the instances of \<open>Goud_Demo\<close>, one validator, one node, and
  serializers that know a given list of containers and accounts.
\<close>

definition demo_node :: "block_envelope_container list \<Rightarrow> user_account list \<Rightarrow> json list \<Rightarrow> node_env" where
  "demo_node cs as js = crypto_env.extend demo_env
     (node_env.fields (str_codec (table_codec cs)) (str_codec (table_codec as)) (str_codec (table_codec js)))"

lemma demo_node_simps [simp]:
  "blake3_hex (demo_node cs as js) = blake3_hex demo_env" "sha256 (demo_node cs as js) = sha256 demo_env"
  "hmac_lib (demo_node cs as js) = hmac_lib demo_env" "ct_eq (demo_node cs as js) = ct_eq demo_env"
  "aes_encrypt (demo_node cs as js) = aes_encrypt demo_env"
  "aes_decrypt (demo_node cs as js) = aes_decrypt demo_env"
  "ed_public (demo_node cs as js) = ed_public demo_env" "ed_sign (demo_node cs as js) = ed_sign demo_env"
  "ed_valid_key (demo_node cs as js) = ed_valid_key demo_env"
  "ed_verify (demo_node cs as js) = ed_verify demo_env"
  "hex_encode (demo_node cs as js) = hex_encode demo_env" "hex_decode (demo_node cs as js) = hex_decode demo_env"
  "b64_encode (demo_node cs as js) = b64_encode demo_env" "b64_decode (demo_node cs as js) = b64_decode demo_env"
  "container_js (demo_node cs as js) = str_codec (table_codec cs)"
  "account_js (demo_node cs as js) = str_codec (table_codec as)"
  "value_js (demo_node cs as js) = str_codec (table_codec js)"
  by (simp_all add: demo_node_def crypto_env.extend_def node_env.fields_def)

lemma demo_node_ok:
  "hex_ok (demo_node cs as js)" "b64_ok (demo_node cs as js)" "aead_ok (demo_node cs as js)"
  "ed_ok (demo_node cs as js)" "ct_ok (demo_node cs as js)" "blake3_ok (demo_node cs as js)"
  "text_codec_ok (container_js (demo_node cs as js))" "text_codec_ok (account_js (demo_node cs as js))"
  "text_codec_ok (value_js (demo_node cs as js))"
  using demo_env_ok(1-6)
  unfolding hex_ok_def b64_ok_def aead_ok_def ed_ok_def ct_ok_def blake3_ok_def demo_node_simps
  by - (assumption | rule str_table_codec_ok)+

text \<open>The operations read only the cryptographic fields of their environment.\<close>

lemma hkdf_cong:
  "sha256 env = sha256 env' \<Longrightarrow>
   hkdf_with_iterations env ikm salt info n = hkdf_with_iterations env' ikm salt info n"
proof (induction n arbitrary: ikm)
  case (Suc n)
  then have "sha256_bytes env = sha256_bytes env'" by (simp add: sha256_bytes_def fun_eq_iff)
  with Suc show ?case by (simp add: hkdf_expand_32 hkdf_extract_def)
qed simp

lemma demo_node_keys:
  "derive_encryption_key (demo_node cs as js) = derive_encryption_key demo_env"
  "derive_mac_key (demo_node cs as js) = derive_mac_key demo_env"
  "hash_api_key_hex (demo_node cs as js) = hash_api_key_hex demo_env"
  by (simp_all add: derive_encryption_key_def derive_mac_key_def hash_api_key_hex_def hash_api_key_def
      fun_eq_iff hkdf_cong [of "demo_node cs as js" demo_env])

lemma demo_node_verify:
  "verify_collection (demo_node cs as js) c None = verify_collection demo_env c None"
  by (simp add: verify_collection_def verify_signature_def cong: if_cong)

lemma demo_node_envelope:
  "encrypt_account_envelope (demo_node cs as js) acc_js n account api_key salt
     = encrypt_account_envelope demo_env acc_js n account api_key salt"
  by (simp add: encrypt_account_envelope_def derive_envelope_key_def demo_node_keys
      encrypt_data_with_key_def encrypt_data_with_nonce_def)

definition demo_config :: validator_config where
  "demo_config = \<lparr>validators = [''V''], node_to_validator = [''n'' \<mapsto> ''V''],
     validator_to_address = [''V'' \<mapsto> ''n:8080'']\<rparr>"

definition demo_genesis :: "i64 \<Rightarrow> block" where
  "demo_genesis t = \<lparr>b_index = 0, b_timestamp = t, b_encrypted_block_data = ''d'', b_blind_indexes = [],
     b_block_salt = ''s'', b_validator = ''V'', b_previous_hash = ''0'', b_merkle_root = ''m'',
     b_hash = replicate 64 CHR ''0''\<rparr>"

definition demo_bc :: "i64 \<Rightarrow> (user_account \<times> bytes) list \<Rightarrow> encrypted_collection list \<Rightarrow> blockchain" where
  "demo_bc t accounts collections = \<lparr>schema_version = SCHEMA_VERSION, chain = [demo_genesis t],
     node_id = ''n'', checkpoints = [], pending_accounts_with_keys = accounts,
     pending_collections = collections, node_signing_key = None, validator_cfg = demo_config\<rparr>"

definition demo_seed :: "i64 \<Rightarrow> i64 \<Rightarrow> block_seed" where
  "demo_seed now jitter = \<lparr>bs_now = now, bs_jitter = jitter, bs_salt = [1], bs_nonce = (\<lambda>_. replicate 12 1)\<rparr>"

definition demo_container :: "account_envelope list \<Rightarrow> encrypted_collection list \<Rightarrow> block_envelope_container" where
  "demo_container es cs = \<lparr>account_envelopes = es,
     collection_envelopes = map (\<lambda>c. \<lparr>env_collection = c\<rparr>) cs, container_validator = ''V''\<rparr>"

lemma demo_seed_simps [simp]:
  "bs_now (demo_seed t j) = t" "bs_jitter (demo_seed t j) = j" "bs_nonce (demo_seed t j) i = replicate 12 1"
  by (simp_all add: demo_seed_def)

lemma demo_bc_simps [simp]:
  "chain (demo_bc t acs cols) = [demo_genesis t]" "pending_accounts_with_keys (demo_bc t acs cols) = acs"
  "pending_collections (demo_bc t acs cols) = cols" "validator_cfg (demo_bc t acs cols) = demo_config"
  "node_id (demo_bc t acs cols) = ''n''"
  by (simp_all add: demo_bc_def)

lemma demo_config_simps [simp]:
  "validators demo_config = [''V'']" "get_current_validator [''V''] i = Inr ''V''"
  "is_node_authorized demo_config ''n'' i = Inr True"
  by (simp_all add: demo_config_def get_current_validator_def is_node_authorized_def
      get_validator_for_block_def)

lemma demo_genesis_simps [simp]: "b_index (demo_genesis t) = 0" "b_timestamp (demo_genesis t) = t"
  by (simp_all add: demo_genesis_def)

text \<open>The demo node makes a block when its serializer knows the container.\<close>

lemma demo_make_block:
  assumes "acs \<noteq> [] \<or> cols \<noteq> []"
    and "traverse (\<lambda>(i, account, api_key). encrypt_account_envelope demo_env (str_codec (table_codec as))
           (replicate 12 1) account api_key (hex_encode demo_env [1])) (enumerate 0 acs) = Inr es"
    and "demo_container es cols \<in> set cs"
  shows "\<exists>b. make_block (demo_node cs as js) (demo_seed now jitter) (demo_bc t acs cols) = Inr b"
proof -
  have "\<exists>s. enc (str_codec (table_codec cs)) (demo_container es cols) = Inr s"
    using assms(3) by (simp add: str_codec_def table_codec_def)
  then show ?thesis
    using assms(1,2)
    by (auto simp: make_block_def get_latest_block_def is_authorized_validator_def Let_def
        demo_node_envelope generate_block_salt_def demo_seed_def block_new_def demo_container_def)
qed

text \<open>A signed collection of the demo node.\<close>

definition demo_col :: "string \<Rightarrow> encrypted_collection" where
  "demo_col owner =
     \<lparr>collection_id = ''id'', owner_api_key_hash = owner, encrypted_metadata = ''m'',
      encrypted_payload = ''p'', col_mac = ''x'', col_nonce = ''n'',
      col_signature = sign_message demo_env (as_bytes (''id'' @ owner @ ''mpxs'')) [2],
      col_public_key = get_public_key_hex demo_env [2], user_salt = ''s''\<rparr>"

lemma demo_col_signed [simp]: "verify_collection (demo_node cs as js) (demo_col owner) None = Inr ()"
  unfolding demo_node_verify
  using verify_sign_message [OF demo_env_ok(1,4), of "as_bytes (''id'' @ owner @ ''mpxs'')" "[2]"]
  by (simp add: verify_collection_def demo_col_def signature_message_def)

text \<open>The additive hash of short byte strings, evaluated.\<close>

lemma sum_hash_nat:
  assumes "length bs \<le> 1000"
  shows "unat (sum_hash bs) = 7 + sum_list (map (\<lambda>b. unat b + 1) bs)"
proof -
  have fold: "foldl (\<lambda>a b. a + unat b + 1) x bs = x + sum_list (map (\<lambda>b. unat b + 1) bs)" for x
    by (induction bs arbitrary: x) auto
  have byte: "unat b + 1 \<le> 256" for b :: u8 using unsigned_less [of b, where ?'a = nat] by simp
  have "sum_list (map (\<lambda>b. unat b + 1) bs) \<le> sum_list (map (\<lambda>_. 256) bs)"
    by (rule sum_list_mono) (rule byte)
  also have "\<dots> \<le> 256000" using assms by (simp add: sum_list_triv)
  finally show ?thesis unfolding sum_hash_def fold unat_of_nat by simp
qed

lemma demo_hash_inject:
  "length s \<le> 1000 \<Longrightarrow> length t \<le> 1000 \<Longrightarrow>
   hash_string (demo_node cs as js) s = hash_string (demo_node cs as js) t \<longleftrightarrow>
   sum_list (map (\<lambda>b. unat b + 1) (as_bytes s)) = sum_list (map (\<lambda>b. unat b + 1) (as_bytes t))"
proof -
  assume l: "length s \<le> 1000" "length t \<le> 1000"
  have "demo_hex_encode a = demo_hex_encode b \<longleftrightarrow> a = b" for a b
    by (metis demo_hex_roundtrip sum.inject(2))
  then have "hash_string (demo_node cs as js) s = hash_string (demo_node cs as js) t \<longleftrightarrow>
      unat (sum_hash (as_bytes s)) = unat (sum_hash (as_bytes t))"
    by (simp add: hash_string_def demo_env_def digest_bytes_inject word_unat_eq_iff)
  then show ?thesis using l by (simp add: sum_hash_nat)
qed

text \<open>The block that the demo node makes of pending collections.\<close>

definition demo_block :: "node_env \<Rightarrow> i64 \<Rightarrow> string \<Rightarrow> block" where
  "demo_block env t data =
     (let b = \<lparr>b_index = 1, b_timestamp = t, b_encrypted_block_data = data, b_blind_indexes = [],
               b_block_salt = hex_encode demo_env [1], b_validator = ''V'',
               b_previous_hash = replicate 64 CHR ''0'',
               b_merkle_root = calculate_merkle_root env data [], b_hash = []\<rparr>
      in b\<lparr>b_hash := calculate_hash env b\<rparr>)"

lemma demo_make_block_eq:
  assumes "enc (str_codec (table_codec cs)) (demo_container [] cols) = Inr s" and "cols \<noteq> []"
  shows "make_block (demo_node cs as js) (demo_seed now jitter) (demo_bc t [] cols)
    = Inr (demo_block (demo_node cs as js) (obfuscate_timestamp jitter now) s)"
proof -
  have "b64_encode demo_env (as_bytes s) = s" by (simp add: demo_env_def)
  with assms show ?thesis
    by (simp add: make_block_def get_latest_block_def is_authorized_validator_def Let_def
        generate_block_salt_def demo_seed_def block_new_def demo_container_def demo_block_def
        demo_genesis_def)
qed

lemma demo_block_simps [simp]:
  "b_index (demo_block env t d) = 1" "b_timestamp (demo_block env t d) = t"
  "b_encrypted_block_data (demo_block env t d) = d" "b_blind_indexes (demo_block env t d) = []"
  "b_validator (demo_block env t d) = ''V''"
  by (simp_all add: demo_block_def Let_def)

lemma demo_block_hash: "b_hash (demo_block env t d) = hash_string env
    (''1'' @ show_int t @ calculate_merkle_root env d [] @ replicate 64 CHR ''0'' @ ''V'')"
  by (simp add: demo_block_def Let_def calculate_hash_def hash_content_def show_u64_def show_nat.simps)

end
