(* ===== verification/Goud_Chain_Laws.thy ===== *)
theory Goud_Chain_Laws
  imports Goud_Demo_Chain
begin

text \<open>
  What the blockchain of \<open>Goud_Blockchain\<close> promises: what a successful or failing block creation and
  chain replacement leave behind, when a chain stays valid, how two nodes settle a fork, how far
  hashes and Merkle roots pin a chain down, and that lookups find what was stored.
\<close>

section \<open>Helper lemmas\<close>

lemma obfuscate_bounds:
  assumes "0 \<le> now" and "\<bar>jitter\<bar> \<le> 14400"
  shows "obfuscate_timestamp jitter now \<le> now + 14400"
    and "now - 86399 - 14400 \<le> obfuscate_timestamp jitter now"
proof -
  have "0 \<le> now smod 86400" "now smod 86400 < 86400"
    using assms(1) smod_int_compares(1,2) [of now 86400] by auto
  with assms(2) show "obfuscate_timestamp jitter now \<le> now + 14400"
    and "now - 86399 - 14400 \<le> obfuscate_timestamp jitter now"
    by (auto simp: obfuscate_timestamp_def)
qed

lemma is_valid_chain_only:
  "is_valid env clk (bc\<lparr>checkpoints := x, pending_accounts_with_keys := y, pending_collections := z\<rparr>)
     = is_valid env clk bc"
  "is_valid env clk (bc\<lparr>chain := c, pending_accounts_with_keys := y, pending_collections := z,
      node_signing_key := k\<rparr>) = is_valid env clk (bc\<lparr>chain := c\<rparr>)"
  "is_valid env clk (bc\<lparr>chain := c, pending_accounts_with_keys := y, pending_collections := z,
      checkpoints := x\<rparr>) = is_valid env clk (bc\<lparr>chain := c\<rparr>)"
  by (simp_all add: is_valid_def split: list.splits)

lemma successively_nth:
  "successively P xs \<longleftrightarrow> (\<forall>i. Suc i < length xs \<longrightarrow> P (xs ! i) (xs ! Suc i))"
proof (induction P xs rule: successively.induct)
  case (3 P x y xs)
  then show ?case by (simp add: All_less_Suc2)
qed auto

lemma add_block_validity:
  assumes "b64_ok env" and "text_codec_ok (container_js env)"
    and "\<forall>c\<in>set (pending_collections bc). verify_collection env c None = Inr ()"
    and "is_valid env clk bc = Inr ()" and add: "add_block env seed bc = (Inr b, bc')"
    and "b_index (last (chain bc)) + 1 \<noteq> 0" and "0 \<le> bs_now seed" and "\<bar>bs_jitter seed\<bar> \<le> 14400"
    and "bs_now seed \<le> clk (length (chain bc))"
  shows "is_valid env clk bc' =
    (if b_timestamp b < b_timestamp (last (chain bc))
     then Err (InvalidTimestamp (of_nat (length (chain bc)))) else Inr ())"
proof -
  from add have make: "make_block env seed bc = Inr b"
    and bc': "is_valid env clk bc' = is_valid env clk (bc\<lparr>chain := chain bc @ [b]\<rparr>)"
    by (auto simp: add_block_cases is_valid_chain_only)
  have links: "block_links env (validators (validator_cfg bc)) (last (chain bc)) b"
    by (rule make_block_links [OF assms(1,2) make assms(3)])
  from make have ne: "chain bc \<noteq> []" and "b_index b = b_index (last (chain bc)) + 1"
    by (auto elim: make_block_cases)
  with assms(6) have "b_timestamp b = obfuscate_timestamp (bs_jitter seed) (bs_now seed)"
    using make_block_timestamp [OF make] by simp
  with obfuscate_bounds(1) [OF assms(7,8)] assms(9)
  have "b_timestamp b \<le> clk (length (chain bc)) + 14400" by simp
  with links have "check_block env (validators (validator_cfg bc)) (clk (length (chain bc)))
      (length (chain bc)) (last (chain bc)) b =
    (if b_timestamp b < b_timestamp (last (chain bc))
     then Err (InvalidTimestamp (of_nat (length (chain bc)))) else Inr ())"
    by (auto simp: check_block_def block_links_def)
  then show ?thesis
    using is_valid_snoc [where bc = bc and bs = "chain bc" and b = b and env = env and clk = clk] ne assms(4)
    by (simp add: bc')
qed

lemma check_all_Inl: "check_all f xs = Inl e \<Longrightarrow> \<exists>x\<in>set xs. f x = Inl e"
  by (induction xs) (auto simp: bindE_Inl_iff)

lemma verify_data_no_panic: "verify_data env cjs b \<noteq> panic"
proof -
  have "verify_collection env c None \<noteq> panic" for c
    by (auto simp: verify_collection_def verify_signature_def bindE_Inl_iff map_err_def
        split: if_splits sum.splits)
  moreover have "get_envelope_container env cjs b \<noteq> panic"
    by (auto simp: get_envelope_container_def bindE_Inl_iff map_err_def split: sum.splits)
  ultimately show ?thesis
    by (auto simp: verify_data_def bindE_Inl_iff dest!: check_all_Inl)
qed

section \<open>Properties of block creation and validation\<close>

text \<open>C4. Chain validation decides exactly the validity of a chain, for every clock: every block after
  the first has the hash and the Merkle root of its content, points to its predecessor, carries only
  signed collections, names the scheduled validator, is not older than its predecessor and not more
  than four hours ahead of the clock. With a nonempty validator list it never panics.\<close>

theorem validation_exact:
  "(is_valid env clk bc = Inr () \<longleftrightarrow>
     (\<forall>i. Suc i < length (chain bc) \<longrightarrow>
        (let p = chain bc ! i; b = chain bc ! Suc i
         in b_hash b = calculate_hash env b \<and> b_previous_hash b = b_hash p
          \<and> b_merkle_root b = calculate_merkle_root env (b_encrypted_block_data b) (b_blind_indexes b)
          \<and> verify_data env (container_js env) b = Inr ()
          \<and> get_current_validator (validators (validator_cfg bc)) (b_index b) = Inr (b_validator b)
          \<and> b_timestamp p \<le> b_timestamp b \<and> b_timestamp b \<le> clk (Suc i) + 14400)))
   \<and> (validators (validator_cfg bc) \<noteq> [] \<longrightarrow> is_valid env clk bc \<noteq> panic)"
proof
  have pos: "(\<forall>i. 0 < i \<and> i < n \<longrightarrow> P i) \<longleftrightarrow> (\<forall>i. Suc i < n \<longrightarrow> P (Suc i))" for n and P :: "nat \<Rightarrow> bool"
    by (metis gr0_conv_Suc zero_less_Suc)
  show "is_valid env clk bc = Inr () \<longleftrightarrow> (\<forall>i. Suc i < length (chain bc) \<longrightarrow>
        (let p = chain bc ! i; b = chain bc ! Suc i
         in b_hash b = calculate_hash env b \<and> b_previous_hash b = b_hash p
          \<and> b_merkle_root b = calculate_merkle_root env (b_encrypted_block_data b) (b_blind_indexes b)
          \<and> verify_data env (container_js env) b = Inr ()
          \<and> get_current_validator (validators (validator_cfg bc)) (b_index b) = Inr (b_validator b)
          \<and> b_timestamp p \<le> b_timestamp b \<and> b_timestamp b \<le> clk (Suc i) + 14400))"
    unfolding is_valid_iff linked_chain_def times_ordered_def successively_nth pos
      block_links_def Let_def
    by blast
  have "check_block env vs now i p b \<noteq> panic" if "vs \<noteq> []" for vs now i p b
    using that
    by (auto simp: check_block_def get_current_validator_def verify_data_no_panic bindE_Inl_iff)
  then have "valid_from env vs clk i p bs \<noteq> panic" if "vs \<noteq> []" for vs i p bs
    using that by (induction bs arbitrary: i p) (auto simp: bindE_Inl_iff)
  then show "validators (validator_cfg bc) \<noteq> [] \<longrightarrow> is_valid env clk bc \<noteq> panic"
    by (auto simp: is_valid_def split: list.splits)
qed

theorem validation_exact_witness:
  "let bc = (demo_bc 0 [] [])\<lparr>chain := [demo_genesis 0, demo_genesis 5]\<rparr>
   in is_valid (demo_node [] [] []) (\<lambda>_. 100) bc \<noteq> Inr () \<and> is_valid (demo_node [] [] []) (\<lambda>_. 100) bc \<noteq> panic"
proof -
  let ?bc = "(demo_bc 0 [] [])\<lparr>chain := [demo_genesis 0, demo_genesis 5]\<rparr>"
  have "b_previous_hash (demo_genesis 5) \<noteq> b_hash (demo_genesis 0)"
    by (simp add: demo_genesis_def list_eq_iff_nth_eq)
  then show ?thesis
    using validation_exact [of "demo_node [] [] []" "\<lambda>_. 100" ?bc] by (auto simp: Let_def All_less_Suc2)
qed

text \<open>C6. What \<open>add_block\<close> does. On failure the state is unchanged. On success there was pending
  data, the node was the scheduled validator, exactly one block is appended, numbered after and
  linked to the old last block, all pending data is consumed, and a checkpoint is recorded exactly
  when the new index is a multiple of one hundred.\<close>

theorem add_block_effect:
  "case add_block env seed bc of
     (Inl e, bc') \<Rightarrow> bc' = bc
   | (Inr b, bc') \<Rightarrow>
       \<not> (pending_accounts_with_keys bc = [] \<and> pending_collections bc = []) \<and> chain bc \<noteq> []
       \<and> is_node_authorized (validator_cfg bc) (node_id bc) (b_index b) = Inr True
       \<and> node_to_validator (validator_cfg bc) (node_id bc) = Some (b_validator b)
       \<and> b_index b = b_index (last (chain bc)) + 1
       \<and> b_previous_hash b = b_hash (last (chain bc)) \<and> b_hash b = calculate_hash env b
       \<and> bc' = bc\<lparr>chain := chain bc @ [b], pending_accounts_with_keys := [], pending_collections := [],
            checkpoints := checkpoints bc @ (if b_index b mod 100 = 0 then [b_hash b] else [])\<rparr>"
proof (cases "add_block env seed bc")
  case (Pair r bc')
  show ?thesis
  proof (cases r)
    case (Inl e)
    with Pair add_block_failure show ?thesis by auto
  next
    case (Inr b)
    with Pair have make: "make_block env seed bc = Inr b"
      and bc': "bc' = bc\<lparr>chain := chain bc @ [b], pending_accounts_with_keys := [], pending_collections := [],
            checkpoints := checkpoints bc @ (if b_index b mod 100 = 0 then [b_hash b] else [])\<rparr>"
      by (simp_all only: add_block_cases)
    from make show ?thesis
    proof (cases rule: make_block_cases)
      case (1 envelopes)
      have "node_to_validator (validator_cfg bc) (node_id bc) = Some (b_validator b)"
        using 1(3,4) by (auto simp: is_node_authorized_iff validator_lookups)
      with 1(1,2,4,5,6) block_new_fields(7) [OF 1(8)] Pair Inr bc' show ?thesis
        by (simp only: prod.case sum.case) blast
    qed
  qed
qed

text \<open>C7. When the chain stays valid. Let the chain be valid, the pending collections signed, the jitter
  within its four hours and the validating clock not behind the creating one. After a
  successful \<open>add_block\<close> the chain is valid exactly when the new block's obfuscated timestamp is not
  before that of the previous block; otherwise validation rejects the node's own chain with
  \<open>InvalidTimestamp\<close>. The second case arises from two blocks of one day when the later draws the
  smaller jitter.\<close>

theorem add_block_valid_or_stale:
  assumes "b64_ok env" and "text_codec_ok (container_js env)"
    and "\<forall>c\<in>set (pending_collections bc). verify_collection env c None = Inr ()"
    and "is_valid env clk bc = Inr ()" and "add_block env seed bc = (Inr b, bc')"
    and "b_index (last (chain bc)) + 1 \<noteq> 0" and "0 \<le> bs_now seed" and "\<bar>bs_jitter seed\<bar> \<le> 14400"
    and "bs_now seed \<le> clk (length (chain bc))"
  shows "is_valid env clk bc' =
    (if obfuscate_timestamp (bs_jitter seed) (bs_now seed) < b_timestamp (last (chain bc))
     then Err (InvalidTimestamp (of_nat (length (chain bc)))) else Inr ())"
proof -
  from assms(5) have "make_block env seed bc = Inr b" by (simp only: add_block_cases)
  moreover from this have "b_index b = b_index (last (chain bc)) + 1" by (rule make_block_cases) simp
  ultimately have "b_timestamp b = obfuscate_timestamp (bs_jitter seed) (bs_now seed)"
    using assms(6) make_block_timestamp(1) by metis
  with add_block_validity [OF assms] show ?thesis by simp
qed

theorem add_block_valid_or_stale_witness:
  "let env = demo_node [demo_container [] [demo_col ''o'']] [] []
   in \<exists>b bc'. add_block env (demo_seed 173300 (- 100)) (demo_bc 172900 [] [demo_col ''o'']) = (Inr b, bc')
        \<and> is_valid env (\<lambda>_. 200000) bc' = Err (InvalidTimestamp 1)"
proof -
  let ?env = "demo_node [demo_container [] [demo_col ''o'']] [] []"
  let ?bc = "demo_bc 172900 [] [demo_col ''o'']"
  have "\<exists>b. make_block ?env (demo_seed 173300 (- 100)) ?bc = Inr b"
    by (rule demo_make_block [where es = "[]"]) simp_all
  then obtain b bc' where add: "add_block ?env (demo_seed 173300 (- 100)) ?bc = (Inr b, bc')"
    by (auto simp: add_block_def)
  have stale: "obfuscate_timestamp (- 100) 173300 < 172900" by (simp add: obfuscate_timestamp_def)
  have valid: "is_valid ?env (\<lambda>_. 200000) ?bc = Inr ()" by (simp add: is_valid_def)
  have "is_valid ?env (\<lambda>_. 200000) bc' = Err (InvalidTimestamp 1)"
    using add_block_valid_or_stale [OF demo_node_ok(2,7) _ valid add] stale by simp
  with add show ?thesis unfolding Let_def by blast
qed

section \<open>Properties of chain replacement\<close>

text \<open>Every block sits at the position that its index says.\<close>

definition well_indexed :: "block list \<Rightarrow> bool" where
  "well_indexed bs \<longleftrightarrow> (\<forall>i<length bs. unat (b_index (bs ! i)) = i)"

lemma two_last: "1 < length bs \<Longrightarrow> \<exists>init p b. bs = init @ [p, b]"
  by (cases bs rule: rev_exhaust, simp, rename_tac ys y, case_tac ys rule: rev_exhaust) auto

lemma well_indexed_bound: "well_indexed bs \<Longrightarrow> b \<in> set bs \<Longrightarrow> unat (b_index b) < length bs"
  by (auto simp: well_indexed_def in_set_conv_nth)

lemma checkpoint_guard_inert:
  assumes "\<forall>b\<in>set (chain bc). unat (b_index b) < length (chain bc)" and "length (chain bc) \<le> length new_chain"
  shows "\<not> checkpoint_blocks bc new_chain"
proof -
  have "unat (b_index b) < length new_chain" if "find P (chain bc) = Some b" for P b
    using that assms by (auto simp: find_Some_iff dest!: nth_mem intro: less_le_trans)
  then show ?thesis by (auto simp: checkpoint_blocks_def not_le split: option.splits)
qed

lemma replace_chain_temp:
  "is_valid env clk (bc\<lparr>chain := new_chain, pending_accounts_with_keys := [], pending_collections := [],
     node_signing_key := None\<rparr>) = is_valid env clk (bc\<lparr>chain := new_chain\<rparr>)"
  by (simp add: is_valid_def split: list.splits)

lemma should_replace_shorter:
  "length new_chain < length (chain bc) \<Longrightarrow> should_replace bc new_chain = Inr False"
  by (simp add: should_replace_def)

lemma should_replace_length:
  "should_replace bc new_chain = Inr True \<Longrightarrow> length (chain bc) \<le> length new_chain \<and> new_chain \<noteq> []
     \<and> new_chain \<noteq> chain bc"
  by (auto simp: should_replace_def list_all_iff in_set_zip split: if_splits)

text \<open>C8. What \<open>replace_chain\<close> does. The state changes only when it answers that it replaced the chain;
  then only the chain changes, the new chain is valid, it is not shorter than the old one, and it
  is a different chain. A peer cannot make a node shorten its chain or adopt an invalid one.\<close>

theorem replace_chain_effect:
  "case replace_chain env clk new_chain bc of
     (Inr True, bc') \<Rightarrow> bc' = bc\<lparr>chain := new_chain\<rparr> \<and> is_valid env clk bc' = Inr ()
        \<and> length (chain bc) \<le> length new_chain \<and> new_chain \<noteq> [] \<and> new_chain \<noteq> chain bc
   | (_, bc') \<Rightarrow> bc' = bc"
  using should_replace_length [of bc new_chain]
  by (auto simp: replace_chain_def Let_def replace_chain_temp split: sum.splits bool.splits)

text \<open>C11. The checkpoint guard decides nothing on a numbered chain. As long as no block of the node's chain carries a
  number that is beyond the chain (as when blocks are numbered by their positions), chain replacement gives
  the same answer and the same chain whatever checkpoints are recorded: a longer valid chain that rewrites blocks
  before the last checkpoint is accepted. The condition is needed, because a chain taken over from a peer may be
  numbered in other ways: a checkpoint on a block with too high a number keeps longer chains out (see the next lemma).\<close>

theorem checkpoints_never_decide:
  assumes "\<forall>b\<in>set (chain bc). unat (b_index b) < length (chain bc)"
  shows "fst (replace_chain env clk new_chain (bc\<lparr>checkpoints := cps\<rparr>)) = fst (replace_chain env clk new_chain bc)
       \<and> chain (snd (replace_chain env clk new_chain (bc\<lparr>checkpoints := cps\<rparr>)))
         = chain (snd (replace_chain env clk new_chain bc))"
proof -
  have same: "should_replace (bc\<lparr>checkpoints := cps\<rparr>) new_chain = should_replace bc new_chain"
    by (simp add: should_replace_def cong: if_cong)
  have valid: "is_valid env clk (bc\<lparr>checkpoints := cps, chain := new_chain\<rparr>)
      = is_valid env clk (bc\<lparr>chain := new_chain\<rparr>)"
    by (simp add: is_valid_def split: list.splits)
  show ?thesis
  proof (cases "length (chain bc) \<le> length new_chain")
    case True
    then have "\<not> checkpoint_blocks bc new_chain" "\<not> checkpoint_blocks (bc\<lparr>checkpoints := cps\<rparr>) new_chain"
      using assms checkpoint_guard_inert [of bc] checkpoint_guard_inert [of "bc\<lparr>checkpoints := cps\<rparr>"]
      by simp_all
    then show ?thesis
      by (auto simp: replace_chain_def Let_def same valid replace_chain_temp
          replace_chain_temp [where bc = "bc\<lparr>checkpoints := cps\<rparr>"] split: sum.splits bool.splits)
  next
    case False
    then have "should_replace bc new_chain = Inr False" by (simp add: should_replace_shorter)
    then show ?thesis by (simp add: replace_chain_def Let_def same)
  qed
qed

lemma misnumbered_checkpoint_blocks:
  assumes "find (\<lambda>b. b_hash b = last (checkpoints bc)) (chain bc) = Some b" and "checkpoints bc \<noteq> []"
    and "length new_chain \<le> unat (b_index b)"
  shows "replace_chain env clk new_chain bc = (Inr False, bc)"
  using assms by (simp add: replace_chain_def checkpoint_blocks_def)

text \<open>C9. Two nodes settle a fork. Let two nodes with the same validator set hold valid,
  position-indexed chains of equal length (more than the genesis block) whose last blocks differ
  in their hash. When each offers its chain to the other, exactly one of the two replaces its
  chain, and afterwards both hold the same chain.\<close>

theorem fork_settles:
  assumes "validators (validator_cfg A) = validators (validator_cfg B)"
    and "well_indexed (chain A)" and "well_indexed (chain B)"
    and "length (chain A) = length (chain B)" and "1 < length (chain A)"
    and "b_hash (last (chain A)) \<noteq> b_hash (last (chain B))"
    and "is_valid env clkA (A\<lparr>chain := chain B\<rparr>) = Inr ()"
    and "is_valid env clkB (B\<lparr>chain := chain A\<rparr>) = Inr ()"
  shows "\<exists>x A' B'. replace_chain env clkA (chain B) A = (Inr x, A')
    \<and> replace_chain env clkB (chain A) B = (Inr (\<not> x), B') \<and> chain A' = chain B'"
proof -
  let ?vs = "validators (validator_cfg A)" and ?a = "last (chain A)" and ?b = "last (chain B)"
  have sched: "get_current_validator vs (b_index (last bs)) = Inr (b_validator (last bs))"
    if "linked_chain env vs bs" and "1 < length bs" for vs bs
  proof -
    from that(2) obtain init p b where "bs = init @ [p, b]"
      using two_last by blast
    with that(1) show ?thesis by (auto simp: linked_chain_def successively_append_iff block_links_def)
  qed
  have idx: "b_index ?a = b_index ?b"
  proof -
    have "chain A \<noteq> []" "chain B \<noteq> []" using assms(4,5) by auto
    with assms(2-5) show ?thesis by (simp add: well_indexed_def last_conv_nth word_unat_eq_iff)
  qed
  have sA: "get_current_validator ?vs (b_index ?a) = Inr (b_validator ?a)"
    using sched [of ?vs "chain A"] assms(1,5,8) by (auto simp: is_valid_iff)
  have sB: "get_current_validator ?vs (b_index ?b) = Inr (b_validator ?b)"
    using sched [of ?vs "chain B"] assms(4,5,7) by (auto simp: is_valid_iff)
  have zip_last: "(last xs, last ys) \<in> set (zip xs ys)" if "length xs = length ys" "1 < length xs"
    for xs ys :: "block list"
    using that last_zip [of xs ys] last_in_set [of "zip xs ys"] by (cases xs; cases ys) auto
  have "(?a, ?b) \<in> set (zip (chain A) (chain B))"
    using assms(4,5) zip_last by auto
  then have diff: "\<not> list_all (\<lambda>(a, b). b_hash a = b_hash b) (zip (chain A) (chain B))"
    using assms(6) by (auto simp: list_all_iff)
  have "(?b, ?a) \<in> set (zip (chain B) (chain A))"
    using assms(4,5) zip_last by auto
  then have diff': "\<not> list_all (\<lambda>(a, b). b_hash a = b_hash b) (zip (chain B) (chain A))"
    using assms(6) by (fastforce simp: list_all_iff)
  have rA: "should_replace A (chain B) = Inr (b_hash ?b < b_hash ?a)"
    using assms(4,5) diff sA sB idx by (simp add: should_replace_def Let_def)
  have rB: "should_replace B (chain A) = Inr (b_hash ?a < b_hash ?b)"
    using assms(1,4,5) diff' sA sB idx by (simp add: should_replace_def Let_def)
  have free: "\<not> checkpoint_blocks A (chain B)" "\<not> checkpoint_blocks B (chain A)"
    using assms(4) checkpoint_guard_inert [of A "chain B"] checkpoint_guard_inert [of B "chain A"]
      well_indexed_bound [OF assms(2)] well_indexed_bound [OF assms(3)] by auto
  have "b_hash ?b < b_hash ?a \<and> \<not> b_hash ?a < b_hash ?b \<or> b_hash ?a < b_hash ?b \<and> \<not> b_hash ?b < b_hash ?a"
    using assms(6) less_linear by (metis order_less_asym)
  then show ?thesis
    by (elim disjE conjE)
      (simp_all add: replace_chain_def Let_def replace_chain_temp free rA rB assms(7,8), blast+)
qed

text \<open>Two blocks that the demo node could append to the same genesis block.\<close>

lemma demo_fork:
  fixes s
  defines "env \<equiv> demo_node [demo_container [] [demo_col ''o'']] [] []"
  assumes "s \<in> {0, 1}"
  shows "is_valid env (\<lambda>_. 200000)
    ((demo_bc 0 [] [])\<lparr>chain := [demo_genesis 0, demo_block env (172800 + s) []]\<rparr>) = Inr ()"
proof -
  let ?bc = "demo_bc 0 [] [demo_col ''o'']" and ?seed = "demo_seed 172800 s"
  have "enc (str_codec (table_codec [demo_container [] [demo_col ''o'']]))
      (demo_container [] [demo_col ''o'']) = Inr []"
    by (simp add: str_codec_def table_codec_def of_bytes_def)
  then have "make_block env ?seed ?bc = Inr (demo_block env (obfuscate_timestamp s 172800) [])"
    unfolding env_def by (rule demo_make_block_eq) simp
  moreover have obf: "obfuscate_timestamp s 172800 = 172800 + s" by (simp add: obfuscate_timestamp_def)
  ultimately obtain bc' where
    add: "add_block env ?seed ?bc = (Inr (demo_block env (172800 + s) []), bc')"
    and bc': "chain bc' = [demo_genesis 0, demo_block env (172800 + s) []]" "validator_cfg bc' = demo_config"
    by (auto simp: add_block_def)
  have valid: "is_valid env (\<lambda>_. 200000) ?bc = Inr ()" by (simp add: is_valid_def)
  have "is_valid env (\<lambda>_. 200000) bc' = Inr ()"
    using add_block_validity [OF _ _ _ valid add] assms(2) demo_node_ok(2,7)
    unfolding env_def by auto
  with bc' show ?thesis by (simp add: is_valid_def)
qed

theorem checkpoints_never_decide_witness:
  "let env = demo_node [demo_container [] [demo_col ''o'']] [] []; bc = demo_bc 0 [] [];
       new_chain = [demo_genesis 0, demo_block env 172800 []]
   in fst (replace_chain env (\<lambda>_. 200000) new_chain bc) = Inr True
      \<and> fst (replace_chain env (\<lambda>_. 200000) new_chain (bc\<lparr>checkpoints := [b_hash (demo_genesis 0)]\<rparr>)) = Inr True"
proof -
  let ?env = "demo_node [demo_container [] [demo_col ''o'']] [] []"
  let ?cs = "[demo_genesis 0, demo_block ?env 172800 []]"
  have "fst (replace_chain ?env (\<lambda>_. 200000) ?cs (demo_bc 0 [] [])) = Inr True"
    using demo_fork [of 0] by (simp add: replace_chain_def replace_chain_temp should_replace_def checkpoint_blocks_def
        demo_bc_def Let_def)
  with checkpoints_never_decide [of "demo_bc 0 [] []" ?env "\<lambda>_. 200000" ?cs "[b_hash (demo_genesis 0)]"]
  show ?thesis by (simp add: Let_def)
qed

theorem fork_settles_witness:
  "let env = demo_node [demo_container [] [demo_col ''o'']] [] [];
       A = (demo_bc 0 [] [])\<lparr>chain := [demo_genesis 0, demo_block env 172800 []]\<rparr>;
       B = (demo_bc 0 [] [])\<lparr>chain := [demo_genesis 0, demo_block env 172801 []]\<rparr>
   in \<exists>x A' B'. replace_chain env (\<lambda>_. 200000) (chain B) A = (Inr x, A')
        \<and> replace_chain env (\<lambda>_. 200000) (chain A) B = (Inr (\<not> x), B') \<and> chain A' = chain B'"
proof -
  let ?env = "demo_node [demo_container [] [demo_col ''o'']] [] []"
  let ?A = "(demo_bc 0 [] [])\<lparr>chain := [demo_genesis 0, demo_block ?env 172800 []]\<rparr>"
  let ?B = "(demo_bc 0 [] [])\<lparr>chain := [demo_genesis 0, demo_block ?env 172801 []]\<rparr>"
  have diff: "b_hash (demo_block ?env 172800 []) \<noteq> b_hash (demo_block ?env 172801 [])"
    unfolding demo_block_hash
    by (subst demo_hash_inject) (simp_all add: calculate_merkle_root_def EMPTY_MERKLE_ROOT_def
        show_int_def show_nat.simps as_bytes_def)
  have wi: "well_indexed (chain ?A)" "well_indexed (chain ?B)"
    by (auto simp: well_indexed_def less_Suc_eq)
  show ?thesis unfolding Let_def
    by (rule fork_settles [OF _ wi]) (use diff demo_fork [of 0] demo_fork [of 1] in simp_all)
qed

section \<open>Integrity\<close>

text \<open>The strings hashed for one block: the content of its hash and those of its Merkle tree.\<close>

definition block_inputs :: "'z node_env_scheme \<Rightarrow> block \<Rightarrow> string set" where
  "block_inputs env b =
     insert (hash_content b) (merkle_inputs env (b_encrypted_block_data b) (b_blind_indexes b))"

lemma length_linked_hash:
  "blake3_ok env \<Longrightarrow> linked_chain env vs (g # bs) \<Longrightarrow> length (b_hash g) = 64 \<Longrightarrow>
   length (b_hash (last (g # bs))) = 64"
  by (cases bs rule: rev_exhaust)
    (auto simp: linked_chain_def successively_append_iff successively_Cons block_links_def
      calculate_hash_def hash_string_def blake3_ok_def)

lemma linked_snoc:
  "linked_chain env vs (g # bs @ [b]) \<longleftrightarrow>
     linked_chain env vs (g # bs) \<and> block_links env vs (last (g # bs)) b"
  using successively_append_iff [of "block_links env vs" "g # bs" "[b]"]
  by (auto simp: linked_chain_def)

lemma block_pinned:
  assumes "blake3_ok env" and "block_links env vs p a" and "block_links env vs q b"
    and "length (b_hash p) = 64" and "length (b_hash q) = 64"
    and "b_index a = b_index b" and "length (b_blind_indexes a) = length (b_blind_indexes b)"
    and "b_encrypted_block_data a \<noteq> []" and "b_encrypted_block_data b \<noteq> []"
    and inj: "inj_on (hash_string env) (block_inputs env a \<union> block_inputs env b)"
    and "b_hash a = b_hash b"
  shows "b_hash p = b_hash q \<and> a\<lparr>b_block_salt := s\<rparr> = b\<lparr>b_block_salt := s\<rparr>"
proof -
  have "hash_content a \<in> block_inputs env a \<union> block_inputs env b"
    "hash_content b \<in> block_inputs env a \<union> block_inputs env b" by (simp_all add: block_inputs_def)
  moreover have "hash_string env (hash_content a) = hash_string env (hash_content b)"
    using assms(2,3,11) by (simp add: block_links_def calculate_hash_def)
  ultimately have content: "hash_content a = hash_content b" using inj by (meson inj_onD)
  have v: "b_validator a = b_validator b"
    using assms(2,3,6) by (auto simp: block_links_def)
  have roots: "length (b_merkle_root a) = 64" "length (b_merkle_root b) = 64"
    using assms(1-3,8,9) by (simp_all add: block_links_def merkle_root_length)
  have eqs: "b_timestamp a = b_timestamp b" "b_merkle_root a = b_merkle_root b"
      "b_previous_hash a = b_previous_hash b"
    using hash_content_inject [OF content assms(6) v] roots assms(2-5) by (auto simp: block_links_def)
  have "inj_on (hash_string env) (merkle_inputs env (b_encrypted_block_data a) (b_blind_indexes a)
      \<union> merkle_inputs env (b_encrypted_block_data b) (b_blind_indexes b))"
    using inj by (rule inj_on_subset) (auto simp: block_inputs_def)
  then have "b_encrypted_block_data a = b_encrypted_block_data b \<and> b_blind_indexes a = b_blind_indexes b"
    using assms(1-3,7) eqs(2) by (intro merkle_root_inject) (auto simp: block_links_def)
  with eqs v assms(2,3,6,11) show ?thesis by (simp add: block_links_def)
qed

text \<open>C10. A chain is pinned down by its last hash. Take two linked chains of equal length under the
  same validator set, with equal indexes and equal numbers of blind indexes at each position,
  nonempty data and 64-character genesis hashes. If their last blocks have the same hash and the
  hash does not collide on the strings hashed for the two chains, then the genesis hashes agree
  and all later blocks agree in every field, the block salt excepted.\<close>

theorem last_hash_pins_chain:
  assumes "blake3_ok env" and "length as = length bs"
    and "linked_chain env vs (g # as)" and "linked_chain env vs (h # bs)"
    and "length (b_hash g) = 64" and "length (b_hash h) = 64"
    and "list_all2 (\<lambda>a b. b_index a = b_index b
           \<and> length (b_blind_indexes a) = length (b_blind_indexes b)) as bs"
    and "\<forall>b\<in>set as \<union> set bs. b_encrypted_block_data b \<noteq> []"
    and "inj_on (hash_string env) (\<Union>b\<in>set as \<union> set bs. block_inputs env b)"
    and "b_hash (last (g # as)) = b_hash (last (h # bs))"
  shows "b_hash g = b_hash h
       \<and> map (\<lambda>b. b\<lparr>b_block_salt := []\<rparr>) as = map (\<lambda>b. b\<lparr>b_block_salt := []\<rparr>) bs"
  using assms
proof (induction "as" arbitrary: bs rule: rev_induct)
  case (snoc a xs)
  from snoc.prems(2) obtain b ys where bs: "bs = ys @ [b]" and len: "length xs = length ys"
    by (cases bs rule: rev_exhaust) auto
  note prems = snoc.prems [unfolded bs]
  have pin: "b_hash (last (g # xs)) = b_hash (last (h # ys))
      \<and> a\<lparr>b_block_salt := []\<rparr> = b\<lparr>b_block_salt := []\<rparr>"
  proof (rule block_pinned)
    show "block_links env vs (last (g # xs)) a" "block_links env vs (last (h # ys)) b"
      using prems(3,4) by (simp_all only: linked_snoc)
    show "length (b_hash (last (g # xs))) = 64" "length (b_hash (last (h # ys))) = 64"
      using prems(1,3-6) length_linked_hash by (auto simp only: linked_snoc)
    show "inj_on (hash_string env) (block_inputs env a \<union> block_inputs env b)"
      using prems(9) by (rule inj_on_subset) auto
  qed (use prems(1,7,8,10) len in \<open>auto simp: list_all2_append\<close>)
  have "b_hash g = b_hash h
       \<and> map (\<lambda>b. b\<lparr>b_block_salt := []\<rparr>) xs = map (\<lambda>b. b\<lparr>b_block_salt := []\<rparr>) ys"
  proof (rule snoc.IH)
    show "inj_on (hash_string env) (\<Union>b\<in>set xs \<union> set ys. block_inputs env b)"
      using prems(9) by (rule inj_on_subset) auto
  qed (use prems len pin in \<open>auto simp: list_all2_append linked_snoc\<close>)
  with pin bs show ?case by simp
qed simp

theorem last_hash_pins_chain_witness:
  "let env = demo_node [demo_container [] [], demo_container [] [demo_col ''o'']] [] [];
       a = demo_block env 172800 (of_bytes [1]); b = a\<lparr>b_block_salt := ''other''\<rparr>
   in a \<noteq> b \<and> b_hash (demo_genesis 0) = b_hash (demo_genesis 7)
      \<and> map (\<lambda>b. b\<lparr>b_block_salt := []\<rparr>) [a] = map (\<lambda>b. b\<lparr>b_block_salt := []\<rparr>) [b]"
proof -
  let ?env = "demo_node [demo_container [] [], demo_container [] [demo_col ''o'']] [] []"
  let ?a = "demo_block ?env 172800 (of_bytes [1])"
  let ?b = "?a\<lparr>b_block_salt := ''other''\<rparr>"
  have "enc (str_codec (table_codec [demo_container [] [], demo_container [] [demo_col ''o'']]))
      (demo_container [] [demo_col ''o'']) = Inr (of_bytes [1])"
    by (simp add: str_codec_def table_codec_def of_bytes_def demo_container_def)
  then have make: "make_block ?env (demo_seed 172800 0) (demo_bc 0 [] [demo_col ''o'']) = Inr ?a"
    by (subst demo_make_block_eq) (simp_all add: obfuscate_timestamp_def)
  have la: "block_links ?env [''V''] (demo_genesis 0) ?a"
    using make_block_links [OF demo_node_ok(2,7) make] by simp
  then have links: "linked_chain ?env [''V''] [demo_genesis 0, ?a]" "linked_chain ?env [''V''] [demo_genesis 7, ?b]"
    by (simp_all add: linked_chain_def block_links_def calculate_hash_def hash_content_def
        verify_data_def get_envelope_container_def demo_genesis_def)
  have root: "length (calculate_merkle_root ?env (of_bytes [1]) []) = 64"
    by (rule merkle_root_length [OF demo_node_ok(6)]) (simp add: of_bytes_def)
  let ?c = "hash_content ?a"
  have len: "64 \<le> length ?c" "length ?c \<le> 1000"
    using root by (simp_all add: hash_content_def demo_block_def Let_def show_u64_def show_int_def show_nat.simps)
  have "length ?c \<le> sum_list (map (\<lambda>b. unat b + 1) (as_bytes ?c))"
    using sum_list_mono [of "as_bytes ?c" "\<lambda>_. 1 :: nat" "\<lambda>b. unat b + 1"] by (simp add: sum_list_triv)
  then have "hash_string ?env ?c \<noteq> hash_string ?env (of_bytes [1])"
    using len by (subst demo_hash_inject) auto
  then have "inj_on (hash_string ?env) {?c, of_bytes [1]}" by (rule inj_on_pair)
  moreover have "hash_content ?b = ?c" by (simp add: hash_content_def)
  then have "block_inputs ?env ?a = {?c, of_bytes [1]}" "block_inputs ?env ?b = {?c, of_bytes [1]}"
    by (simp_all add: block_inputs_def merkle_inputs_def reduce_inputs.simps [of _ "[_]"])
  ultimately have inj: "inj_on (hash_string ?env) (\<Union>b\<in>set [?a] \<union> set [?b]. block_inputs ?env b)"
    by simp
  have "length (b_block_salt ?a) = 2"
    by (simp add: demo_block_def Let_def demo_env_def length_demo_hex_encode)
  then have "b_block_salt ?a \<noteq> b_block_salt ?b" by auto
  then have "?a \<noteq> ?b" by metis
  with last_hash_pins_chain [OF demo_node_ok(6) _ links _ _ _ _ inj] show ?thesis
    by (simp add: Let_def demo_genesis_def of_bytes_def)
qed

text \<open>The block salt is covered by nothing. Replacing the salt of any block leaves the verdict of
  chain validation unchanged, so a peer can hand out a chain with altered salts, under which the
  accounts in the block cannot be opened any more.\<close>

theorem salt_unprotected:
  "is_valid env clk (bc\<lparr>chain := xs @ [b\<lparr>b_block_salt := s\<rparr>] @ ys\<rparr>)
     = is_valid env clk (bc\<lparr>chain := xs @ [b] @ ys\<rparr>)"
proof -
  have hash: "calculate_hash env (b\<lparr>b_block_salt := s\<rparr>) = calculate_hash env b"
    by (simp add: calculate_hash_def hash_content_def)
  have vd: "verify_data env cjs (b\<lparr>b_block_salt := s\<rparr>) = verify_data env cjs b" for cjs
    by (simp add: verify_data_def get_envelope_container_def)
  have 1: "check_block env vs now i p (b\<lparr>b_block_salt := s\<rparr>) = check_block env vs now i p b" for vs now i p
    by (simp add: check_block_def hash vd cong: if_cong)
  have 2: "check_block env vs now i (b\<lparr>b_block_salt := s\<rparr>) c = check_block env vs now i b c" for vs now i c
    by (simp add: check_block_def)
  have 3: "valid_from env vs clk i (b\<lparr>b_block_salt := s\<rparr>) ys = valid_from env vs clk i b ys" for vs i
    by (cases ys) (simp_all add: 2)
  show ?thesis by (cases xs) (simp_all add: is_valid_def valid_from_append 1 3)
qed

text \<open>Leaves and inner nodes of the Merkle tree are hashed alike. A block with data \<open>d\<close> and one
  blind index has the same root as a block without blind indexes whose data is the
  concatenation of the two leaf hashes, so a root does not tell the two apart.\<close>

theorem merkle_second_preimage:
  "hash_string env d @ hash_string env i \<noteq> [] \<Longrightarrow>
   calculate_merkle_root env d [i] = calculate_merkle_root env (hash_string env d @ hash_string env i) []"
  by (auto simp: calculate_merkle_root_def merkle_reduce.simps)

theorem merkle_second_preimage_witness:
  "calculate_merkle_root demo_env ''data'' [''index'']
     = calculate_merkle_root demo_env (hash_string demo_env ''data'' @ hash_string demo_env ''index'') []"
proof (rule merkle_second_preimage)
  have "length (hash_string demo_env ''data'') = 64"
    using demo_env_ok(6) by (simp add: hash_string_def blake3_ok_def)
  then show "hash_string demo_env ''data'' @ hash_string demo_env ''index'' \<noteq> []" by auto
qed

text \<open>The hashed content of a block has no separators: a block with index 1 and a timestamp that
  starts with the digit 2 has the same hash as one with index 12 and the timestamp without
  that digit, all other fields being equal.\<close>

theorem hash_content_ambiguous:
  "calculate_hash env (b\<lparr>b_index := 1, b_timestamp := 23\<rparr>)
     = calculate_hash env (b\<lparr>b_index := 12, b_timestamp := 3\<rparr>)"
  by (simp add: calculate_hash_def hash_content_def show_u64_def show_int_def show_nat.simps)

text \<open>A block put after another one under another number: link and hash are computed anew.\<close>

definition reseal :: "'z node_env_scheme \<Rightarrow> block \<Rightarrow> u64 \<Rightarrow> block \<Rightarrow> block" where
  "reseal env p i b =
     (let b' = b\<lparr>b_index := i, b_previous_hash := b_hash p\<rparr> in b'\<lparr>b_hash := calculate_hash env b'\<rparr>)"

fun renumber :: "'z node_env_scheme \<Rightarrow> block \<Rightarrow> u64 list \<Rightarrow> block list \<Rightarrow> block list" where
  "renumber env p (i # is) (b # bs) = reseal env p i b # renumber env (reseal env p i b) is bs"
| "renumber env p _ _ = []"

lemma reseal_sel [simp]:
  "b_index (reseal env p i b) = i" "b_timestamp (reseal env p i b) = b_timestamp b" "b_validator (reseal env p i b) = b_validator b"
  by (simp_all add: reseal_def Let_def)

lemma reseal_links:
  assumes "block_links env vs q b" and "get_current_validator vs i = Inr (b_validator b)"
  shows "block_links env vs p (reseal env p i b)"
  using assms by (simp add: block_links_def reseal_def Let_def calculate_hash_def hash_content_def verify_data_def get_envelope_container_def)

lemma renumber_map:
  assumes "length is = length bs"
  shows "map b_index (renumber env p is bs) = is" "map b_timestamp (renumber env p is bs) = map b_timestamp bs"
    "map b_encrypted_block_data (renumber env p is bs) = map b_encrypted_block_data bs"
  using assms by (induction env p "is" bs rule: renumber.induct) (auto simp: reseal_def Let_def)

lemma renumber_links:
  assumes "linked_chain env vs (g # bs)" and "list_all2 (\<lambda>i b. get_current_validator vs i = Inr (b_validator b)) is bs"
  shows "linked_chain env vs (p # renumber env p is bs)"
  using assms(2,1)
proof (induction "is" bs arbitrary: g p rule: list_all2_induct)
  case (Cons i "is" b bs)
  then have "block_links env vs p (reseal env p i b)" by (auto simp: linked_chain_def intro: reseal_links)
  with Cons show ?case by (auto simp: linked_chain_def successively_Cons)
qed (simp add: linked_chain_def)

lemma times_ordered_map: "times_ordered bs \<longleftrightarrow> sorted_wrt (\<le>) (map b_timestamp bs)"
  unfolding times_ordered_def
  by (induction bs rule: induct_list012) (auto intro: order_trans)

text \<open>C5. Validation binds every block to the block before it, but neither to its position nor to a fixed beginning.
  Take a valid chain, exchange its first block for any block that is not later, whatever its content and hash,
  and give all other blocks new numbers, in any way for which the schedule names the same validators; compute links and
  hashes anew. The result has these numbers and the same user data, and it is valid too.\<close>

theorem numbering_unchecked:
  assumes "is_valid env clk (bc\<lparr>chain := g # bs\<rparr>) = Inr ()" and "b_timestamp g' \<le> b_timestamp g"
    and "list_all2 (\<lambda>i b. get_current_validator (validators (validator_cfg bc)) i = Inr (b_validator b)) is bs"
  shows "is_valid env clk (bc\<lparr>chain := g' # renumber env g' is bs\<rparr>) = Inr ()
    \<and> map b_index (renumber env g' is bs) = is
    \<and> map b_encrypted_block_data (renumber env g' is bs) = map b_encrypted_block_data bs"
proof -
  let ?vs = "validators (validator_cfg bc)" and ?cs = "renumber env g' is bs"
  have len: "length is = length bs" using assms(3) by (simp add: list_all2_lengthD)
  note maps = renumber_map [OF len, of env g']
  have n: "length ?cs = length bs" using arg_cong [OF maps(2), of length] by simp
  have nth: "b_timestamp (?cs ! k) = b_timestamp (bs ! k)" if "k < length bs" for k
    using that maps(2) n by (metis nth_map)
  have "linked_chain env ?vs (g' # ?cs)" using assms(1) by (intro renumber_links [OF _ assms(3)]) (auto simp: is_valid_iff)
  moreover have "times_ordered (g' # ?cs)"
    using assms(1,2) maps(2) by (auto simp: is_valid_iff times_ordered_map)
  moreover have "b_timestamp ((g' # ?cs) ! i) \<le> clk i + 14400" if "0 < i" "i < length (g' # ?cs)" for i
    using assms(1) that n nth [of "i - 1"] by (auto simp: is_valid_iff nth_Cons' split: if_splits dest: spec [where x = i])
  ultimately show ?thesis using maps(1,3) by (simp add: is_valid_iff)
qed

theorem numbering_unchecked_witness:
  "let env = demo_node [demo_container [] [demo_col ''o'']] [] []; b = demo_block env 172800 [];
       g' = (demo_genesis 0)\<lparr>b_encrypted_block_data := ''anything'', b_hash := ''any''\<rparr>
   in is_valid env (\<lambda>_. 200000) ((demo_bc 0 [] [])\<lparr>chain := g' # renumber env g' [77] [b]\<rparr>) = Inr ()
      \<and> map b_index (renumber env g' [77] [b]) = [77]"
proof -
  let ?env = "demo_node [demo_container [] [demo_col ''o'']] [] []" and ?g' = "(demo_genesis 0)\<lparr>b_encrypted_block_data := ''anything'', b_hash := ''any''\<rparr>"
  have "is_valid ?env (\<lambda>_. 200000) ((demo_bc 0 [] [])\<lparr>chain := demo_genesis 0 # [demo_block ?env 172800 []]\<rparr>) = Inr ()"
    using demo_fork [of 0] by simp
  from numbering_unchecked [OF this, of ?g' "[77]"] show ?thesis by (simp add: Let_def)
qed

end
