(* ===== verification/Goud_Ledger.thy ===== *)
theory Goud_Ledger
  imports Goud_Chain_Laws
begin

text \<open>
  The ledger as its clients see it: what the lookups return after data was submitted and a block
  was made, and what every sequence of operations keeps of the chain.
\<close>

section \<open>Lookups\<close>

text \<open>The laws the lookups need: encodings and serializers invert, sealing opens.\<close>

definition node_env_ok :: "'z node_env_scheme \<Rightarrow> bool" where
  "node_env_ok env \<longleftrightarrow> b64_ok env \<and> aead_ok env \<and> text_codec_ok (container_js env)
     \<and> text_codec_ok (account_js env)"

lemma find_account_in_append:
  "find_account_in env k h (xs @ ys) =
     (case find_account_in env k h xs of Some a \<Rightarrow> Some a | None \<Rightarrow> find_account_in env k h ys)"
  by (induction xs) (auto split: sum.splits option.splits)

lemma find_envelope:
  assumes "list_all2 (\<lambda>x e. f x = Inr e \<and> env_api_key_hash e = key x) xs es"
    and "\<forall>x\<in>set xs. key x \<noteq> h"
    and "f y = Inr e" and "env_api_key_hash e = h"
  shows "find (\<lambda>e. env_api_key_hash e = h) (es @ e # zs) = Some e"
  using assms by (induction rule: list_all2_induct) auto

lemma find_account_after_block:
  assumes "node_env_ok env" and "make_block env seed bc = Inr b" and "\<forall>i. length (bs_nonce seed i) = 12"
    and pend: "pending_accounts_with_keys bc = xs @ (account, api_key) # ys"
    and fresh: "\<forall>(a, k)\<in>set xs. hash_api_key_hex env k \<noteq> hash_api_key_hex env api_key"
  shows "get_account env (container_js env) (account_js env) b api_key = Inr (Some account)"
proof -
  let ?h = "hash_api_key_hex env api_key"
  let ?seal = "\<lambda>(i, a, k). encrypt_account_envelope env (account_js env) (bs_nonce seed i) a k (b_block_salt b)"
  have ok: "b64_ok env" "aead_ok env" "text_codec_ok (container_js env)" "text_codec_ok (account_js env)"
    using assms(1) by (auto simp: node_env_ok_def)
  obtain es where cont: "get_envelope_container env (container_js env) b =
      Inr \<lparr>account_envelopes = es,
           collection_envelopes = map (\<lambda>c. \<lparr>env_collection = c\<rparr>) (pending_collections bc),
           container_validator = b_validator b\<rparr>"
    and es: "list_all2 (\<lambda>(i, a, k) e. ?seal (i, a, k) = Inr e)
       (enumerate 0 (pending_accounts_with_keys bc)) es"
    by (rule make_block_container [OF ok(1,3) assms(2)]) (simp add: case_prod_unfold)
  have opens: "decrypt_account_envelope env (account_js env) e k (b_block_salt b) = Inr a
      \<and> env_api_key_hash e = hash_api_key_hex env k" if "?seal (i, a, k) = Inr e" for i a k e
    using that assms(3) by (intro decrypt_encrypt_envelope [OF ok(1,2,4), of "bs_nonce seed i"]) auto
  define P where "P x e \<longleftrightarrow> ?seal x = Inr e \<and> env_api_key_hash e = hash_api_key_hex env (snd (snd x))" for x e
  have "P x e" if "?seal x = Inr e" for x e
    using that opens [of "fst x" "fst (snd x)" "snd (snd x)" e] by (simp add: P_def case_prod_unfold)
  with es have "list_all2 P (enumerate 0 xs @ (length xs, account, api_key) # enumerate (Suc (length xs)) ys) es"
    by (auto simp: pend enumerate_append_eq case_prod_unfold elim!: list_all2_mono)
  then obtain us rest where "es = us @ rest" and us: "list_all2 P (enumerate 0 xs) us"
    and "list_all2 P ((length xs, account, api_key) # enumerate (Suc (length xs)) ys) rest"
    unfolding list_all2_append1 by blast
  then obtain e vs where split: "es = us @ e # vs" and "P (length xs, account, api_key) e"
    unfolding list_all2_Cons1 by blast
  then have e: "?seal (length xs, account, api_key) = Inr e" by (simp add: P_def)
  have "find (\<lambda>e. env_api_key_hash e = ?h) es = Some e"
    unfolding split
  proof (rule find_envelope [OF us [unfolded P_def] _ e])
    show "\<forall>x\<in>set (enumerate 0 xs). hash_api_key_hex env (snd (snd x)) \<noteq> ?h"
    proof
      fix x assume "x \<in> set (enumerate 0 xs)"
      then have "snd x \<in> set xs" using nth_mem [of "fst x" xs] by (auto simp: in_set_enumerate_eq)
      with fresh show "hash_api_key_hex env (snd (snd x)) \<noteq> ?h" by (cases "snd x") fastforce
    qed
    show "env_api_key_hash e = ?h" using opens [OF e] by simp
  qed
  then show ?thesis using opens [OF e] by (simp add: get_account_def cont)
qed

lemma collections_after_block:
  assumes "node_env_ok env" and "make_block env seed bc = Inr b"
  shows "get_collections_by_owner env (container_js env) b api_key =
    Inr (filter (\<lambda>c. owner_api_key_hash c = hash_api_key_hex env api_key) (pending_collections bc))"
proof -
  have ok: "b64_ok env" "text_codec_ok (container_js env)" using assms(1) by (auto simp: node_env_ok_def)
  show ?thesis
    by (rule make_block_container [OF ok assms(2)]) (simp add: get_collections_by_owner_def comp_def)
qed

text \<open>C14. Account round trip. When an account is pending with its API key, no earlier block holds an
  account for that key, and no pending entry before it has the same key hash, then after a
  successful \<open>add_block\<close> looking up the API key returns exactly that account.\<close>

theorem account_lookup_roundtrip:
  assumes "node_env_ok env" and "\<forall>i. length (bs_nonce seed i) = 12"
    and "add_block env seed bc = (Inr b, bc')"
    and "pending_accounts_with_keys bc = xs @ (account, api_key) # ys"
    and "\<forall>(a, k)\<in>set xs. hash_api_key_hex env k \<noteq> hash_api_key_hex env api_key"
    and "find_account env bc api_key = None"
  shows "find_account env bc' api_key = Some account"
proof -
  from assms(3) have make: "make_block env seed bc = Inr b" and bc': "chain bc' = chain bc @ [b]"
    by (auto simp: add_block_cases)
  have "get_account env (container_js env) (account_js env) b api_key = Inr (Some account)"
    by (rule find_account_after_block [OF assms(1) make assms(2,4,5)])
  moreover have "should_search_block env h b" for h
    using make_block_timestamp(2) [OF make] by (simp add: should_search_block_def)
  ultimately show ?thesis
    using assms(6) by (simp add: find_account_def find_account_with_hash_def bc' find_account_in_append)
qed

lemma demo_genesis_container:
  "length cs \<le> 1 \<Longrightarrow> \<exists>e. get_envelope_container (demo_node cs as js) (str_codec (table_codec cs)) (demo_genesis t) = Inl e"
  by (auto simp: get_envelope_container_def demo_env_def str_codec_def table_codec_def demo_genesis_def)

theorem account_lookup_roundtrip_witness:
  "let a = \<lparr>account_id = ''a'', acc_api_key_hash = ''h'', acc_public_key = ''p'', created_at = 5,
            metadata_encrypted = None, acc_signature = ''s''\<rparr>
   in \<exists>e b bc'. add_block (demo_node [demo_container [e] []] [a] []) (demo_seed 172800 0) (demo_bc 0 [(a, [9])] [])
                 = (Inr b, bc')
        \<and> find_account (demo_node [demo_container [e] []] [a] []) bc' [9] = Some a"
proof -
  let ?a = "\<lparr>account_id = ''a'', acc_api_key_hash = ''h'', acc_public_key = ''p'', created_at = 5,
            metadata_encrypted = None, acc_signature = ''s''\<rparr>"
  let ?bc = "demo_bc 0 [(?a, [9])] []" and ?seed = "demo_seed 172800 0"
  have "enc (str_codec (table_codec [?a])) ?a = Inr []" by (simp add: str_codec_def table_codec_def of_bytes_def)
  then obtain e where e: "encrypt_account_envelope demo_env (str_codec (table_codec [?a])) (replicate 12 1) ?a [9]
      (hex_encode demo_env [1]) = Inr e"
    by (auto simp: encrypt_account_envelope_def encrypt_data_with_key_def encrypt_data_with_nonce_def Let_def)
  let ?env = "demo_node [demo_container [e] []] [?a] []"
  have "\<exists>b. make_block ?env ?seed ?bc = Inr b"
    by (rule demo_make_block [where es = "[e]"]) (simp_all add: e)
  then obtain b bc' where add: "add_block ?env ?seed ?bc = (Inr b, bc')" by (auto simp: add_block_def)
  have ok: "node_env_ok ?env" unfolding node_env_ok_def by (intro conjI demo_node_ok)
  have "find_account ?env ?bc [9] = None"
    using demo_genesis_container [of "[demo_container [e] []]" "[?a]" "[]" 0]
    by (auto simp: find_account_def find_account_with_hash_def get_account_def Let_def)
  then have "find_account ?env bc' [9] = Some ?a"
    using account_lookup_roundtrip [OF ok _ add, of "[]" ?a "[9]" "[]"] by simp
  with add show ?thesis unfolding Let_def by blast
qed

lemma find_collection_in_append:
  "find_collection_in env cid k (xs @ ys) =
     (case find_collection_in env cid k xs of Some c \<Rightarrow> Some c | None \<Rightarrow> find_collection_in env cid k ys)"
  by (induction xs) (auto split: sum.splits option.splits)

lemma find_collection_in_owned:
  "find_collection_in env cid k bs = Some c \<Longrightarrow>
   collection_id c = cid \<and> owner_api_key_hash c = hash_api_key_hex env k"
  by (induction bs) (auto simp: find_Some_iff split: sum.splits option.splits)

text \<open>C15. Collection lookups. A successful \<open>add_block\<close> extends the list of collections of every API
  key by exactly the pending collections filed under that key's hash, in order; and a lookup by
  identifier only ever returns a collection with that identifier filed under the key's hash, and
  finds a pending one whose identifier no earlier collection of the owner has.\<close>

theorem collection_lookups:
  assumes "node_env_ok env" and "add_block env seed bc = (Inr b, bc')"
  shows "find_collections_by_owner env bc' api_key = find_collections_by_owner env bc api_key
           @ filter (\<lambda>c. owner_api_key_hash c = hash_api_key_hex env api_key) (pending_collections bc)
       \<and> (\<forall>c. find_collection env bc' cid api_key = Some c \<longrightarrow>
             collection_id c = cid \<and> owner_api_key_hash c = hash_api_key_hex env api_key)
       \<and> (find_collection env bc cid api_key = None
           \<and> (\<exists>c\<in>set (pending_collections bc). collection_id c = cid
                \<and> owner_api_key_hash c = hash_api_key_hex env api_key)
           \<longrightarrow> find_collection env bc' cid api_key \<noteq> None)"
proof -
  from assms(2) have make: "make_block env seed bc = Inr b" and bc': "chain bc' = chain bc @ [b]"
    by (auto simp: add_block_cases)
  note cols = collections_after_block [OF assms(1) make, of api_key]
  have "should_search_block env h b" for h
    using make_block_timestamp(2) [OF make] by (simp add: should_search_block_def)
  then have "find_collections_by_owner env bc' api_key = find_collections_by_owner env bc api_key
      @ filter (\<lambda>c. owner_api_key_hash c = hash_api_key_hex env api_key) (pending_collections bc)"
    by (simp add: find_collections_by_owner_def bc' cols)
  moreover have "find_collection env bc' cid api_key \<noteq> None"
    if "find_collection env bc cid api_key = None" and "c \<in> set (pending_collections bc)"
      "collection_id c = cid" "owner_api_key_hash c = hash_api_key_hex env api_key" for c
    using that
    by (auto simp: find_collection_def bc' find_collection_in_append cols find_None_iff
        split: option.splits)
  ultimately show ?thesis
    using find_collection_in_owned by (fastforce simp: find_collection_def)
qed

theorem collection_lookups_witness:
  "let c = demo_col (hash_api_key_hex demo_env [9]); env = demo_node [demo_container [] [c]] [] []
   in \<exists>b bc'. add_block env (demo_seed 172800 0) (demo_bc 0 [] [c]) = (Inr b, bc')
        \<and> find_collections_by_owner env bc' [9] = [c] \<and> find_collection env bc' ''id'' [9] \<noteq> None"
proof -
  let ?c = "demo_col (hash_api_key_hex demo_env [9])"
  let ?env = "demo_node [demo_container [] [?c]] [] []"
  let ?bc = "demo_bc 0 [] [?c]" and ?seed = "demo_seed 172800 0"
  have "\<exists>b. make_block ?env ?seed ?bc = Inr b"
    by (rule demo_make_block [where es = "[]"]) simp_all
  then obtain b bc' where add: "add_block ?env ?seed ?bc = (Inr b, bc')" by (auto simp: add_block_def)
  have ok: "node_env_ok ?env" unfolding node_env_ok_def by (intro conjI demo_node_ok)
  obtain err where none: "get_envelope_container ?env (container_js ?env) (demo_genesis 0) = Inl err"
    using demo_genesis_container [of "[demo_container [] [?c]]" "[]" "[]" 0] by auto
  have "find_collection ?env ?bc ''id'' [9] = None" "find_collections_by_owner ?env ?bc [9] = []"
    using none by (auto simp: find_collection_def find_collections_by_owner_def get_collections_by_owner_def Let_def)
  moreover have "owner_api_key_hash ?c = hash_api_key_hex ?env [9]" "collection_id ?c = ''id''"
    by (simp_all add: demo_col_def demo_node_keys)
  ultimately show ?thesis
    using collection_lookups [OF ok add, of "[9]" "''id''"] add by (simp add: Let_def)
qed

section \<open>Every sequence of operations\<close>

datatype ledger_op =
    OpAccount user_account bytes
  | OpCollection encrypted_collection
  | OpBlock block_seed
  | OpReplace "nat \<Rightarrow> i64" "block list"

fun ledger_step :: "'z node_env_scheme \<Rightarrow> ledger_op \<Rightarrow> blockchain \<Rightarrow> blockchain" where
  "ledger_step env (OpAccount account api_key) bc = snd (add_account_with_key account api_key bc)"
| "ledger_step env (OpCollection c) bc = snd (add_collection c bc)"
| "ledger_step env (OpBlock seed) bc = snd (add_block env seed bc)"
| "ledger_step env (OpReplace clk new_chain) bc = snd (replace_chain env clk new_chain bc)"

text \<open>The one obligation of a client: the collections it submits are signed.\<close>

fun ledger_op_ok :: "'z node_env_scheme \<Rightarrow> ledger_op \<Rightarrow> bool" where
  "ledger_op_ok env (OpCollection c) \<longleftrightarrow> verify_collection env c None = Inr ()"
| "ledger_op_ok env _ \<longleftrightarrow> True"

definition ledger_inv :: "'z node_env_scheme \<Rightarrow> string list \<Rightarrow> blockchain \<Rightarrow> bool" where
  "ledger_inv env vs bc \<longleftrightarrow> b64_ok env \<and> text_codec_ok (container_js env) \<and> chain bc \<noteq> []
     \<and> validators (validator_cfg bc) = vs \<and> linked_chain env vs (chain bc)
     \<and> (\<forall>c\<in>set (pending_collections bc). verify_collection env c None = Inr ())"

lemma replace_chain_cases:
  "snd (replace_chain env clk new_chain bc) = bc
   \<or> snd (replace_chain env clk new_chain bc) = bc\<lparr>chain := new_chain\<rparr>
     \<and> is_valid env clk (bc\<lparr>chain := new_chain\<rparr>) = Inr ()
     \<and> length (chain bc) \<le> length new_chain \<and> new_chain \<noteq> []"
  using should_replace_length [of bc new_chain]
  by (auto simp: replace_chain_def Let_def replace_chain_temp split: sum.splits bool.splits)

lemma add_block_snd:
  "snd (add_block env seed bc) = bc \<or> (\<exists>b. make_block env seed bc = Inr b
     \<and> chain (snd (add_block env seed bc)) = chain bc @ [b]
     \<and> validator_cfg (snd (add_block env seed bc)) = validator_cfg bc
     \<and> pending_collections (snd (add_block env seed bc)) = [])"
  by (auto simp: add_block_def split: sum.splits)

lemma ledger_step_inv:
  assumes "ledger_inv env vs bc" and "ledger_op_ok env x"
  shows "ledger_inv env vs (ledger_step env x bc)"
proof (cases x)
  case (OpBlock seed)
  from add_block_snd [of env seed bc] show ?thesis
  proof
    assume "\<exists>b. make_block env seed bc = Inr b \<and> chain (snd (add_block env seed bc)) = chain bc @ [b]
     \<and> validator_cfg (snd (add_block env seed bc)) = validator_cfg bc
     \<and> pending_collections (snd (add_block env seed bc)) = []"
    then obtain b where b: "make_block env seed bc = Inr b"
      and step: "chain (snd (add_block env seed bc)) = chain bc @ [b]"
        "validator_cfg (snd (add_block env seed bc)) = validator_cfg bc"
        "pending_collections (snd (add_block env seed bc)) = []" by blast
    from assms(1) have "block_links env vs (last (chain bc)) b"
      using make_block_links [OF _ _ b] by (auto simp: ledger_inv_def)
    with assms(1) step OpBlock show ?thesis
      by (auto simp: ledger_inv_def linked_chain_def successively_append_iff)
  qed (use assms(1) OpBlock in simp)
next
  case (OpReplace clk new_chain)
  from replace_chain_cases [of env clk new_chain bc] assms(1) OpReplace show ?thesis
    by (auto simp: ledger_inv_def is_valid_iff)
qed (use assms in \<open>auto simp: ledger_inv_def add_account_with_key_def add_collection_def\<close>)

lemma ledger_step_grows: "length (chain bc) \<le> length (chain (ledger_step env x bc))"
proof (cases x)
  case (OpBlock seed)
  from add_block_snd [of env seed bc] OpBlock show ?thesis by auto
next
  case (OpReplace clk new_chain)
  from replace_chain_cases [of env clk new_chain bc] OpReplace show ?thesis by auto
qed (auto simp: add_account_with_key_def add_collection_def)

text \<open>A machine with a size that no operation decreases.\<close>

locale growing_machine = machine step op_ok inv
  for step :: "'op \<Rightarrow> 's \<Rightarrow> 's" and op_ok :: "'op \<Rightarrow> bool" and inv :: "'s \<Rightarrow> bool" +
  fixes measure_of :: "'s \<Rightarrow> nat"
  assumes step_grows: "inv s \<Longrightarrow> op_ok x \<Longrightarrow> measure_of s \<le> measure_of (step x s)"
begin

lemma run_grows: "inv s \<Longrightarrow> list_all op_ok xs \<Longrightarrow> measure_of s \<le> measure_of (fold step xs s)"
  by (induction xs arbitrary: s) (auto intro: step_inv order_trans [OF step_grows])

end

interpretation ledger: growing_machine "ledger_step env" "ledger_op_ok env" "ledger_inv env vs"
    "\<lambda>bc. length (chain bc)"
  for env :: "'z node_env_scheme" and vs :: "string list"
  by unfold_locales (simp_all add: ledger_step_inv ledger_step_grows)

lemma blockchain_new_inv:
  assumes "b64_ok env" and "text_codec_ok (container_js env)" and "blockchain_new env sk seed nid cfg = Inr bc"
  shows "ledger_inv env (validators cfg) bc \<and> length (chain bc) = 1"
  using assms by (auto simp: blockchain_new_def res_iff ledger_inv_def linked_chain_def)

text \<open>C1. Whatever a node does, its chain is sound. Start from a fresh blockchain and apply any
  sequence of submissions of accounts and signed collections, block creations (succeeding or
  failing) and replacement offers with arbitrary chains from peers: every block after the first is
  linked to its predecessor, has the hash and Merkle root of its content, contains only signed
  collections and names its scheduled validator; and the chain never gets shorter.\<close>

theorem ledger_run_sound:
  assumes "b64_ok env" and "text_codec_ok (container_js env)"
    and "blockchain_new env sk seed nid cfg = Inr bc" and "list_all (ledger_op_ok env) (ops1 @ ops2)"
  shows "linked_chain env (validators cfg) (chain (fold (ledger_step env) ops1 bc))
       \<and> length (chain (fold (ledger_step env) ops1 bc))
         \<le> length (chain (fold (ledger_step env) (ops1 @ ops2) bc))"
proof -
  have inv: "ledger_inv env (validators cfg) bc" using blockchain_new_inv [OF assms(1-3)] by simp
  from assms(4) have ok: "list_all (ledger_op_ok env) ops1" "list_all (ledger_op_ok env) ops2" by auto
  note mid = ledger.run_inv [OF inv ok(1)]
  from ledger.run_grows [OF mid ok(2)] mid show ?thesis by (simp add: ledger_inv_def)
qed

theorem ledger_run_sound_witness:
  "let env = demo_node [demo_container [] [], demo_container [] [demo_col ''o'']] [] [];
       ops = [OpCollection (demo_col ''o''), OpBlock (demo_seed 172800 0)]
   in \<exists>bc. blockchain_new env [1] (demo_seed 0 0) ''n'' demo_config = Inr bc
        \<and> length (chain (fold (ledger_step env) ops bc)) = 2 \<and> linked_chain env [''V''] (chain (fold (ledger_step env) ops bc))"
proof -
  let ?cs = "[demo_container [] [], demo_container [] [demo_col ''o'']]"
  let ?env = "demo_node ?cs [] []" and ?ops = "[OpCollection (demo_col ''o''), OpBlock (demo_seed 172800 0)]"
  have known: "\<exists>s. enc (str_codec (table_codec ?cs)) c = Inr s" if "c \<in> set ?cs" for c
    using that by (simp add: str_codec_def table_codec_def)
  have "\<exists>bc. blockchain_new ?env [1] (demo_seed 0 0) ''n'' demo_config = Inr bc"
    using known [of "demo_container [] []"] by (auto simp: blockchain_new_def block_new_def Let_def demo_container_def)
  then obtain bc where bc: "blockchain_new ?env [1] (demo_seed 0 0) ''n'' demo_config = Inr bc" by blast
  then have sel: "node_id bc = ''n''" "validator_cfg bc = demo_config" "pending_collections bc = []"
    "pending_accounts_with_keys bc = []" "length (chain bc) = 1"
    by (auto simp: blockchain_new_def res_iff)
  then have "\<exists>b. make_block ?env (demo_seed 172800 0) (snd (add_collection (demo_col ''o'') bc)) = Inr b"
    using known [of "demo_container [] [demo_col ''o'']"]
    by (auto simp: make_block_def get_latest_block_def is_authorized_validator_def Let_def add_collection_def
        generate_block_salt_def demo_seed_def block_new_def demo_container_def)
  then have two: "length (chain (fold (ledger_step ?env) ?ops bc)) = 2"
    using sel(5) by (auto simp: add_block_def add_collection_def)
  have "list_all (ledger_op_ok ?env) (?ops @ [])" by simp
  from ledger_run_sound [OF demo_node_ok(2,7) bc this] bc two show ?thesis unfolding Let_def by auto
qed

end
