(* ===== verification/Goud_Store.thy ===== *)
theory Goud_Store
  imports Goud_Ledger
begin

text \<open>
  Persistence of the chain (\<open>src/storage/blockchain_store.rs\<close>, \<open>src/storage/mod.rs\<close>): blocks,
  chain length, metadata and checkpoints under textual keys in the key-value database, and the
  loading of a blockchain at start. Bincode is a codec argument. The locale \<open>chain_storage\<close> is the
  contract of the store; its interpretation \<open>store\<close> rests on the database laws.
\<close>

section \<open>Keys\<close>

definition block_key :: "u64 \<Rightarrow> bytes" where
  "block_key i = as_bytes (''block:'' @ show_u64 i)"

definition checkpoint_key :: "u64 \<Rightarrow> bytes" where
  "checkpoint_key i = as_bytes (''checkpoint:'' @ show_u64 i)"

abbreviation chain_length_key :: bytes where "chain_length_key \<equiv> as_bytes ''metadata:chain_length''"
abbreviation node_id_key :: bytes where "node_id_key \<equiv> as_bytes ''metadata:node_id''"
abbreviation schema_key :: bytes where "schema_key \<equiv> as_bytes ''metadata:schema_version''"

section \<open>Operations\<close>

text \<open>A database call whose error message becomes an error of the node.\<close>

definition db_call :: "(string \<Rightarrow> goud_error) \<Rightarrow> ('db \<Rightarrow> (string + 'a) \<times> 'db) \<Rightarrow> ('db, fail, 'a) act" where
  "db_call f op db = (let (r, db') = op db in (map_err (\<lambda>e. Fail (f e)) r, db'))"

definition save_block ::
  "'db rocks \<Rightarrow> (block, bytes) codec \<Rightarrow> block \<Rightarrow> ('db, fail, unit) act" where
  "save_block rdb bin b =
     bindS (liftS (map_err (\<lambda>e. Fail (SaveFailed (''Bincode serialization: '' @ e))) (enc bin b)))
       (\<lambda>block_bytes.
     db_call SaveFailed (\<lambda>db. db_write rdb db
       [BPut (block_key (b_index b)) block_bytes,
        BPut chain_length_key (u64_to_le_bytes (b_index b + 1))]))"

definition save_checkpoint :: "'db rocks \<Rightarrow> u64 \<Rightarrow> string \<Rightarrow> ('db, fail, unit) act" where
  "save_checkpoint rdb block_index block_hash =
     db_call SaveFailed (\<lambda>db. db_put rdb db (checkpoint_key block_index) (as_bytes block_hash))"

definition save_metadata :: "'db rocks \<Rightarrow> string \<Rightarrow> string \<Rightarrow> ('db, fail, unit) act" where
  "save_metadata rdb nid schema =
     bindS (db_call SaveFailed (\<lambda>db. db_put rdb db node_id_key (as_bytes nid))) (\<lambda>_.
     db_call SaveFailed (\<lambda>db. db_put rdb db schema_key (as_bytes schema)))"

text \<open>The copy into an eight-byte array panics on any other length.\<close>

definition read_chain_length :: "bytes \<Rightarrow> u64 res" where
  "read_chain_length bs = (if length bs = 8 then Inr (u64_from_le_bytes bs) else panic)"

definition load_block :: "'db rocks \<Rightarrow> (block, bytes) codec \<Rightarrow> 'db \<Rightarrow> u64 \<Rightarrow> block res" where
  "load_block rdb bin db index =
     (case db_get rdb db (block_key index) of
        Inr (Some bs) \<Rightarrow>
          map_err (\<lambda>e. Fail (LoadFailed (''Bincode deserialization: '' @ e))) (dec bin bs)
      | Inr None \<Rightarrow> Err (LoadFailed (''Missing block at index '' @ show_u64 index))
      | Inl e \<Rightarrow> Err (LoadFailed (''Failed to read block '' @ show_u64 index @ '': '' @ e)))"

definition load_chain :: "'db rocks \<Rightarrow> (block, bytes) codec \<Rightarrow> 'db \<Rightarrow> block list res" where
  "load_chain rdb bin db =
     (case db_get rdb db chain_length_key of
        Inr (Some bs) \<Rightarrow>
          bindE (read_chain_length bs) (\<lambda>chain_length.
          traverse (\<lambda>i. load_block rdb bin db (of_nat i)) [0..<unat chain_length])
      | Inr None \<Rightarrow> Inr []
      | Inl e \<Rightarrow> Err (LoadFailed (''Failed to read chain length: '' @ e)))"

definition load_text :: "'db rocks \<Rightarrow> 'db \<Rightarrow> bytes \<Rightarrow> string \<Rightarrow> string res" where
  "load_text rdb db key what =
     (case db_get rdb db key of
        Inr (Some bs) \<Rightarrow>
          map_err (\<lambda>_. Fail (LoadFailed (''Invalid '' @ what @ '': invalid utf-8''))) (from_utf8 bs)
      | Inr None \<Rightarrow> Inr ''unknown''
      | Inl e \<Rightarrow> Err (LoadFailed (''Failed to read '' @ what @ '': '' @ e)))"

definition load_metadata :: "'db rocks \<Rightarrow> 'db \<Rightarrow> (string \<times> string) res" where
  "load_metadata rdb db =
     bindE (load_text rdb db node_id_key ''node_id'') (\<lambda>nid.
     bindE (load_text rdb db schema_key ''schema_version'') (\<lambda>schema.
     Inr (nid, schema)))"

text \<open>The scan for checkpoints stops at the first missing key. The index is a \<open>u64\<close> that wraps, so on
  a database that had a checkpoint under every multiple the loop would not end: \<open>None\<close>.\<close>

partial_function (option) scan_checkpoints ::
  "'db rocks \<Rightarrow> 'db \<Rightarrow> u64 \<Rightarrow> string list \<Rightarrow> string list res option" where
  "scan_checkpoints rdb db index cps =
     (case db_get rdb db (checkpoint_key index) of
        Inr (Some bs) \<Rightarrow>
          (case from_utf8 bs of
             Inr hash \<Rightarrow> scan_checkpoints rdb db (index + CHECKPOINT_INTERVAL) (cps @ [hash])
           | Inl _ \<Rightarrow> Some (Err (LoadFailed ''Invalid checkpoint hash: invalid utf-8'')))
      | Inr None \<Rightarrow> Some (Inr cps)
      | Inl e \<Rightarrow> Some (Err (LoadFailed (''Failed to read checkpoint: '' @ e))))"

definition load_checkpoints :: "'db rocks \<Rightarrow> 'db \<Rightarrow> string list res option" where
  "load_checkpoints rdb db = scan_checkpoints rdb db CHECKPOINT_INTERVAL []"

definition store_is_empty :: "'db rocks \<Rightarrow> 'db \<Rightarrow> bool res" where
  "store_is_empty rdb db =
     (case db_get rdb db chain_length_key of
        Inr v \<Rightarrow> Inr (v = None)
      | Inl _ \<Rightarrow> panic)"

definition db_delete_key :: "'db rocks \<Rightarrow> bytes \<Rightarrow> ('db, fail, unit) act" where
  "db_delete_key rdb k = db_call SaveFailed (\<lambda>db. db_delete rdb db k)"

fun delete_blocks :: "'db rocks \<Rightarrow> nat list \<Rightarrow> ('db, fail, unit) act" where
  "delete_blocks rdb [] = retS ()"
| "delete_blocks rdb (i # is) =
     bindS (db_delete_key rdb (block_key (of_nat i))) (\<lambda>_. delete_blocks rdb is)"

definition clear_all :: "'db rocks \<Rightarrow> ('db, fail, unit) act" where
  "clear_all rdb db =
     (case db_get rdb db chain_length_key of
        Inr (Some bs) \<Rightarrow>
          bindS (liftS (read_chain_length bs)) (\<lambda>chain_length.
          bindS (delete_blocks rdb [0..<unat chain_length]) (\<lambda>_.
          bindS (db_delete_key rdb chain_length_key) (\<lambda>_.
          bindS (db_delete_key rdb node_id_key) (\<lambda>_.
          db_delete_key rdb schema_key)))) db
      | Inr None \<Rightarrow> (Inr (), db)
      | Inl e \<Rightarrow> (Err (SaveFailed (''Failed to read chain length: '' @ e)), db))"

text \<open>What the request handlers and the network do with a new block: save it, save the checkpoint when
  its index is a multiple of the interval, and only log a failure.\<close>

definition persist_block :: "'db rocks \<Rightarrow> (block, bytes) codec \<Rightarrow> block \<Rightarrow> 'db \<Rightarrow> 'db" where
  "persist_block rdb bin b db =
     (let db = snd (save_block rdb bin b db)
      in if b_index b mod CHECKPOINT_INTERVAL = 0 then snd (save_checkpoint rdb (b_index b) (b_hash b) db)
         else db)"

text \<open>A fresh blockchain, with its first block and the metadata saved.\<close>

definition create_and_save ::
  "'z node_env_scheme \<Rightarrow> 'db rocks \<Rightarrow> (block, bytes) codec \<Rightarrow> bytes \<Rightarrow> string \<Rightarrow> validator_config
     \<Rightarrow> ('db, fail, blockchain) act" where
  "create_and_save env rdb bin new_key nid cfg =
     bindS (liftS (blockchain_new env new_key
              \<lparr>bs_now = 0, bs_jitter = 0, bs_salt = [], bs_nonce = (\<lambda>_. [])\<rparr> nid cfg)) (\<lambda>bc.
     bindS (case chain bc of genesis # _ \<Rightarrow> save_block rdb bin genesis | [] \<Rightarrow> retS ()) (\<lambda>_.
     bindS (save_metadata rdb nid SCHEMA_VERSION) (\<lambda>_.
     retS bc)))"

text \<open>\<open>None\<close> when the checkpoint scan does not end.\<close>

definition load_blockchain ::
  "'z node_env_scheme \<Rightarrow> 'db rocks \<Rightarrow> (block, bytes) codec \<Rightarrow> bytes \<Rightarrow> string \<Rightarrow> validator_config
     \<Rightarrow> 'db \<Rightarrow> (blockchain res \<times> 'db) option" where
  "load_blockchain env rdb bin new_key nid cfg db =
     (case store_is_empty rdb db of
        Inl e \<Rightarrow> Some (Inl e, db)
      | Inr True \<Rightarrow> Some (create_and_save env rdb bin new_key nid cfg db)
      | Inr False \<Rightarrow>
          (case load_metadata rdb db of
             Inl e \<Rightarrow> Some (Inl e, db)
           | Inr (stored_node_id, stored_schema) \<Rightarrow>
               if stored_schema \<noteq> SCHEMA_VERSION
               then Some (bindS (clear_all rdb) (\<lambda>_. create_and_save env rdb bin new_key nid cfg) db)
               else
                 (case load_chain rdb bin db of
                    Inl e \<Rightarrow> Some (Inl e, db)
                  | Inr bs \<Rightarrow>
                      (case load_checkpoints rdb db of
                         None \<Rightarrow> None
                       | Some (Inl e) \<Rightarrow> Some (Inl e, db)
                       | Some (Inr cps) \<Rightarrow>
                           Some (Inr \<lparr>schema_version = SCHEMA_VERSION, chain = bs, node_id = nid,
                             checkpoints = cps, pending_accounts_with_keys = [],
                             pending_collections = [], node_signing_key = Some new_key,
                             validator_cfg = cfg\<rparr>, db)))))"

section \<open>The contract of a chain store\<close>

fun save_blocks :: "(block \<Rightarrow> ('db, fail, unit) act) \<Rightarrow> block list \<Rightarrow> ('db, fail, unit) act" where
  "save_blocks save [] = retS ()"
| "save_blocks save (b # bs) = bindS (save b) (\<lambda>_. save_blocks save bs)"

text \<open>\<open>holds db bs\<close>: the store holds the chain \<open>bs\<close>. Appending the next block by its index extends it,
  and loading returns it.\<close>

locale chain_storage =
  fixes save :: "block \<Rightarrow> ('db, fail, unit) act"
    and load :: "'db \<Rightarrow> block list res"
    and holds :: "'db \<Rightarrow> block list \<Rightarrow> bool"
    and savable :: "block \<Rightarrow> bool"
  assumes load_holds: "holds db bs \<Longrightarrow> load db = Inr bs"
    and save_next: "holds db bs \<Longrightarrow> savable b \<Longrightarrow> unat (b_index b) = length bs \<Longrightarrow> Suc (length bs) < 2 ^ 64 \<Longrightarrow>
      \<exists>db'. save b db = (Inr (), db') \<and> holds db' (bs @ [b])"
begin

lemma save_all_load:
  "holds db bs \<Longrightarrow> list_all savable cs \<Longrightarrow> well_indexed (bs @ cs) \<Longrightarrow> length bs + length cs < 2 ^ 64 \<Longrightarrow>
   \<exists>db'. save_blocks save cs db = (Inr (), db') \<and> holds db' (bs @ cs) \<and> load db' = Inr (bs @ cs)"
proof (induction cs arbitrary: db bs)
  case Nil
  then show ?case by (simp add: load_holds)
next
  case (Cons c cs)
  have "unat (b_index c) = length bs"
    using Cons.prems(3) by (auto simp: well_indexed_def nth_append dest: spec [of _ "length bs"])
  with save_next [OF Cons.prems(1), of c] Cons.prems(2,4) obtain db'
    where "save c db = (Inr (), db')" and "holds db' (bs @ [c])" by auto
  with Cons.IH [of db' "bs @ [c]"] Cons.prems show ?case by (auto simp: bindS_def)
qed

end

section \<open>The database fulfils the contract\<close>

lemma key_distinct [simp]:
  "block_key i = block_key j \<longleftrightarrow> i = j" "checkpoint_key i = checkpoint_key j \<longleftrightarrow> i = j"
  "block_key i \<noteq> checkpoint_key j" "checkpoint_key j \<noteq> block_key i"
  "block_key i \<noteq> chain_length_key" "chain_length_key \<noteq> block_key i"
  "block_key i \<noteq> node_id_key" "node_id_key \<noteq> block_key i"
  "block_key i \<noteq> schema_key" "schema_key \<noteq> block_key i"
  "checkpoint_key i \<noteq> chain_length_key" "chain_length_key \<noteq> checkpoint_key i"
  "checkpoint_key i \<noteq> node_id_key" "node_id_key \<noteq> checkpoint_key i"
  "checkpoint_key i \<noteq> schema_key" "schema_key \<noteq> checkpoint_key i"
  by (simp_all add: block_key_def checkpoint_key_def del: as_bytes_append)

definition store_laws :: "'db rocks \<Rightarrow> ('db \<Rightarrow> bool) \<Rightarrow> (block, bytes) codec \<Rightarrow> bool" where
  "store_laws rdb healthy bin \<longleftrightarrow> rocks_ok rdb healthy \<and> codec_ok bin"

definition chain_held :: "(block, bytes) codec \<Rightarrow> (bytes \<rightharpoonup> bytes) \<Rightarrow> block list \<Rightarrow> bool" where
  "chain_held bin m bs \<longleftrightarrow>
     m chain_length_key = (if bs = [] then None else Some (u64_to_le_bytes (of_nat (length bs))))
     \<and> length bs < 2 ^ 64
     \<and> (\<forall>i<length bs. \<exists>v. enc bin (bs ! i) = Inr v \<and> m (block_key (of_nat i)) = Some v)"

definition store_holds ::
  "'db rocks \<Rightarrow> ('db \<Rightarrow> bool) \<Rightarrow> (block, bytes) codec \<Rightarrow> 'db \<Rightarrow> block list \<Rightarrow> bool" where
  "store_holds rdb healthy bin db bs \<longleftrightarrow>
     store_laws rdb healthy bin \<and> healthy db \<and> chain_held bin (contents rdb db) bs"

lemma of_nat_u64_inject: "i < 2 ^ 64 \<Longrightarrow> j < 2 ^ 64 \<Longrightarrow> (of_nat i :: u64) = of_nat j \<longleftrightarrow> i = j"
  by (simp add: word_unat_eq_iff unat_of_nat)

lemma unat_of_nat_u64: "i < 2 ^ 64 \<Longrightarrow> unat (of_nat i :: u64) = i"
  by (simp add: unat_of_nat)

lemma chain_held_append:
  assumes "chain_held bin m bs" and "enc bin b = Inr v" and "Suc (length bs) < 2 ^ 64"
    and "unat (b_index b) = length bs"
  shows "chain_held bin (m(block_key (b_index b) \<mapsto> v, chain_length_key \<mapsto> u64_to_le_bytes (b_index b + 1))) (bs @ [b])"
proof -
  have idx: "b_index b = of_nat (length bs)" by (simp flip: assms(4))
  have "\<exists>v'. enc bin ((bs @ [b]) ! i) = Inr v' \<and>
      (m(block_key (b_index b) \<mapsto> v, chain_length_key \<mapsto> u64_to_le_bytes (b_index b + 1))) (block_key (of_nat i)) = Some v'"
    if "i < length (bs @ [b])" for i
  proof (cases "i = length bs")
    case True
    with assms(2) show ?thesis by (simp add: idx)
  next
    case False
    with that assms(3) have "i < length bs" "(of_nat i :: u64) \<noteq> of_nat (length bs)"
      by (auto simp: of_nat_u64_inject)
    with assms(1) show ?thesis by (auto simp: chain_held_def idx nth_append)
  qed
  with assms(3) show ?thesis by (simp add: chain_held_def idx add.commute)
qed

lemma save_block_ok:
  assumes "rocks_ok rdb healthy" and "healthy db" and "enc bin b = Inr v"
  obtains db' where "save_block rdb bin b db = (Inr (), db')" and "healthy db'"
    and "contents rdb db' = (contents rdb db)(block_key (b_index b) \<mapsto> v,
      chain_length_key \<mapsto> u64_to_le_bytes (b_index b + 1))"
  by (rule rocks_write [OF assms(1,2), of "[BPut (block_key (b_index b)) v,
        BPut chain_length_key (u64_to_le_bytes (b_index b + 1))]"])
    (auto simp: save_block_def assms(3) db_call_def intro: that)

lemma load_chain_held:
  assumes "store_holds rdb healthy bin db bs"
  shows "load_chain rdb bin db = Inr bs"
proof -
  from assms have ok: "rocks_ok rdb healthy" "codec_ok bin" "healthy db" and held: "chain_held bin (contents rdb db) bs"
    by (auto simp: store_holds_def store_laws_def)
  note get = rocks_get [OF ok(1,3)]
  have "load_block rdb bin db (of_nat i) = Inr (bs ! i)" if "i < length bs" for i
    using that held by (auto simp: chain_held_def load_block_def get dest!: codec_okD [OF ok(2)])
  then have "traverse (\<lambda>i. load_block rdb bin db (of_nat i)) [0..<length bs] = Inr bs"
    by (simp add: traverse_Inr_iff list_all2_conv_all_nth)
  with held show ?thesis
    by (auto simp: load_chain_def get chain_held_def read_chain_length_def unat_of_nat_u64)
qed

interpretation store: chain_storage "save_block rdb bin" "load_chain rdb bin" "store_holds rdb healthy bin"
    "\<lambda>b. \<exists>v. enc bin b = Inr v"
  for rdb :: "'db rocks" and healthy :: "'db \<Rightarrow> bool" and bin :: "(block, bytes) codec"
proof unfold_locales
  fix db bs b
  assume h: "store_holds rdb healthy bin db bs" and "\<exists>v. enc bin b = Inr v"
    and n: "unat (b_index b) = length bs" "Suc (length bs) < 2 ^ 64"
  then obtain v where v: "enc bin b = Inr v" by blast
  from h have ok: "rocks_ok rdb healthy" "healthy db" and held: "chain_held bin (contents rdb db) bs"
    by (auto simp: store_holds_def store_laws_def)
  from save_block_ok [OF ok v] chain_held_append [OF held v n(2,1)] h
  show "\<exists>db'. save_block rdb bin b db = (Inr (), db') \<and> store_holds rdb healthy bin db' (bs @ [b])"
    by (metis store_holds_def)
qed (rule load_chain_held)

section \<open>Checkpoints and metadata\<close>

text \<open>The checkpoints \<open>cps\<close> stand under the first multiples of the interval, and none follows.\<close>

definition cps_held :: "(bytes \<rightharpoonup> bytes) \<Rightarrow> string list \<Rightarrow> bool" where
  "cps_held m cps \<longleftrightarrow>
     (\<forall>k<length cps. m (checkpoint_key (of_nat (100 * Suc k))) = Some (as_bytes (cps ! k))
        \<and> utf8_valid (as_bytes (cps ! k)))
     \<and> (\<forall>k. length cps \<le> k \<and> 100 * Suc k < 2 ^ 64 \<longrightarrow> m (checkpoint_key (of_nat (100 * Suc k))) = None)
     \<and> 100 * Suc (length cps) < 2 ^ 64"

lemma scan_checkpoints_held:
  assumes get: "\<And>k. db_get rdb db k = Inr (m k)" and held: "cps_held m cps" and "n \<le> length cps"
  shows "scan_checkpoints rdb db (of_nat (100 * Suc n)) (take n cps) = Some (Inr cps)"
  using assms(3)
proof (induction "length cps - n" arbitrary: n)
  case 0
  then have n: "n = length cps" by simp
  then have "m (checkpoint_key (of_nat (100 * Suc n))) = None" using held by (simp add: cps_held_def)
  then show ?case unfolding scan_checkpoints.simps [of rdb db "of_nat (100 * Suc n)"] get by (simp add: n)
next
  case (Suc d)
  then have n: "n < length cps" by simp
  have next': "(of_nat (100 * Suc n) :: u64) + 100 = of_nat (100 * Suc (Suc n))" by simp
  have "m (checkpoint_key (of_nat (100 * Suc n))) = Some (as_bytes (cps ! n))"
    and "from_utf8 (as_bytes (cps ! n)) = Inr (cps ! n)"
    using held n by (auto simp: cps_held_def from_utf8_as_bytes)
  then have "scan_checkpoints rdb db (of_nat (100 * Suc n)) (take n cps)
      = scan_checkpoints rdb db (of_nat (100 * Suc n) + 100) (take n cps @ [cps ! n])"
    unfolding scan_checkpoints.simps [of rdb db "of_nat (100 * Suc n)"] get by simp
  also have "take n cps @ [cps ! n] = take (Suc n) cps" using n by (simp add: take_Suc_conv_app_nth)
  also have "scan_checkpoints rdb db (of_nat (100 * Suc n) + 100) (take (Suc n) cps) = Some (Inr cps)"
    unfolding next' by (rule Suc.hyps(1)) (use Suc in auto)
  finally show ?case .
qed

text \<open>The store mirrors the blockchain: chain, checkpoints and schema version.\<close>

definition in_sync ::
  "'db rocks \<Rightarrow> ('db \<Rightarrow> bool) \<Rightarrow> (block, bytes) codec \<Rightarrow> blockchain \<Rightarrow> 'db \<Rightarrow> bool" where
  "in_sync rdb healthy bin bc db \<longleftrightarrow>
     store_holds rdb healthy bin db (chain bc) \<and> chain bc \<noteq> [] \<and> well_indexed (chain bc)
     \<and> cps_held (contents rdb db) (checkpoints bc)
     \<and> length (checkpoints bc) = (length (chain bc) - 1) div 100
     \<and> contents rdb db schema_key = Some (as_bytes SCHEMA_VERSION)
     \<and> (\<exists>s. contents rdb db node_id_key = Some (as_bytes s) \<and> utf8_valid (as_bytes s))"

lemma schema_text: "from_utf8 (as_bytes SCHEMA_VERSION) = Inr SCHEMA_VERSION"
  by (rule from_utf8_as_bytes) (simp add: SCHEMA_VERSION_def as_bytes_def)

lemma in_sync_load:
  assumes "in_sync rdb healthy bin bc db"
  shows "load_blockchain env rdb bin new_key nid cfg db =
    Some (Inr \<lparr>schema_version = SCHEMA_VERSION, chain = chain bc, node_id = nid, checkpoints = checkpoints bc,
      pending_accounts_with_keys = [], pending_collections = [], node_signing_key = Some new_key,
      validator_cfg = cfg\<rparr>, db)"
proof -
  have ok: "rocks_ok rdb healthy" "healthy db" and holds: "store_holds rdb healthy bin db (chain bc)"
    using assms by (auto simp: in_sync_def store_holds_def store_laws_def)
  note get = rocks_get [OF ok]
  have "store_is_empty rdb db = Inr False"
    using assms by (simp add: store_is_empty_def get in_sync_def store_holds_def chain_held_def)
  moreover obtain s where "load_metadata rdb db = Inr (s, SCHEMA_VERSION)"
    using assms by (auto simp: load_metadata_def load_text_def get in_sync_def schema_text from_utf8_as_bytes)
  moreover have "load_checkpoints rdb db = Some (Inr (checkpoints bc))"
    using scan_checkpoints_held [OF get, of "checkpoints bc" 0] assms
    by (simp add: load_checkpoints_def in_sync_def)
  ultimately show ?thesis
    by (simp add: load_blockchain_def load_chain_held [OF holds])
qed

lemma in_sync_append:
  assumes sync: "in_sync rdb healthy bin bc db" and "make_block env seed bc = Inr b"
    and "enc bin b = Inr v" and "utf8_valid (as_bytes (b_hash b))" and "length (chain bc) < 2 ^ 63"
    and add: "add_block env seed bc = (Inr b, bc')"
  shows "in_sync rdb healthy bin bc' (persist_block rdb bin b db)"
proof -
  let ?n = "length (chain bc)" and ?m = "contents rdb db"
  from sync have laws: "store_laws rdb healthy bin" and ok: "rocks_ok rdb healthy" "healthy db"
    and held: "chain_held bin ?m (chain bc)" and wi: "well_indexed (chain bc)" and ne: "chain bc \<noteq> []"
    and cps: "cps_held ?m (checkpoints bc)" "length (checkpoints bc) = (?n - 1) div 100"
    by (auto simp: in_sync_def store_holds_def store_laws_def)
  have last_idx: "unat (b_index (last (chain bc))) = ?n - 1"
    using wi ne by (simp add: well_indexed_def last_conv_nth)
  have "b_index b = b_index (last (chain bc)) + 1"
    using assms(2) by (rule make_block_cases) simp
  moreover have "unat (b_index (last (chain bc)) + 1) = ?n"
    using last_idx ne assms(5) by (simp add: unat_word_ariths)
  ultimately have idx: "unat (b_index b) = ?n" by simp
  then have idx': "b_index b = of_nat ?n" by (simp flip: idx)
  have dvd: "b_index b mod 100 = 0 \<longleftrightarrow> 100 dvd ?n"
    using idx by (simp add: word_unat_eq_iff unat_mod mod_eq_0_iff_dvd)
  have chain': "chain bc' = chain bc @ [b]"
    and cps': "checkpoints bc' = checkpoints bc @ (if 100 dvd ?n then [b_hash b] else [])"
    using add unfolding add_block_cases dvd by auto
  obtain db1 where save: "save_block rdb bin b db = (Inr (), db1)" and h1: "healthy db1"
    and m1: "contents rdb db1 = ?m(block_key (b_index b) \<mapsto> v, chain_length_key \<mapsto> u64_to_le_bytes (b_index b + 1))"
    by (rule save_block_ok [OF ok assms(3)])
  have held1: "chain_held bin (contents rdb db1) (chain bc')"
    unfolding m1 chain' by (rule chain_held_append [OF held assms(3) _ idx]) (use assms(5) in simp)
  have wi': "well_indexed (chain bc')" using wi idx by (auto simp: chain' well_indexed_def nth_append less_Suc_eq)
  show ?thesis
  proof (cases "100 dvd ?n")
    case False
    have "k div 100 = Suc k div 100" if "\<not> 100 dvd Suc k" for k :: nat
      using that by (simp add: div_Suc dvd_eq_mod_eq_0)
    with False have "length (checkpoints bc') = (length (chain bc') - 1) div 100"
      using cps(2) ne by (cases ?n) (auto simp: chain' cps')
    moreover have "cps_held (contents rdb db1) (checkpoints bc')" using cps(1) False by (simp add: cps' cps_held_def m1)
    ultimately show ?thesis
      using False sync held1 h1 laws wi'
      by (auto simp: in_sync_def persist_block_def save dvd store_holds_def m1 chain')
  next
    case True
    obtain db2 where put: "db_put rdb db1 (checkpoint_key (b_index b)) (as_bytes (b_hash b)) = (Inr (), db2)"
      and h2: "healthy db2" and m2: "contents rdb db2 = (contents rdb db1)(checkpoint_key (b_index b) \<mapsto> as_bytes (b_hash b))"
      by (rule rocks_put [OF ok(1) h1])
    have persist: "persist_block rdb bin b db = db2"
      using True by (simp add: persist_block_def save dvd save_checkpoint_def db_call_def put)
    have held2: "chain_held bin (contents rdb db2) (chain bc')" using held1 by (simp add: chain_held_def m2)
    have k: "?n = 100 * Suc (length (checkpoints bc))"
    proof -
      from True obtain j where j: "?n = 100 * j" by (auto simp: dvd_def)
      with ne have "j \<noteq> 0" by (metis length_0_conv mult_0_right)
      then obtain i where "j = Suc i" by (cases j) auto
      with j have "?n - 1 = 99 + 100 * i" by simp
      then have "(?n - 1) div 100 = i" by simp
      with cps(2) j \<open>j = Suc i\<close> show ?thesis by simp
    qed
    have "cps_held (contents rdb db2) (checkpoints bc')"
    proof -
      let ?c = "checkpoints bc" and ?m2 = "contents rdb db2"
      have bound: "100 * Suc (Suc (length ?c)) < 2 ^ 64" using assms(5) k by simp
      have key: "(of_nat (100 * Suc i) :: u64) = b_index b \<longleftrightarrow> i = length ?c" if "100 * Suc i < 2 ^ 64" for i
        using that bound unfolding idx' k by (subst of_nat_u64_inject) auto
      have old: "?m2 (checkpoint_key (of_nat (100 * Suc i))) = ?m (checkpoint_key (of_nat (100 * Suc i)))"
        if "i \<noteq> length ?c" "100 * Suc i < 2 ^ 64" for i
        using that key by (simp add: m1 m2 del: of_nat_mult of_nat_Suc mult_Suc_right)
      have new: "?m2 (checkpoint_key (of_nat (100 * Suc (length ?c)))) = Some (as_bytes (b_hash b))"
        using idx' k by (simp add: m2)
      have "100 * Suc i < 2 ^ 64" if "i < length ?c" for i using that bound by simp
      with old new cps(1) assms(4) bound True show ?thesis
        by (auto simp: cps_held_def cps' nth_append less_Suc_eq simp del: of_nat_mult of_nat_Suc mult_Suc_right)
    qed
    moreover have "length (checkpoints bc') = (length (chain bc') - 1) div 100" using k True by (simp add: chain' cps')
    ultimately show ?thesis
      using sync held2 h2 laws wi' by (auto simp: in_sync_def persist store_holds_def m1 m2 chain')
  qed
qed

section \<open>Properties\<close>

text \<open>Saving and loading. On a healthy database that holds a chain, saving further blocks in index
  order succeeds, and loading then returns exactly the whole chain.\<close>

theorem store_roundtrip:
  assumes "rocks_ok rdb healthy" and "codec_ok bin" and "healthy db"
    and "chain_held bin (contents rdb db) bs"
    and "\<forall>c\<in>set cs. \<exists>v. enc bin c = Inr v" and "well_indexed (bs @ cs)" and "length (bs @ cs) < 2 ^ 64"
  shows "\<exists>db'. save_blocks (save_block rdb bin) cs db = (Inr (), db') \<and> load_chain rdb bin db' = Inr (bs @ cs)"
proof -
  have "store_holds rdb healthy bin db bs" using assms(1-4) by (simp add: store_holds_def store_laws_def)
  moreover have "list_all (\<lambda>c. \<exists>v. enc bin c = Inr v) cs" using assms(5) by (simp add: list_all_iff)
  ultimately show ?thesis using store.save_all_load [of rdb healthy bin db bs cs] assms(6,7) by auto
qed

theorem store_roundtrip_witness:
  "let bin = table_codec [demo_genesis 0]
   in \<exists>db'. save_blocks (save_block demo_rocks bin) [demo_genesis 0] [] = (Inr (), db')
        \<and> load_chain demo_rocks bin db' = Inr [demo_genesis 0]"
  using store_roundtrip [OF demo_rocks_ok table_codec_ok, of "[]" "[demo_genesis 0]" "[]" "[demo_genesis 0]"]
  by (simp add: chain_held_def demo_healthy_def well_indexed_def table_codec_def)

text \<open>Restart. While the store mirrors the blockchain, adding a block and persisting it keeps the
  mirror; and restarting from a mirroring store ends and gives back exactly the chain and the
  checkpoints, with no pending data.\<close>

theorem restart_restores:
  assumes "in_sync rdb healthy bin bc db" and "blake3_ok env" and "length (chain bc) < 2 ^ 63"
    and "add_block env seed bc = (Inr b, bc')" and "\<exists>v. enc bin b = Inr v"
  shows "\<exists>bc''. load_blockchain env rdb bin new_key nid cfg (persist_block rdb bin b db)
             = Some (Inr bc'', persist_block rdb bin b db)
         \<and> chain bc'' = chain bc @ [b] \<and> checkpoints bc'' = checkpoints bc'
         \<and> pending_collections bc'' = [] \<and> in_sync rdb healthy bin bc' (persist_block rdb bin b db)"
proof -
  from assms(4) have make: "make_block env seed bc = Inr b" and chain': "chain bc' = chain bc @ [b]"
    by (auto simp: add_block_cases)
  then have "b_hash b = calculate_hash env b" by (auto elim!: make_block_cases dest: block_new_fields(7))
  then have "utf8_valid (as_bytes (b_hash b))"
    using assms(2) by (simp add: calculate_hash_def hash_string_def blake3_ok_def)
  then have sync: "in_sync rdb healthy bin bc' (persist_block rdb bin b db)"
    using assms(5) in_sync_append [OF assms(1) make _ _ assms(3,4)] by blast
  then show ?thesis unfolding in_sync_load [OF sync] by (simp add: chain')
qed

text \<open>A database of the demo node that holds one block under the schema version \<open>schema\<close>.\<close>

definition demo_store :: "(block, bytes) codec \<Rightarrow> string \<Rightarrow> demo_db" where
  "demo_store bin schema =
     [(chain_length_key, u64_to_le_bytes 1),
      (block_key 0, case enc bin (demo_genesis 0) of Inr v \<Rightarrow> v | Inl _ \<Rightarrow> []),
      (node_id_key, as_bytes ''n''), (schema_key, as_bytes schema)]"

lemma demo_store_ok:
  assumes "enc bin (demo_genesis 0) = Inr v"
  shows "demo_healthy (demo_store bin schema)"
    and "map_of (demo_store bin schema) chain_length_key = Some (u64_to_le_bytes 1)"
    and "map_of (demo_store bin schema) (block_key 0) = Some v"
    and "map_of (demo_store bin schema) node_id_key = Some (as_bytes ''n'')"
    and "map_of (demo_store bin schema) schema_key = Some (as_bytes schema)"
    and "map_of (demo_store bin schema) (checkpoint_key i) = None"
  by (simp_all add: demo_store_def demo_healthy_def assms)

lemma demo_store_held:
  "enc bin (demo_genesis 0) = Inr v \<Longrightarrow> chain_held bin (map_of (demo_store bin schema)) [demo_genesis 0]"
  by (simp add: chain_held_def demo_store_ok)

theorem restart_restores_witness:
  "let env = demo_node [demo_container [] [demo_col ''o'']] [] []
   in \<exists>b bc'. add_block env (demo_seed 172800 0) (demo_bc 0 [] [demo_col ''o'']) = (Inr b, bc')
        \<and> (let bin = table_codec [demo_genesis 0, b]; db = persist_block demo_rocks bin b (demo_store bin SCHEMA_VERSION)
            in \<exists>bc''. load_blockchain env demo_rocks bin [3] ''n'' demo_config db = Some (Inr bc'', db)
                 \<and> chain bc'' = [demo_genesis 0, b])"
proof -
  let ?env = "demo_node [demo_container [] [demo_col ''o'']] [] []"
  let ?bc = "demo_bc 0 [] [demo_col ''o'']" and ?seed = "demo_seed 172800 0"
  have "\<exists>b. make_block ?env ?seed ?bc = Inr b"
    by (rule demo_make_block [where es = "[]"]) simp_all
  then obtain b bc' where add: "add_block ?env ?seed ?bc = (Inr b, bc')" by (auto simp: add_block_def)
  let ?bin = "table_codec [demo_genesis 0, b]" and ?schema = SCHEMA_VERSION
  have e: "enc ?bin (demo_genesis 0) = Inr []" "\<exists>v. enc ?bin b = Inr v" by (simp_all add: table_codec_def)
  have n: "utf8_valid (as_bytes ''n'')" by (simp add: as_bytes_def)
  have "in_sync demo_rocks demo_healthy ?bin ?bc (demo_store ?bin SCHEMA_VERSION)"
    using demo_store_held [OF e(1), of ?schema] demo_rocks_ok table_codec_ok n
    by (simp add: in_sync_def store_holds_def store_laws_def demo_store_ok [OF e(1)] cps_held_def
        well_indexed_def demo_bc_def)
  from restart_restores [OF this demo_node_ok(6) _ add e(2)] add show ?thesis
    by (simp add: Let_def) blast
qed

lemma delete_blocks_ok:
  assumes "rocks_ok rdb healthy"
  shows "healthy db \<Longrightarrow> \<exists>db'. delete_blocks rdb is db = (Inr (), db') \<and> healthy db'
    \<and> (\<forall>k. (\<forall>i. k \<noteq> block_key i) \<longrightarrow> contents rdb db' k = contents rdb db k)"
proof (induction "is" arbitrary: db)
  case (Cons i ix)
  obtain db1 where d: "db_delete rdb db (block_key (of_nat i)) = (Inr (), db1)" and h: "healthy db1"
    and m: "contents rdb db1 = (contents rdb db)(block_key (of_nat i) := None)"
    by (rule rocks_delete [OF assms Cons.prems])
  from Cons.IH [OF h] m show ?case
    by (auto simp: bindS_def db_delete_key_def db_call_def d)
qed auto

lemma clear_all_ok:
  assumes "rocks_ok rdb healthy" and "healthy db" and "chain_held bin (contents rdb db) bs"
  shows "\<exists>db'. clear_all rdb db = (Inr (), db') \<and> healthy db'
    \<and> (\<forall>i. contents rdb db' (checkpoint_key i) = contents rdb db (checkpoint_key i))"
proof (cases "bs = []")
  case True
  with assms show ?thesis by (auto simp: clear_all_def rocks_get chain_held_def)
next
  case False
  with assms(3) have len: "contents rdb db chain_length_key = Some (u64_to_le_bytes (of_nat (length bs)))"
    by (simp add: chain_held_def)
  obtain db1 where d1: "delete_blocks rdb [0..<unat (of_nat (length bs) :: u64)] db = (Inr (), db1)" and h1: "healthy db1"
    and m1: "\<forall>k. (\<forall>i. k \<noteq> block_key i) \<longrightarrow> contents rdb db1 k = contents rdb db k"
    using delete_blocks_ok [OF assms(1,2)] by blast
  obtain db2 where d2: "db_delete rdb db1 chain_length_key = (Inr (), db2)" and h2: "healthy db2"
    and m2: "contents rdb db2 = (contents rdb db1)(chain_length_key := None)"
    by (rule rocks_delete [OF assms(1) h1])
  obtain db3 where d3: "db_delete rdb db2 node_id_key = (Inr (), db3)" and h3: "healthy db3"
    and m3: "contents rdb db3 = (contents rdb db2)(node_id_key := None)"
    by (rule rocks_delete [OF assms(1) h2])
  obtain db4 where d4: "db_delete rdb db3 schema_key = (Inr (), db4)" and h4: "healthy db4"
    and m4: "contents rdb db4 = (contents rdb db3)(schema_key := None)"
    by (rule rocks_delete [OF assms(1) h3])
  have "clear_all rdb db = (Inr (), db4)"
    by (simp add: clear_all_def rocks_get [OF assms(1,2)] len read_chain_length_def bindS_def d1 d2 d3 d4
        db_delete_key_def db_call_def)
  with h4 m1 show ?thesis by (auto simp: m4 m3 m2)
qed

text \<open>A schema reset leaves the old checkpoints behind. When the stored schema version differs,
  loading clears the old chain and starts a fresh one, but the checkpoint keys survive: the
  database still holds, next to the fresh chain, the checkpoints of the discarded one, and the
  next start loads them.\<close>

theorem schema_reset_keeps_checkpoints:
  assumes "rocks_ok rdb healthy" and "healthy db" and "chain_held bin (contents rdb db) bs" and "bs \<noteq> []"
    and "load_metadata rdb db = Inr (stored, schema)" and "schema \<noteq> SCHEMA_VERSION"
    and "load_blockchain env rdb bin new_key nid cfg db = Some (Inr bc, db')"
  shows "checkpoints bc = [] \<and> length (chain bc) = 1
       \<and> (\<forall>i. contents rdb db' (checkpoint_key i) = contents rdb db (checkpoint_key i))"
proof -
  have "store_is_empty rdb db = Inr False"
    using assms(3,4) by (simp add: store_is_empty_def rocks_get [OF assms(1,2)] chain_held_def)
  moreover obtain db1 where c: "clear_all rdb db = (Inr (), db1)" and h1: "healthy db1"
    and m1: "\<forall>i. contents rdb db1 (checkpoint_key i) = contents rdb db (checkpoint_key i)"
    using clear_all_ok [OF assms(1-3)] by blast
  ultimately have create: "create_and_save env rdb bin new_key nid cfg db1 = (Inr bc, db')"
    using assms(5-7) by (simp add: load_blockchain_def bindS_def)
  from create obtain seed db2 where new: "blockchain_new env new_key seed nid cfg = Inr bc"
    and saved: "(case chain bc of genesis # _ \<Rightarrow> save_block rdb bin genesis | [] \<Rightarrow> retS ()) db1 = (Inr (), db2)"
    and meta: "save_metadata rdb nid SCHEMA_VERSION db2 = (Inr (), db')"
    by (auto simp: create_and_save_def res_iff liftS_def)
  from new obtain g where bc: "chain bc = [g]" "checkpoints bc = []" by (auto simp: blockchain_new_def res_iff)
  from saved bc obtain v where v: "enc bin g = Inr v" and s: "save_block rdb bin g db1 = (Inr (), db2)"
    by (auto simp: save_block_def res_iff)
  obtain db2' where "save_block rdb bin g db1 = (Inr (), db2')" and h2: "healthy db2'"
    and "contents rdb db2' = (contents rdb db1)(block_key (b_index g) \<mapsto> v,
      chain_length_key \<mapsto> u64_to_le_bytes (b_index g + 1))"
    by (rule save_block_ok [OF assms(1) h1 v])
  with s have h2: "healthy db2" and m2: "contents rdb db2 = (contents rdb db1)(block_key (b_index g) \<mapsto> v,
      chain_length_key \<mapsto> u64_to_le_bytes (b_index g + 1))" by auto
  obtain db3 where p3: "db_put rdb db2 node_id_key (as_bytes nid) = (Inr (), db3)" and h3: "healthy db3"
    and m3: "contents rdb db3 = (contents rdb db2)(node_id_key \<mapsto> as_bytes nid)"
    by (rule rocks_put [OF assms(1) h2])
  obtain db4 where p4: "db_put rdb db3 schema_key (as_bytes SCHEMA_VERSION) = (Inr (), db4)"
    and m4: "contents rdb db4 = (contents rdb db3)(schema_key \<mapsto> as_bytes SCHEMA_VERSION)"
    by (rule rocks_put [OF assms(1) h3])
  have "db' = db4" using meta by (simp add: save_metadata_def bindS_def db_call_def p3 p4)
  with m1 bc show ?thesis by (simp add: m4 m3 m2)
qed

theorem schema_reset_keeps_checkpoints_witness:
  "let env = demo_node [demo_container [] []] [] []
   in \<exists>g bc db'. (let bin = table_codec [demo_genesis 0, g];
                      db = (checkpoint_key 100, as_bytes ''old'') # demo_store bin ''v7''
        in load_blockchain env demo_rocks bin [3] ''n'' demo_config db = Some (Inr bc, db')
         \<and> length (chain bc) = 1 \<and> contents demo_rocks db' (checkpoint_key 100) = Some (as_bytes ''old''))"
proof -
  let ?env = "demo_node [demo_container [] []] [] []"
  let ?seed = "\<lparr>bs_now = 0, bs_jitter = 0, bs_salt = [], bs_nonce = (\<lambda>_. [])\<rparr>"
  have "\<exists>s. enc (str_codec (table_codec [demo_container [] []])) (demo_container [] []) = Inr s"
    by (simp add: str_codec_def table_codec_def)
  then have "\<exists>bc. blockchain_new ?env [3] ?seed ''n'' demo_config = Inr bc"
    by (auto simp: blockchain_new_def block_new_def Let_def demo_container_def)
  then obtain bc g where new: "blockchain_new ?env [3] ?seed ''n'' demo_config = Inr bc" and g: "chain bc = [g]"
    by (auto simp: blockchain_new_def res_iff)
  let ?bin = "table_codec [demo_genesis 0, g]"
  let ?db = "(checkpoint_key 100, as_bytes ''old'') # demo_store ?bin ''v7''"
  have e: "enc ?bin (demo_genesis 0) = Inr []" "\<exists>v. enc ?bin g = Inr v" by (simp_all add: table_codec_def)
  have held: "chain_held ?bin (contents demo_rocks ?db) [demo_genesis 0]"
    using demo_store_held [OF e(1), of "''v7''"] by (simp add: chain_held_def)
  have healthy: "demo_healthy ?db"
    using demo_store_ok(1,6) [OF e(1)] by (auto simp: demo_healthy_def map_of_eq_None_iff)
  have utf: "utf8_valid (as_bytes ''n'')" "utf8_valid (as_bytes ''v7'')" by (simp_all add: as_bytes_def)
  have get: "db_get demo_rocks ?db k = Inr (map_of ?db k)" for k by (simp add: demo_rocks_def)
  have vals: "map_of ?db node_id_key = Some (as_bytes ''n'')" "map_of ?db schema_key = Some (as_bytes ''v7'')"
      "map_of ?db chain_length_key = Some (u64_to_le_bytes 1)"
    using demo_store_ok [OF e(1)] by simp_all
  have meta: "load_metadata demo_rocks ?db = Inr (''n'', ''v7'')"
    unfolding load_metadata_def load_text_def get vals
    by (simp add: from_utf8_as_bytes [OF utf(1)] from_utf8_as_bytes [OF utf(2)])
  have schema: "''v7'' \<noteq> SCHEMA_VERSION" by (simp add: SCHEMA_VERSION_def)
  obtain db1 where c: "clear_all demo_rocks ?db = (Inr (), db1)"
    using clear_all_ok [OF demo_rocks_ok healthy held] by blast
  have "\<exists>db'. create_and_save ?env demo_rocks ?bin [3] ''n'' demo_config db1 = (Inr bc, db')"
    using e(2) by (auto simp: create_and_save_def new g bindS_def save_block_def save_metadata_def db_call_def
        demo_rocks_def)
  then obtain db' where create: "create_and_save ?env demo_rocks ?bin [3] ''n'' demo_config db1 = (Inr bc, db')"
    by blast
  have "store_is_empty demo_rocks ?db = Inr False"
    unfolding store_is_empty_def get vals by simp
  then have load: "load_blockchain ?env demo_rocks ?bin [3] ''n'' demo_config ?db = Some (Inr bc, db')"
    using schema by (simp add: load_blockchain_def meta bindS_def c create)
  have "contents demo_rocks db' (checkpoint_key 100) = Some (as_bytes ''old'')" "length (chain bc) = 1"
    using schema_reset_keeps_checkpoints [OF demo_rocks_ok healthy held _ meta schema load] by simp_all
  with load show ?thesis unfolding Let_def by blast
qed

end
