(* ===== verification/Goud_Nonce.thy ===== *)
theory Goud_Nonce
  imports Goud_Store
begin

text \<open>
  Replay protection: the nonce store (\<open>src/storage/nonce_store.rs\<close>), a database of nonce expiries
  behind an LRU cache, and signed requests (\<open>src/api/request_signature.rs\<close>) that are checked for
  freshness, an unused nonce and a valid signature. The locale \<open>replay_guard\<close> is what a request check
  relies on: the store behaves like a map from nonces to expiry times. Clock readings are
  arguments, one per call site.
\<close>

section \<open>The nonce store\<close>

record nonce_entry =
  ne_expiry_timestamp :: i64

record ('db, 'c) nonce_store =
  ns_db :: 'db
  ns_cache :: 'c

definition NONCE_EXPIRATION_SECONDS :: i64 where [simp]: "NONCE_EXPIRATION_SECONDS = 300"
definition NONCE_CACHE_SIZE :: nat where "NONCE_CACHE_SIZE = 100000"

definition nonce_store_new :: "('c, nonce_entry) lru \<Rightarrow> 'db \<Rightarrow> ('db, 'c) nonce_store" where
  "nonce_store_new l db = \<lparr>ns_db = db, ns_cache = lru_new l NONCE_CACHE_SIZE\<rparr>"

definition nonce_key :: "string \<Rightarrow> bytes" where
  "nonce_key nonce = as_bytes (''nonce:'' @ nonce)"

text \<open>The look into the cache: whether it answers, and the cache afterwards, without an expired entry.\<close>

definition nonce_in_cache ::
  "('c, nonce_entry) lru \<Rightarrow> i64 \<Rightarrow> string \<Rightarrow> 'c \<Rightarrow> bool \<times> 'c" where
  "nonce_in_cache l now nonce c =
     (case lru_get l c nonce of
        (Some e, c') \<Rightarrow> if ne_expiry_timestamp e > now then (True, c') else (False, lru_pop l c' nonce)
      | (None, c') \<Rightarrow> (False, c'))"

definition is_nonce_used ::
  "'db rocks \<Rightarrow> ('c, nonce_entry) lru \<Rightarrow> i64 \<Rightarrow> string \<Rightarrow> (('db, 'c) nonce_store, fail, bool) act" where
  "is_nonce_used rdb l now nonce st =
     (let (hit, c) = nonce_in_cache l now nonce (ns_cache st);
          st = st\<lparr>ns_cache := c\<rparr>;
          key = nonce_key nonce
      in if hit then (Inr True, st)
         else (case db_get rdb (ns_db st) key of
             Inl e \<Rightarrow> (Err (RocksDbError (''Failed to check nonce: '' @ e)), st)
           | Inr None \<Rightarrow> (Inr False, st)
           | Inr (Some bs) \<Rightarrow>
               if length bs \<noteq> 8 then (Err (RocksDbError ''Invalid nonce expiry format''), st)
               else
                 let expiry = i64_from_be_bytes bs
                 in if expiry > now
                    then (Inr True, st\<lparr>ns_cache := lru_put l (ns_cache st) nonce \<lparr>ne_expiry_timestamp = expiry\<rparr>\<rparr>)
                    else (Inr False, st\<lparr>ns_db := snd (db_delete rdb (ns_db st) key)\<rparr>)))"

definition record_nonce ::
  "'db rocks \<Rightarrow> ('c, nonce_entry) lru \<Rightarrow> i64 \<Rightarrow> string \<Rightarrow> (('db, 'c) nonce_store, fail, unit) act" where
  "record_nonce rdb l now nonce st =
     (let expiry = now + NONCE_EXPIRATION_SECONDS;
          (r, db') = db_put rdb (ns_db st) (nonce_key nonce) (i64_to_be_bytes expiry);
          st = st\<lparr>ns_db := db'\<rparr>
      in case r of
           Inl e \<Rightarrow> (Err (RocksDbError (''Failed to record nonce: '' @ e)), st)
         | Inr _ \<Rightarrow> (Inr (), st\<lparr>ns_cache := lru_put l (ns_cache st) nonce \<lparr>ne_expiry_timestamp = expiry\<rparr>\<rparr>))"

text \<open>The loop over the entries of the iterator, with the count of deletions.\<close>

fun cleanup_loop ::
  "'db rocks \<Rightarrow> i64 \<Rightarrow> (string + bytes \<times> bytes) list \<Rightarrow> u32 \<Rightarrow> ('db, fail, u32) act" where
  "cleanup_loop rdb now [] deleted db = (Inr deleted, db)"
| "cleanup_loop rdb now (Inl e # items) deleted db =
     (Err (RocksDbError (''Failed to iterate nonces: '' @ e)), db)"
| "cleanup_loop rdb now (Inr (key, value) # items) deleted db =
     (if \<not> has_prefix (as_bytes ''nonce:'') key then (Inr deleted, db)
      else if length value = 8 \<and> i64_from_be_bytes value \<le> now
        then cleanup_loop rdb now items (deleted + 1) (snd (db_delete rdb db key))
      else cleanup_loop rdb now items deleted db)"

definition cleanup_expired_nonces ::
  "'db rocks \<Rightarrow> i64 \<Rightarrow> (('db, 'c) nonce_store, fail, u32) act" where
  "cleanup_expired_nonces rdb now st =
     (let (r, db') = cleanup_loop rdb now (db_iter rdb (ns_db st) (as_bytes ''nonce:'')) 0 (ns_db st)
      in (r, st\<lparr>ns_db := db'\<rparr>))"

section \<open>Signed requests\<close>

record 'p signed_request =
  sr_payload :: 'p
  sr_nonce :: string
  sr_timestamp :: i64
  sr_signature :: string
  sr_public_key :: string

definition canonical_message :: "('p, string) codec \<Rightarrow> 'p signed_request \<Rightarrow> string res" where
  "canonical_message js req =
     bindE (map_err (\<lambda>e. Fail (InvalidJson (''Payload serialization failed: '' @ e))) (enc js (sr_payload req)))
       (\<lambda>payload_json. Inr (payload_json @ sr_nonce req @ show_int (sr_timestamp req)))"

text \<open>The timestamp comes from the client: the subtraction wraps.\<close>

definition validate_request_timestamp :: "i64 \<Rightarrow> i64 \<Rightarrow> unit res" where
  "validate_request_timestamp now timestamp =
     (let age = wrap64 (now - timestamp)
      in if age > REQUEST_TIMESTAMP_TOLERANCE_SECONDS then Err AuthenticationFailed
         else if age < - REQUEST_TIMESTAMP_TOLERANCE_SECONDS then Err AuthenticationFailed
         else Inr ())"

text \<open>The check over the two operations of the store that it uses; \<open>clk\<close> gives its three clock
  readings.\<close>

text \<open>The checks before the nonce is recorded, and the whole validation. Requests are served concurrently, and
  nothing keeps the nonce between the two.\<close>

definition check_signed_with ::
  "(i64 \<Rightarrow> string \<Rightarrow> ('s, fail, bool) act) \<Rightarrow> 'z crypto_env_scheme \<Rightarrow> ('p, string) codec \<Rightarrow> (nat \<Rightarrow> i64)
     \<Rightarrow> 'p signed_request \<Rightarrow> ('s, fail, unit) act" where
  "check_signed_with used env js clk req =
     bindS (liftS (validate_request_timestamp (clk 0) (sr_timestamp req))) (\<lambda>_.
     bindS (used (clk 1) (sr_nonce req)) (\<lambda>is_used.
     if is_used then failS (Fail AuthenticationFailed)
     else
       bindS (liftS (canonical_message js req)) (\<lambda>message.
       liftS (map_fail (\<lambda>_. AuthenticationFailed)
                (verify_signature env (as_bytes message) (sr_signature req) (sr_public_key req))))))"

definition validate_with ::
  "(i64 \<Rightarrow> string \<Rightarrow> ('s, fail, bool) act) \<Rightarrow> (i64 \<Rightarrow> string \<Rightarrow> ('s, fail, unit) act)
     \<Rightarrow> 'z crypto_env_scheme \<Rightarrow> ('p, string) codec \<Rightarrow> (nat \<Rightarrow> i64) \<Rightarrow> 'p signed_request
     \<Rightarrow> ('s, fail, unit) act" where
  "validate_with used record' env js clk req =
     bindS (check_signed_with used env js clk req) (\<lambda>_. record' (clk 2) (sr_nonce req))"

lemma validate_with_eq:
  "validate_with used record' env js clk req =
     bindS (liftS (validate_request_timestamp (clk 0) (sr_timestamp req))) (\<lambda>_.
     bindS (used (clk 1) (sr_nonce req)) (\<lambda>is_used.
     if is_used then failS (Fail AuthenticationFailed)
     else
       bindS (liftS (canonical_message js req)) (\<lambda>message.
       bindS (liftS (map_fail (\<lambda>_. AuthenticationFailed)
                (verify_signature env (as_bytes message) (sr_signature req) (sr_public_key req)))) (\<lambda>_.
       record' (clk 2) (sr_nonce req)))))"
  by (auto simp: validate_with_def check_signed_with_def bindS_def liftS_def failS_def fun_eq_iff
      split: sum.splits prod.splits)

definition validate_signed_request ::
  "'db rocks \<Rightarrow> ('c, nonce_entry) lru \<Rightarrow> 'z crypto_env_scheme \<Rightarrow> ('p, string) codec \<Rightarrow> (nat \<Rightarrow> i64)
     \<Rightarrow> 'p signed_request \<Rightarrow> (('db, 'c) nonce_store, fail, unit) act" where
  "validate_signed_request rdb l = validate_with (is_nonce_used rdb l) (record_nonce rdb l)"

section \<open>The contract of a nonce store\<close>

text \<open>A history of request checks and cleanups, the order of its clock readings from a time \<open>T\<close> on,
  and the log of accepted nonces with the time at which each was recorded.\<close>

datatype 'p nonce_op = CheckRequest "nat \<Rightarrow> i64" "'p signed_request" | CleanupAt i64

fun clock_ordered :: "i64 \<Rightarrow> 'p nonce_op list \<Rightarrow> bool" where
  "clock_ordered T [] \<longleftrightarrow> True"
| "clock_ordered T (CheckRequest clk req # ops) \<longleftrightarrow>
     T \<le> clk 0 \<and> clk 0 \<le> clk 1 \<and> clk 1 \<le> clk 2 \<and> in_i64 (clk 2 + 300) \<and> clock_ordered (clk 2) ops"
| "clock_ordered T (CleanupAt t # ops) \<longleftrightarrow> T \<le> t \<and> clock_ordered t ops"

fun accepted_log ::
  "((nat \<Rightarrow> i64) \<Rightarrow> 'p signed_request \<Rightarrow> ('s, fail, unit) act) \<Rightarrow> (i64 \<Rightarrow> ('s, fail, u32) act)
     \<Rightarrow> 'p nonce_op list \<Rightarrow> 's \<Rightarrow> (string \<times> i64) list" where
  "accepted_log val clean [] s = []"
| "accepted_log val clean (CheckRequest clk req # ops) s =
     (case val clk req s of
        (Inr _, s') \<Rightarrow> (sr_nonce req, clk 2) # accepted_log val clean ops s'
      | (Inl _, s') \<Rightarrow> accepted_log val clean ops s')"
| "accepted_log val clean (CleanupAt t # ops) s = accepted_log val clean ops (snd (clean t s))"

text \<open>The checks of a request that do not depend on the store, and when a request is to be accepted,
  given the expiries \<open>m\<close> of the nonces in use.\<close>

definition signature_checks :: "'z crypto_env_scheme \<Rightarrow> ('p, string) codec \<Rightarrow> 'p signed_request \<Rightarrow> unit res" where
  "signature_checks env js req =
     bindE (canonical_message js req) (\<lambda>message.
       map_fail (\<lambda>_. AuthenticationFailed)
         (verify_signature env (as_bytes message) (sr_signature req) (sr_public_key req)))"

definition acceptable ::
  "'z crypto_env_scheme \<Rightarrow> ('p, string) codec \<Rightarrow> i64 \<Rightarrow> i64 \<Rightarrow> (string \<rightharpoonup> i64) \<Rightarrow> 'p signed_request \<Rightarrow> bool" where
  "acceptable env js now now' m req \<longleftrightarrow>
     validate_request_timestamp now (sr_timestamp req) = Inr ()
     \<and> signature_checks env js req = Inr ()
     \<and> \<not> (\<exists>e. m (sr_nonce req) = Some e \<and> now' < e)"

text \<open>\<open>guards s T m\<close>: at time \<open>T\<close> the store knows exactly the expiries of \<open>m\<close> that lie after \<open>T\<close>.\<close>

locale replay_guard =
  fixes used :: "i64 \<Rightarrow> string \<Rightarrow> ('s, fail, bool) act"
    and record' :: "i64 \<Rightarrow> string \<Rightarrow> ('s, fail, unit) act"
    and cleanup :: "i64 \<Rightarrow> ('s, fail, u32) act"
    and guards :: "'s \<Rightarrow> i64 \<Rightarrow> (string \<rightharpoonup> i64) \<Rightarrow> bool"
  assumes used_exact: "guards s T m \<Longrightarrow> T \<le> now \<Longrightarrow>
      \<exists>s'. used now n s = (Inr (\<exists>e. m n = Some e \<and> now < e), s') \<and> guards s' now m"
    and record_extends: "guards s T m \<Longrightarrow> T \<le> now \<Longrightarrow> in_i64 (now + 300) \<Longrightarrow>
      \<exists>s'. record' now n s = (Inr (), s') \<and> guards s' now (m(n \<mapsto> now + 300))"
    and cleanup_keeps: "guards s T m \<Longrightarrow> T \<le> now \<Longrightarrow> guards (snd (cleanup now s)) now m"
    and guards_later: "guards s T m \<Longrightarrow> T \<le> T' \<Longrightarrow> guards s T' m"
begin

lemma validate_step:
  assumes g: "guards s T m" and clk: "T \<le> clk 0" "clk 0 \<le> clk 1" "clk 1 \<le> clk 2" "in_i64 (clk 2 + 300)"
  obtains (accepted) s' where "validate_with used record' env js clk req s = (Inr (), s')"
      and "guards s' (clk 2) (m(sr_nonce req \<mapsto> clk 2 + 300))"
      and "acceptable env js (clk 0) (clk 1) m req"
    | (rejected) err s' where "validate_with used record' env js clk req s = (Inl err, s')"
      and "guards s' (clk 2) m" and "\<not> acceptable env js (clk 0) (clk 1) m req"
proof (cases "validate_request_timestamp (clk 0) (sr_timestamp req)")
  case (Inl err)
  have "validate_with used record' env js clk req s = (Inl err, s)"
    by (simp add: validate_with_eq bindS_def Inl)
  moreover have "guards s (clk 2) m" using g clk guards_later [of s T m "clk 2"] by simp
  ultimately show thesis by (rule rejected) (simp add: acceptable_def Inl)
next
  case Fresh: (Inr u)
  let ?used = "\<exists>e. m (sr_nonce req) = Some e \<and> clk 1 < e"
  obtain s1 where u: "used (clk 1) (sr_nonce req) s = (Inr ?used, s1)"
    and g1: "guards s1 (clk 1) m" using used_exact [OF g, of "clk 1" "sr_nonce req"] clk by auto
  have g2: "guards s1 (clk 2) m" using g1 clk(3) guards_later by blast
  have run: "validate_with used record' env js clk req s =
      (if ?used then (Inl (Fail AuthenticationFailed), s1)
       else case signature_checks env js req of
           Inl err \<Rightarrow> (Inl err, s1) | Inr _ \<Rightarrow> record' (clk 2) (sr_nonce req) s1)"
    using Fresh u by (cases "canonical_message js req")
      (auto simp: validate_with_eq signature_checks_def bindS_def split: sum.splits)
  show thesis
  proof (cases ?used)
    case True
    then have "validate_with used record' env js clk req s = (Inl (Fail AuthenticationFailed), s1)"
      unfolding run by (rule if_P)
    then show thesis using g2 by (rule rejected) (use True in \<open>simp add: acceptable_def\<close>)
  next
    case unused: False
    show thesis
    proof (cases "signature_checks env js req")
      case (Inl err)
      then have "validate_with used record' env js clk req s = (Inl err, s1)"
        unfolding run if_not_P [OF unused] by simp
      then show thesis using g2 by (rule rejected) (simp add: acceptable_def Inl)
    next
      case (Inr v)
      obtain s2 where r: "record' (clk 2) (sr_nonce req) s1 = (Inr (), s2)"
        and g3: "guards s2 (clk 2) (m(sr_nonce req \<mapsto> clk 2 + 300))"
        using record_extends [OF g1 clk(3,4), of "sr_nonce req"] by auto
      have "validate_with used record' env js clk req s = (Inr (), s2)"
        unfolding run if_not_P [OF unused] Inr by (simp add: r)
      moreover have "acceptable env js (clk 0) (clk 1) m req"
        using unused Inr Fresh by (simp add: acceptable_def)
      ultimately show thesis using g3 accepted by blast
    qed
  qed
qed

text \<open>A request that was accepted once is accepted again as soon as its nonce has expired, when its
  timestamp is still in the window.\<close>

lemma accepted_again:
  assumes "guards s T m" and "T \<le> t" and "t + 300 \<le> t'" and "in_i64 (t' + 300)"
    and "validate_with used record' env js (\<lambda>_. t) req s = (Inr (), s1)"
    and "validate_request_timestamp t' (sr_timestamp req) = Inr ()" and "in_i64 (t + 300)"
  shows "fst (validate_with used record' env js (\<lambda>_. t') req s1) = Inr ()"
proof -
  let ?m = "m(sr_nonce req \<mapsto> t + 300)"
  have a: "guards s1 t ?m \<and> signature_checks env js req = Inr ()"
    using assms(1,2) order_refl order_refl assms(7)
  proof (cases rule: validate_step [where env = env and js = js and req = req])
    case (accepted s')
    with assms(5) show ?thesis by (simp add: acceptable_def)
  next
    case (rejected err s')
    with assms(5) show ?thesis by simp
  qed
  with assms(3,6) have acc: "acceptable env js t' t' ?m req" by (simp add: acceptable_def)
  have "guards s1 t ?m" and "t \<le> t'" using a assms(3) by auto
  then show ?thesis using order_refl order_refl assms(4)
  proof (cases rule: validate_step [where env = env and js = js and req = req])
    case (accepted s')
    then show ?thesis by simp
  next
    case (rejected err s')
    with acc show ?thesis by simp
  qed
qed

text \<open>Two copies of a request that both pass their checks before either is recorded are both accepted.\<close>

lemma check_accepts:
  assumes "guards s T m" and "T \<le> t" and "acceptable env js t t m req"
  shows "\<exists>s'. check_signed_with used env js (\<lambda>_. t) req s = (Inr (), s') \<and> guards s' t m"
proof -
  from used_exact [OF assms(1,2), of "sr_nonce req"] assms(3)
  obtain s' where "used t (sr_nonce req) s = (Inr False, s')" and "guards s' t m" by (auto simp: acceptable_def)
  with assms(3) show ?thesis
    by (cases "canonical_message js req")
      (auto simp: acceptable_def check_signed_with_def signature_checks_def bindS_def)
qed

lemma both_accepted:
  assumes "guards s T m" and "T \<le> a" "a \<le> b" "b \<le> c" "c \<le> d" and "in_i64 (c + 300)" "in_i64 (d + 300)"
    and "acceptable env js a a m req" and "validate_request_timestamp b (sr_timestamp req) = Inr ()"
  shows "\<exists>s1 s2 s3 s4. check_signed_with used env js (\<lambda>_. a) req s = (Inr (), s1)
    \<and> check_signed_with used env js (\<lambda>_. b) req s1 = (Inr (), s2)
    \<and> record' c (sr_nonce req) s2 = (Inr (), s3) \<and> record' d (sr_nonce req) s3 = (Inr (), s4)"
proof -
  obtain s1 where 1: "check_signed_with used env js (\<lambda>_. a) req s = (Inr (), s1)" "guards s1 a m"
    using check_accepts [OF assms(1,2,8)] by blast
  have "acceptable env js b b m req" using assms(3,8,9) by (auto simp: acceptable_def)
  then obtain s2 where 2: "check_signed_with used env js (\<lambda>_. b) req s1 = (Inr (), s2)" "guards s2 b m"
    using check_accepts [OF 1(2) assms(3)] by blast
  obtain s3 where 3: "record' c (sr_nonce req) s2 = (Inr (), s3)" "guards s3 c (m(sr_nonce req \<mapsto> c + 300))"
    using record_extends [OF 2(2) assms(4,6)] by blast
  obtain s4 where "record' d (sr_nonce req) s3 = (Inr (), s4)" using record_extends [OF 3(2) assms(5,7)] by blast
  with 1(1) 2(1) 3(1) show ?thesis by blast
qed

text \<open>One after the other, the second copy is rejected while the nonce is in use.\<close>

lemma second_rejected:
  assumes "guards s T m" and "T \<le> a" "a \<le> b" "b < a + 300" and "in_i64 (a + 300)" "in_i64 (b + 300)"
    and "acceptable env js a a m req"
  shows "\<exists>s1. validate_with used record' env js (\<lambda>_. a) req s = (Inr (), s1)
    \<and> \<not> is_ok (fst (validate_with used record' env js (\<lambda>_. b) req s1))"
proof -
  obtain s1 where 1: "validate_with used record' env js (\<lambda>_. a) req s = (Inr (), s1)"
    and g: "guards s1 a (m(sr_nonce req \<mapsto> a + 300))"
    using assms(1,2) order_refl order_refl assms(5)
    by (cases rule: validate_step [where env = env and js = js and req = req]) (use assms(7) in auto)
  have used: "\<not> acceptable env js b b (m(sr_nonce req \<mapsto> a + 300)) req" using assms(4) by (simp add: acceptable_def)
  have "\<not> is_ok (fst (validate_with used record' env js (\<lambda>_. b) req s1))"
    using g assms(3) order_refl order_refl assms(6)
    by (cases rule: validate_step [where env = env and js = js and req = req]) (use used in auto)
  with 1 show ?thesis by blast
qed

lemma log_spaced:
  assumes "guards s T m" and "clock_ordered T ops"
  shows "sorted_wrt (\<lambda>(n, t) (n', t'). n = n' \<longrightarrow> t + 300 \<le> t') (accepted_log (validate_with used record' env js) cleanup ops s)
    \<and> (\<forall>(n, t)\<in>set (accepted_log (validate_with used record' env js) cleanup ops s).
         T \<le> t \<and> (\<forall>e. m n = Some e \<and> T < e \<longrightarrow> e \<le> t))"
  using assms
proof (induction ops arbitrary: s T m)
  case (Cons x ops)
  show ?case
  proof (cases x)
    case (CleanupAt t)
    with Cons.prems have "guards (snd (cleanup t s)) t m" and "clock_ordered t ops" and "T \<le> t"
      using cleanup_keeps by auto
    with Cons.IH [of "snd (cleanup t s)" t m] CleanupAt show ?thesis by fastforce
  next
    case (CheckRequest clk req)
    let ?n = "sr_nonce req"
    from Cons.prems CheckRequest have clk: "T \<le> clk 0" "clk 0 \<le> clk 1" "clk 1 \<le> clk 2" "in_i64 (clk 2 + 300)"
      and later: "clock_ordered (clk 2) ops" by auto
    from Cons.prems(1) clk show ?thesis
    proof (cases rule: validate_step [where env = env and js = js and req = req])
      case (accepted s')
      from accepted(3) have "\<forall>e. m ?n = Some e \<longrightarrow> e \<le> clk 1" by (auto simp: acceptable_def not_less)
      with Cons.IH [OF accepted(2) later] accepted(1) CheckRequest clk show ?thesis
        by (fastforce split: if_splits)
    next
      case (rejected err s')
      from Cons.IH [OF rejected(2) later] rejected(1) CheckRequest clk show ?thesis by fastforce
    qed
  qed
qed simp

end

section \<open>The nonce store fulfils the contract\<close>

lemma nonce_key_inject [simp]: "nonce_key a = nonce_key b \<longleftrightarrow> a = b"
  by (simp add: nonce_key_def)

text \<open>The entries \<open>M\<close> of the database are well-formed; of the expiries after \<open>T\<close> they have exactly those
  of \<open>m\<close>, and the entries \<open>C\<close> of the cache have no others.\<close>

definition guarding ::
  "(bytes \<rightharpoonup> bytes) \<Rightarrow> (string \<rightharpoonup> nonce_entry) \<Rightarrow> i64 \<Rightarrow> (string \<rightharpoonup> i64) \<Rightarrow> bool" where
  "guarding M C T m \<longleftrightarrow>
     (\<forall>n bs. M (nonce_key n) = Some bs \<longrightarrow>
        length bs = 8 \<and> (T < i64_from_be_bytes bs \<longrightarrow> m n = Some (i64_from_be_bytes bs)))
   \<and> (\<forall>n e. m n = Some e \<longrightarrow> T < e \<longrightarrow> (\<exists>bs. M (nonce_key n) = Some bs \<and> i64_from_be_bytes bs = e))
   \<and> (\<forall>n x. C n = Some x \<longrightarrow> T < ne_expiry_timestamp x \<longrightarrow> m n = Some (ne_expiry_timestamp x))"

definition nonce_guards ::
  "'db rocks \<Rightarrow> ('db \<Rightarrow> bool) \<Rightarrow> ('c, nonce_entry) lru \<Rightarrow> ('db, 'c) nonce_store \<Rightarrow> i64
     \<Rightarrow> (string \<rightharpoonup> i64) \<Rightarrow> bool" where
  "nonce_guards rdb healthy l st T m \<longleftrightarrow>
     rocks_ok rdb healthy \<and> iter_ok rdb healthy \<and> lru_ok l \<and> healthy (ns_db st)
     \<and> guarding (contents rdb (ns_db st)) (lru_peek l (ns_cache st)) T m"

lemma guarding_later: "guarding M C T m \<Longrightarrow> T \<le> T' \<Longrightarrow> guarding M C T' m"
  by (auto simp: guarding_def)

lemma guarding_db:
  assumes "guarding M C T m" and "M (nonce_key n) = Some bs"
  shows "length bs = 8" and "(\<exists>e. m n = Some e \<and> T < e) \<longleftrightarrow> T < i64_from_be_bytes bs"
  using assms by (fastforce simp: guarding_def)+

lemma guarding_absent: "guarding M C T m \<Longrightarrow> M (nonce_key n) = None \<Longrightarrow> \<not> (\<exists>e. m n = Some e \<and> T < e)"
  by (fastforce simp: guarding_def)

lemma guarding_cached:
  "guarding M C T m \<Longrightarrow> C n = Some x \<Longrightarrow> T < ne_expiry_timestamp x \<Longrightarrow> \<exists>e. m n = Some e \<and> T < e"
  by (auto simp: guarding_def)

lemma guarding_forget_cache:
  "guarding M C T m \<Longrightarrow> (\<And>k x. C' k = Some x \<Longrightarrow> C k = Some x) \<Longrightarrow> guarding M C' T m"
  by (simp add: guarding_def)

text \<open>A deletion is harmless when what is deleted is no nonce that is still guarded.\<close>

lemma guarding_delete:
  assumes "guarding M C T m"
    and "\<And>n bs. k = nonce_key n \<Longrightarrow> M k = Some bs \<Longrightarrow> i64_from_be_bytes bs \<le> T"
  shows "guarding (M(k := None)) C T m"
proof -
  have "\<exists>bs. (M(k := None)) (nonce_key n) = Some bs \<and> i64_from_be_bytes bs = e"
    if "m n = Some e" and "T < e" for n e
  proof -
    from assms(1) that obtain bs where bs: "M (nonce_key n) = Some bs" "i64_from_be_bytes bs = e"
      unfolding guarding_def by blast
    with assms(2) [of n bs] that(2) have "nonce_key n \<noteq> k" by auto
    with bs show ?thesis by simp
  qed
  with assms(1) show ?thesis by (simp add: guarding_def)
qed

lemma guarding_cache_put:
  assumes "guarding M C T m" and "M (nonce_key n) = Some bs" and "T < i64_from_be_bytes bs"
    and "C' n = Some \<lparr>ne_expiry_timestamp = i64_from_be_bytes bs\<rparr>"
    and "\<And>k x. k \<noteq> n \<Longrightarrow> C' k = Some x \<Longrightarrow> C k = Some x"
  shows "guarding M C' T m"
proof -
  have "m k = Some (ne_expiry_timestamp x)" if "C' k = Some x" and "T < ne_expiry_timestamp x" for k x
  proof (cases "k = n")
    case True
    with that assms(1-4) show ?thesis by (auto simp: guarding_def)
  next
    case False
    with that assms(1) assms(5) show ?thesis by (simp add: guarding_def)
  qed
  with assms(1) show ?thesis by (simp add: guarding_def)
qed

lemma guarding_record:
  assumes "guarding M C T m" and "i64_from_be_bytes bs = e" and "length bs = 8"
    and "C' n = Some \<lparr>ne_expiry_timestamp = e\<rparr>"
    and "\<And>k x. k \<noteq> n \<Longrightarrow> C' k = Some x \<Longrightarrow> C k = Some x"
  shows "guarding (M(nonce_key n \<mapsto> bs)) C' T (m(n \<mapsto> e))"
  unfolding guarding_def
proof (intro conjI allI impI)
  fix k x assume c: "C' k = Some x" and t: "T < ne_expiry_timestamp x"
  show "(m(n \<mapsto> e)) k = Some (ne_expiry_timestamp x)"
  proof (cases "k = n")
    case True
    with c assms(4) show ?thesis by auto
  next
    case False
    with c t assms(1) assms(5) [of k x] show ?thesis by (simp add: guarding_def)
  qed
next
  fix k b assume "(M(nonce_key n \<mapsto> bs)) (nonce_key k) = Some b"
  with assms(1-3) show "length b = 8" by (auto simp: guarding_def split: if_splits)
next
  fix k b assume "(M(nonce_key n \<mapsto> bs)) (nonce_key k) = Some b" and "T < i64_from_be_bytes b"
  with assms(1-3) show "(m(n \<mapsto> e)) k = Some (i64_from_be_bytes b)"
    by (auto simp: guarding_def split: if_splits)
next
  fix k e' assume "(m(n \<mapsto> e)) k = Some e'" and "T < e'"
  with assms(1,2) show "\<exists>b. (M(nonce_key n \<mapsto> bs)) (nonce_key k) = Some b \<and> i64_from_be_bytes b = e'"
    by (auto simp: guarding_def split: if_splits)
qed

lemma nonce_guards_later:
  "nonce_guards rdb healthy l st T m \<Longrightarrow> T \<le> T' \<Longrightarrow> nonce_guards rdb healthy l st T' m"
  by (auto simp: nonce_guards_def intro: guarding_later)

lemma nonce_in_cache_ok:
  assumes "lru_ok l" and "nonce_in_cache l now n c = (hit, c')"
  shows "hit \<longleftrightarrow> (\<exists>x. lru_peek l c n = Some x \<and> now < ne_expiry_timestamp x)"
    and "lru_peek l c' k = Some x \<Longrightarrow> lru_peek l c k = Some x"
proof -
  obtain r c1 where g: "lru_get l c n = (r, c1)" by (cases "lru_get l c n")
  have peek: "lru_peek l c n = r" "lru_peek l c1 k = lru_peek l c k" for k
    using lru_simps(2) [OF assms(1), of c n k] by (simp_all add: lru_peek_def g)
  show "hit \<longleftrightarrow> (\<exists>x. lru_peek l c n = Some x \<and> now < ne_expiry_timestamp x)"
    using assms(2) peek(1) by (auto simp: nonce_in_cache_def g split: option.splits if_splits)
  show "lru_peek l c k = Some x" if "lru_peek l c' k = Some x"
    using assms(2) that peek(2) [of k] lru_simps(7) [OF assms(1), of c1 n k]
    by (auto simp: nonce_in_cache_def g split: option.splits if_splits)
qed

lemma is_nonce_used_exact:
  assumes g: "nonce_guards rdb healthy l st T m" and "T \<le> now"
  shows "\<exists>st'. is_nonce_used rdb l now n st = (Inr (\<exists>e. m n = Some e \<and> now < e), st')
    \<and> nonce_guards rdb healthy l st' now m"
proof -
  let ?used = "\<exists>e. m n = Some e \<and> now < e"
  from nonce_guards_later [OF g assms(2)] have ok: "rocks_ok rdb healthy" "iter_ok rdb healthy" "lru_ok l"
    and h: "healthy (ns_db st)"
    and gd: "guarding (contents rdb (ns_db st)) (lru_peek l (ns_cache st)) now m"
    by (simp_all add: nonce_guards_def)
  note get = rocks_get [OF ok(1) h]
  obtain hit c where look: "nonce_in_cache l now n (ns_cache st) = (hit, c)"
    by (cases "nonce_in_cache l now n (ns_cache st)")
  note look' = nonce_in_cache_ok [OF ok(3) look]
  have g1: "guarding (contents rdb (ns_db st)) (lru_peek l c) now m"
    using gd look'(2) by (rule guarding_forget_cache)
  show ?thesis
  proof (cases hit)
    case True
    with look'(1) have u: ?used using guarding_cached [OF gd] by blast
    have "is_nonce_used rdb l now n st = (Inr True, st\<lparr>ns_cache := c\<rparr>)"
      using True by (simp add: is_nonce_used_def look)
    with u ok h g1 show ?thesis by (simp add: nonce_guards_def)
  next
    case miss: False
    show ?thesis
    proof (cases "contents rdb (ns_db st) (nonce_key n)")
      case None
      have "is_nonce_used rdb l now n st = (Inr False, st\<lparr>ns_cache := c\<rparr>)"
        using miss None by (simp add: is_nonce_used_def look get)
      with guarding_absent [OF gd None] ok h g1 show ?thesis by (simp add: nonce_guards_def)
    next
      case (Some bs)
      note bs = guarding_db [OF g1 Some]
      show ?thesis
      proof (cases "now < i64_from_be_bytes bs")
        case True
        let ?c = "lru_put l c n \<lparr>ne_expiry_timestamp = i64_from_be_bytes bs\<rparr>"
        have "is_nonce_used rdb l now n st = (Inr True, st\<lparr>ns_cache := ?c\<rparr>)"
          using miss True bs(1) by (simp add: is_nonce_used_def look get Some)
        moreover have "guarding (contents rdb (ns_db st)) (lru_peek l ?c) now m"
          by (rule guarding_cache_put [OF g1 Some True lru_simps(5) [OF ok(3)]]) (rule lru_put_other [OF ok(3)])
        ultimately show ?thesis using True bs(2) ok h by (simp add: nonce_guards_def)
      next
        case old: False
        obtain db' where d: "db_delete rdb (ns_db st) (nonce_key n) = (Inr (), db')" and h': "healthy db'"
          and c': "contents rdb db' = (contents rdb (ns_db st))(nonce_key n := None)"
          by (rule rocks_delete [OF ok(1) h])
        have "is_nonce_used rdb l now n st = (Inr False, st\<lparr>ns_cache := c, ns_db := db'\<rparr>)"
          using miss old bs(1) by (simp add: is_nonce_used_def look get Some d)
        moreover have "guarding (contents rdb db') (lru_peek l c) now m"
          unfolding c' using old Some by (intro guarding_delete [OF g1]) auto
        ultimately show ?thesis using old bs(2) ok h' by (simp add: nonce_guards_def)
      qed
    qed
  qed
qed

lemma record_nonce_extends:
  assumes g: "nonce_guards rdb healthy l st T m" and "T \<le> now" and "in_i64 (now + 300)"
  shows "\<exists>st'. record_nonce rdb l now n st = (Inr (), st')
    \<and> nonce_guards rdb healthy l st' now (m(n \<mapsto> now + 300))"
proof -
  from nonce_guards_later [OF g assms(2)] have ok: "rocks_ok rdb healthy" "iter_ok rdb healthy" "lru_ok l"
    and h: "healthy (ns_db st)"
    and gd: "guarding (contents rdb (ns_db st)) (lru_peek l (ns_cache st)) now m"
    by (simp_all add: nonce_guards_def)
  obtain db' where p: "db_put rdb (ns_db st) (nonce_key n) (i64_to_be_bytes (now + 300)) = (Inr (), db')"
    and h': "healthy db'"
    and c': "contents rdb db' = (contents rdb (ns_db st))(nonce_key n \<mapsto> i64_to_be_bytes (now + 300))"
    by (rule rocks_put [OF ok(1) h])
  let ?c = "lru_put l (ns_cache st) n \<lparr>ne_expiry_timestamp = now + 300\<rparr>"
  have "i64_from_be_bytes (i64_to_be_bytes (now + 300)) = now + 300" "length (i64_to_be_bytes (now + 300)) = 8"
    using assms(3) by (simp_all add: i64_bytes_wrap wrap64_id)
  then have "guarding (contents rdb db') (lru_peek l ?c) now (m(n \<mapsto> now + 300))"
    unfolding c' by (rule guarding_record [OF gd _ _ lru_simps(5) [OF ok(3)]]) (rule lru_put_other [OF ok(3)])
  moreover have "record_nonce rdb l now n st = (Inr (), st\<lparr>ns_db := db', ns_cache := ?c\<rparr>)"
    by (simp add: record_nonce_def p)
  ultimately show ?thesis using ok h' by (simp add: nonce_guards_def)
qed

lemma cleanup_loop_keeps:
  assumes "rocks_ok rdb healthy" and "healthy db" and "guarding (contents rdb db) C now m"
    and "distinct (map fst kvs)" and "\<forall>(k, v)\<in>set kvs. contents rdb db k = Some v"
    and "rest \<noteq> [] \<longrightarrow> \<not> has_prefix (as_bytes ''nonce:'') (fst (hd rest))"
  shows "healthy (snd (cleanup_loop rdb now (map Inr (kvs @ rest)) d db))
    \<and> guarding (contents rdb (snd (cleanup_loop rdb now (map Inr (kvs @ rest)) d db))) C now m"
  using assms
proof (induction kvs arbitrary: db d)
  case Nil
  then show ?case by (cases rest) auto
next
  case (Cons kv kvs)
  obtain k v where kv: "kv = (k, v)" by (cases kv)
  show ?case
  proof (cases "length v = 8 \<and> i64_from_be_bytes v \<le> now")
    case True
    obtain db' where d: "db_delete rdb db k = (Inr (), db')" and h': "healthy db'"
      and c': "contents rdb db' = (contents rdb db)(k := None)"
      by (rule rocks_delete [OF Cons.prems(1,2)])
    have "guarding (contents rdb db') C now m"
      unfolding c' using True Cons.prems(5) kv by (intro guarding_delete [OF Cons.prems(3)]) auto
    moreover have "\<forall>(k', v')\<in>set kvs. contents rdb db' k' = Some v'"
    proof safe
      fix k' v' assume that: "(k', v') \<in> set kvs"
      then have "k' \<in> set (map fst kvs)" by force
      with Cons.prems(4) kv have "k' \<noteq> k" by auto
      with that Cons.prems(5) show "contents rdb db' k' = Some v'" unfolding c' by auto
    qed
    ultimately show ?thesis using Cons.IH [OF Cons.prems(1) h'] Cons.prems True kv d by auto
  next
    case False
    then show ?thesis using Cons.IH [OF Cons.prems(1-3)] Cons.prems kv by auto
  qed
qed

lemma cleanup_keeps_guards:
  assumes g: "nonce_guards rdb healthy l st T m" and "T \<le> now"
  shows "nonce_guards rdb healthy l (snd (cleanup_expired_nonces rdb now st)) now m"
proof -
  from nonce_guards_later [OF g assms(2)] have ok: "rocks_ok rdb healthy" "iter_ok rdb healthy" "lru_ok l"
    and h: "healthy (ns_db st)"
    and gd: "guarding (contents rdb (ns_db st)) (lru_peek l (ns_cache st)) now m"
    by (simp_all add: nonce_guards_def)
  obtain kvs rest where it: "db_iter rdb (ns_db st) (as_bytes ''nonce:'') = map Inr (kvs @ rest)"
    and kvs: "distinct (map fst kvs)" "set kvs = {(k, v). contents rdb (ns_db st) k = Some v \<and> has_prefix (as_bytes ''nonce:'') k}"
    and rest: "rest \<noteq> [] \<longrightarrow> \<not> has_prefix (as_bytes ''nonce:'') (fst (hd rest))"
    using ok(2) h by (rule rocks_iter)
  have "\<forall>(k, v)\<in>set kvs. contents rdb (ns_db st) k = Some v" using kvs(2) by auto
  from cleanup_loop_keeps [OF ok(1) h gd kvs(1) this rest, of 0] ok show ?thesis
    by (simp add: nonce_guards_def cleanup_expired_nonces_def it split_beta Let_def)
qed

interpretation nonce: replay_guard "is_nonce_used rdb l" "record_nonce rdb l" "cleanup_expired_nonces rdb"
  "nonce_guards rdb healthy l" for rdb :: "'db rocks" and healthy l
  by unfold_locales
    (rule is_nonce_used_exact record_nonce_extends cleanup_keeps_guards nonce_guards_later; assumption)+

text \<open>A store over a database without nonce entries guards nothing.\<close>

lemma fresh_guards:
  assumes "rocks_ok rdb healthy" and "iter_ok rdb healthy" and "lru_ok l" and "healthy db"
    and "\<forall>n. contents rdb db (nonce_key n) = None"
  shows "nonce_guards rdb healthy l (nonce_store_new l db) T Map.empty"
  using assms by (simp add: nonce_guards_def guarding_def nonce_store_new_def lru_simps)


section \<open>Properties\<close>

text \<open>C24. Replay protection. Over any history of request checks and cleanups of expired nonces with
  non-decreasing clock readings, starting from a database without nonce entries, two accepted
  requests with the same nonce were recorded at least 300 seconds apart, whatever the cache
  evicts.\<close>

theorem no_replay_within_window:
  assumes "rocks_ok rdb healthy" and "iter_ok rdb healthy" and "lru_ok l" and "healthy db"
    and "\<forall>n. contents rdb db (nonce_key n) = None" and "clock_ordered T ops"
  shows "sorted_wrt (\<lambda>(n, t) (n', t'). n = n' \<longrightarrow> t + 300 \<le> t')
    (accepted_log (validate_signed_request rdb l env js) (cleanup_expired_nonces rdb) ops (nonce_store_new l db))"
  using nonce.log_spaced [OF fresh_guards [OF assms(1-5)] assms(6), of env js]
  by (simp add: validate_signed_request_def)

text \<open>The subtraction of the request check wraps, but for clock readings below \<open>2^62\<close> no timestamp of a
  client is mistaken for a fresh one.\<close>

lemma wrap64_range_cases:
  assumes "in_i64 ts" and "0 \<le> now" and "now < 2 ^ 62"
  shows "wrap64 (now - ts) = now - ts \<or> (now - ts > 2 ^ 62 \<and> wrap64 (now - ts) < - (2 ^ 62))"
proof (cases "now - ts < 2 ^ 63")
  case True
  with assms have "in_i64 (now - ts)" by (simp add: in_i64_def)
  then show ?thesis by (simp add: wrap64_id)
next
  case False
  with assms have "(now - ts + 2 ^ 63) mod 2 ^ 64 = now - ts + 2 ^ 63 - 2 ^ 64"
    by (subst mod_pos_geq) (simp_all add: in_i64_def)
  with False assms show ?thesis by (simp add: wrap64_eq in_i64_def)
qed


lemma request_timestamp_window:
  assumes "in_i64 ts" and "0 \<le> now" and "now < 2 ^ 62"
  shows "validate_request_timestamp now ts = (if \<bar>now - ts\<bar> \<le> 300 then Inr () else Err AuthenticationFailed)"
  using wrap64_range_cases [OF assms]
  by (auto simp: validate_request_timestamp_def Let_def)

text \<open>C25. The freshness check is exact despite the wrapping subtraction: for every timestamp that a
  client can send and every clock reading below \<open>2^62\<close>, a request passes exactly when its timestamp
  is at most 300 seconds away from the clock.\<close>

theorem request_timestamp_exact:
  assumes "in_i64 ts" and "0 \<le> now" and "now < 2 ^ 62"
  shows "validate_request_timestamp now ts = (if \<bar>now - ts\<bar> \<le> 300 then Inr () else Err AuthenticationFailed)"
  using assms by (rule request_timestamp_window)

theorem request_timestamp_exact_witness:
  "validate_request_timestamp 1000 (- (2 ^ 63)) = Err AuthenticationFailed"
  using request_timestamp_exact [of "- (2 ^ 63)" 1000] by (simp add: in_i64_def)

text \<open>C26. A nonce expires before the timestamp of its request does. A request that was accepted at \<open>t\<close>
  and whose timestamp is not before \<open>t\<close> is accepted a second time at \<open>t + 300\<close>: the window of accepted
  timestamps reaches 300 seconds to both sides of the clock, and the nonce is kept for 300 seconds
  only.\<close>

theorem replay_after_expiry:
  assumes "rocks_ok rdb healthy" and "iter_ok rdb healthy" and "lru_ok l" and "healthy db"
    and "\<forall>n. contents rdb db (nonce_key n) = None"
    and "0 \<le> t" and "t < 2 ^ 61" and "t \<le> sr_timestamp req"
    and "validate_signed_request rdb l env js (\<lambda>_. t) req (nonce_store_new l db) = (Inr (), st1)"
    and "in_i64 (sr_timestamp req)"
  shows "fst (validate_signed_request rdb l env js (\<lambda>_. t + 300) req st1) = Inr ()"
proof -
  have fresh: "validate_request_timestamp t (sr_timestamp req) = Inr ()"
    using assms(9) by (cases "validate_request_timestamp t (sr_timestamp req)")
      (auto simp: validate_signed_request_def validate_with_eq bindS_def)
  have "\<bar>t - sr_timestamp req\<bar> \<le> 300"
    using fresh request_timestamp_window [OF assms(10,6)] assms(7) by (simp split: if_splits)
  then have "validate_request_timestamp (t + 300) (sr_timestamp req) = Inr ()"
    using request_timestamp_window [OF assms(10), of "t + 300"] assms(6-8) by simp
  with nonce.accepted_again [OF fresh_guards [OF assms(1-5), of t], of t "t + 300" env js req st1] assms(6-9)
  show ?thesis by (simp add: validate_signed_request_def in_i64_def)
qed

text \<open>C27. Concurrent copies of a request are both accepted. Checking the nonce and recording it are separate
  operations without a lock around them. Sent one after the other, the second copy of a request is rejected;
  but when both copies are checked before the first one is recorded, both are accepted.\<close>

theorem replay_race:
  assumes "rocks_ok rdb healthy" and "iter_ok rdb healthy" and "lru_ok l" and "healthy db"
    and "\<forall>n. contents rdb db (nonce_key n) = None"
    and clk: "0 \<le> a" "a \<le> b" "b < a + 300" "b \<le> c" "c \<le> d" "d < 2 ^ 62"
    and ts: "in_i64 (sr_timestamp req)" "\<bar>a - sr_timestamp req\<bar> \<le> 300" "\<bar>b - sr_timestamp req\<bar> \<le> 300"
    and sig: "signature_checks env js req = Inr ()"
  shows "(\<exists>s1. validate_signed_request rdb l env js (\<lambda>_. a) req (nonce_store_new l db) = (Inr (), s1)
      \<and> \<not> is_ok (fst (validate_signed_request rdb l env js (\<lambda>_. b) req s1)))
    \<and> (\<exists>s1 s2 s3 s4. check_signed_with (is_nonce_used rdb l) env js (\<lambda>_. a) req (nonce_store_new l db) = (Inr (), s1)
      \<and> check_signed_with (is_nonce_used rdb l) env js (\<lambda>_. b) req s1 = (Inr (), s2)
      \<and> record_nonce rdb l c (sr_nonce req) s2 = (Inr (), s3) \<and> record_nonce rdb l d (sr_nonce req) s3 = (Inr (), s4))"
proof -
  have g: "nonce_guards rdb healthy l (nonce_store_new l db) a Map.empty" by (rule fresh_guards [OF assms(1-5)])
  have fits: "in_i64 (a + 300)" "in_i64 (b + 300)" "in_i64 (c + 300)" "in_i64 (d + 300)"
    using clk by (simp_all add: in_i64_def)
  have "validate_request_timestamp a (sr_timestamp req) = Inr ()" and b: "validate_request_timestamp b (sr_timestamp req) = Inr ()"
    using request_timestamp_window [OF ts(1)] ts(2,3) clk by simp_all
  then have acc: "acceptable env js a a Map.empty req" using sig by (simp add: acceptable_def)
  show ?thesis
    using nonce.second_rejected [OF g order_refl clk(2,3) fits(1,2) acc]
      nonce.both_accepted [OF g order_refl clk(2,4,5) fits(3,4) acc b]
    by (simp add: validate_signed_request_def)
qed

text \<open>A signed request over the demo cryptography.\<close>

definition demo_request :: "i64 \<Rightarrow> unit signed_request" where
  "demo_request ts = \<lparr>sr_payload = (), sr_nonce = ''n1'', sr_timestamp = ts,
     sr_signature = sign_message demo_env (as_bytes (''n1'' @ show_int ts)) [7],
     sr_public_key = get_public_key_hex demo_env [7]\<rparr>"

abbreviation unit_js :: "(unit, string) codec" where
  "unit_js \<equiv> str_codec (table_codec [()])"

lemma demo_request_sel [simp]: "sr_nonce (demo_request ts) = ''n1''" "sr_timestamp (demo_request ts) = ts"
  by (simp_all add: demo_request_def)

lemma demo_request_signed: "signature_checks demo_env unit_js (demo_request ts) = Inr ()"
proof -
  have "canonical_message unit_js (demo_request ts) = Inr (''n1'' @ show_int ts)"
    by (simp add: canonical_message_def demo_request_def str_codec_def table_codec_def of_bytes_def)
  then show ?thesis
    using verify_sign_message [OF demo_env_ok(1,4), of "as_bytes (''n1'' @ show_int ts)" "[7]"]
    by (simp add: signature_checks_def demo_request_def map_fail_def)
qed

abbreviation demo_validate where
  "demo_validate \<equiv> validate_signed_request demo_rocks demo_lru demo_env unit_js"

lemma demo_fresh_guards: "nonce_guards demo_rocks demo_healthy demo_lru (nonce_store_new demo_lru []) T Map.empty"
  by (rule fresh_guards [OF demo_rocks_ok demo_iter_ok demo_lru_ok]) (simp_all add: demo_healthy_def)

lemma demo_accepted: "\<exists>st. demo_validate (\<lambda>_. 1000) (demo_request 1100) (nonce_store_new demo_lru []) = (Inr (), st)"
proof -
  have acc: "acceptable demo_env unit_js 1000 1000 Map.empty (demo_request 1100)"
    using request_timestamp_window [of 1100 1000] demo_request_signed by (simp add: acceptable_def in_i64_def)
  have "(0::int) \<le> 1000" and "in_i64 (1000 + 300)" by (simp_all add: in_i64_def)
  note this(1) order_refl order_refl this(2)
  with demo_fresh_guards [of 0] show ?thesis
  proof (cases rule: nonce.validate_step [where clk = "\<lambda>_. 1000" and env = demo_env and js = unit_js and req = "demo_request 1100"])
    case (rejected err s')
    with acc show ?thesis by simp
  qed (auto simp: validate_signed_request_def)
qed

theorem replay_after_expiry_witness:
  "\<exists>st1. demo_validate (\<lambda>_. 1000) (demo_request 1100) (nonce_store_new demo_lru []) = (Inr (), st1)
     \<and> fst (demo_validate (\<lambda>_. 1300) (demo_request 1100) st1) = Inr ()"
proof -
  obtain st1 where 1: "demo_validate (\<lambda>_. 1000) (demo_request 1100) (nonce_store_new demo_lru []) = (Inr (), st1)"
    using demo_accepted by blast
  with replay_after_expiry [OF demo_rocks_ok demo_iter_ok demo_lru_ok, of "[]" 1000 "demo_request 1100" demo_env unit_js st1]
  have "fst (demo_validate (\<lambda>_. 1300) (demo_request 1100) st1) = Inr ()"
    by (simp add: demo_healthy_def in_i64_def)
  with 1 show ?thesis by blast
qed

theorem no_replay_within_window_witness:
  "sorted_wrt (\<lambda>(n, t) (n', t'). n = n' \<longrightarrow> t + 300 \<le> t')
    (accepted_log demo_validate (cleanup_expired_nonces demo_rocks)
      [CheckRequest (\<lambda>_. 1000) (demo_request 1100), CleanupAt 1200, CheckRequest (\<lambda>_. 1300) (demo_request 1100)]
      (nonce_store_new demo_lru []))"
  by (rule no_replay_within_window [OF demo_rocks_ok demo_iter_ok demo_lru_ok, where T = 0])
    (simp_all add: demo_healthy_def in_i64_def)

theorem replay_race_witness:
  "\<exists>s1 s2 s3 s4. check_signed_with (is_nonce_used demo_rocks demo_lru) demo_env unit_js (\<lambda>_. 1000) (demo_request 1100)
        (nonce_store_new demo_lru []) = (Inr (), s1)
    \<and> check_signed_with (is_nonce_used demo_rocks demo_lru) demo_env unit_js (\<lambda>_. 1001) (demo_request 1100) s1 = (Inr (), s2)
    \<and> record_nonce demo_rocks demo_lru 1002 ''n1'' s2 = (Inr (), s3)
    \<and> record_nonce demo_rocks demo_lru 1003 ''n1'' s3 = (Inr (), s4)"
  using replay_race [OF demo_rocks_ok demo_iter_ok demo_lru_ok, of "[]" 1000 1001 1002 1003 "demo_request 1100" demo_env unit_js]
  by (simp add: demo_healthy_def in_i64_def demo_request_signed)

end
