(* ===== verification/Goud_Rate_Store.thy ===== *)
theory Goud_Rate_Store
  imports Goud_Store
begin

text \<open>
  Storage of the rate limiter (\<open>src/storage/rate_limit_store.rs\<close>): request counters behind an LRU
  cache, violation records, bans of API keys and bans of IP addresses. The locale \<open>penalty_store\<close> is
  the contract the rate limiter relies on, stated over an abstract view of what is stored; the
  store fulfils it on a healthy database. Clock readings are arguments.
\<close>

section \<open>Ban levels and records\<close>

datatype ban_level =
  BanNone | BanWarning | WriteBlock5Min | WriteBlock1Hr | PermanentWriteBan | CompleteBlacklist

fun duration_seconds :: "ban_level \<Rightarrow> u64 option" where
  "duration_seconds BanNone = None"
| "duration_seconds BanWarning = Some VIOLATION_COOLDOWN_SECONDS"
| "duration_seconds WriteBlock5Min = Some BAN_WRITE_5MIN_SECONDS"
| "duration_seconds WriteBlock1Hr = Some BAN_WRITE_1HR_SECONDS"
| "duration_seconds PermanentWriteBan = None"
| "duration_seconds CompleteBlacklist = None"

definition blocks_writes :: "ban_level \<Rightarrow> bool" where
  "blocks_writes level \<longleftrightarrow> \<not> (level = BanNone \<or> level = BanWarning)"

definition blocks_reads :: "ban_level \<Rightarrow> bool" where
  "blocks_reads level \<longleftrightarrow> level = CompleteBlacklist"

fun escalate :: "ban_level \<Rightarrow> ban_level" where
  "escalate BanNone = WriteBlock5Min"
| "escalate BanWarning = WriteBlock5Min"
| "escalate WriteBlock5Min = WriteBlock1Hr"
| "escalate WriteBlock1Hr = PermanentWriteBan"
| "escalate PermanentWriteBan = CompleteBlacklist"
| "escalate CompleteBlacklist = CompleteBlacklist"

record violation_record =
  vr_count :: u32
  vr_last_violation_timestamp :: i64
  vr_violation_timestamps :: "i64 list"

definition violation_record_new :: violation_record where
  "violation_record_new = \<lparr>vr_count = 0, vr_last_violation_timestamp = 0, vr_violation_timestamps = []\<rparr>"

definition add_violation :: "i64 \<Rightarrow> violation_record \<Rightarrow> violation_record" where
  "add_violation now r =
     (let ts = vr_violation_timestamps r @ [now]
      in \<lparr>vr_count = vr_count r + 1, vr_last_violation_timestamp = now,
          vr_violation_timestamps = (if length ts > 5 then tl ts else ts)\<rparr>)"

record ban_record =
  br_level :: ban_level
  br_expires_at :: "i64 option"
  br_created_at :: i64

text \<open>The durations are small constants, so the cast \<open>dur as i64\<close> keeps the value.\<close>

definition ban_record_new :: "i64 \<Rightarrow> ban_level \<Rightarrow> ban_record" where
  "ban_record_new now level =
     \<lparr>br_level = level, br_expires_at = map_option (\<lambda>dur. now + int (unat dur)) (duration_seconds level),
      br_created_at = now\<rparr>"

definition ban_is_expired :: "i64 \<Rightarrow> ban_record \<Rightarrow> bool" where
  "ban_is_expired now r = (case br_expires_at r of Some expiry \<Rightarrow> now \<ge> expiry | None \<Rightarrow> False)"

section \<open>The store\<close>

record rate_limit_cache_entry =
  rc_count :: u32
  rc_window_start :: i64

record ('db, 'c) rate_limit_store =
  rs_db :: 'db
  rs_cache :: 'c

text \<open>The libraries of the store: database, cache, and bincode for its two record types.\<close>

record ('db, 'c) rate_libs =
  rl_rocks :: "'db rocks"
  rl_lru :: "('c, rate_limit_cache_entry) lru"
  rl_viol :: "(violation_record, bytes) codec"
  rl_ban :: "(ban_record, bytes) codec"

definition rate_limit_store_new :: "('db, 'c) rate_libs \<Rightarrow> 'db \<Rightarrow> ('db, 'c) rate_limit_store" where
  "rate_limit_store_new L db = \<lparr>rs_db = db, rs_cache = lru_new (rl_lru L) RATE_LIMIT_CACHE_SIZE\<rparr>"

definition count_cache_key :: "string \<Rightarrow> i64 \<Rightarrow> string" where
  "count_cache_key h window_start = h @ '':'' @ show_int window_start"

definition count_key :: "string \<Rightarrow> i64 \<Rightarrow> bytes" where
  "count_key h window_start = as_bytes (''ratelimit:'' @ h @ '':'' @ show_int window_start)"

definition violations_key :: "string \<Rightarrow> bytes" where "violations_key h = as_bytes (''violations:'' @ h)"
definition bans_key :: "string \<Rightarrow> bytes" where "bans_key h = as_bytes (''bans:'' @ h)"
definition ip_bans_key :: "string \<Rightarrow> bytes" where "ip_bans_key h = as_bytes (''ip_bans:'' @ h)"

definition window_of :: "i64 \<Rightarrow> i64" where
  "window_of now = now - (now smod int (unat RATE_LIMIT_WINDOW_SECONDS))"

text \<open>The copy of the stored count into a four-byte array panics on any other length.\<close>

definition read_count :: "('db, 'c) rate_libs \<Rightarrow> 'db \<Rightarrow> bytes \<Rightarrow> u32 res" where
  "read_count L db key =
     (case db_get (rl_rocks L) db key of
        Inr (Some bs) \<Rightarrow> if length bs = 4 then Inr (u32_from_le_bytes bs) else panic
      | Inr None \<Rightarrow> Inr 0
      | Inl e \<Rightarrow> Err (RocksDbError (''Failed to read rate limit: '' @ e)))"

text \<open>A cache hit updates the cached count in place; only a miss writes the database. The flag
  \<open>is_write\<close> is logged and not used otherwise.\<close>

definition increment_request_count ::
  "('db, 'c) rate_libs \<Rightarrow> i64 \<Rightarrow> string \<Rightarrow> bool \<Rightarrow> (('db, 'c) rate_limit_store, fail, u32) act" where
  "increment_request_count L now h is_write st =
     (let window_start = window_of now;
          cache_key = count_cache_key h window_start
      in case lru_get_mut (rl_lru L) (rs_cache st) cache_key (\<lambda>e. e\<lparr>rc_count := rc_count e + 1\<rparr>) of
           (Some e, c) \<Rightarrow> (Inr (rc_count e), st\<lparr>rs_cache := c\<rparr>)
         | (None, c) \<Rightarrow>
             let st = st\<lparr>rs_cache := c\<rparr>; db_key = count_key h window_start
             in case read_count L (rs_db st) db_key of
                  Inl e \<Rightarrow> (Inl e, st)
                | Inr current_count \<Rightarrow>
                    let new_count = current_count + 1;
                        (r, db') = db_put (rl_rocks L) (rs_db st) db_key (u32_to_le_bytes new_count);
                        st = st\<lparr>rs_db := db'\<rparr>
                    in case r of
                         Inl e \<Rightarrow> (Err (RocksDbError (''Failed to update rate limit: '' @ e)), st)
                       | Inr _ \<Rightarrow>
                           (Inr new_count, st\<lparr>rs_cache := lru_put (rl_lru L) (rs_cache st) cache_key
                              \<lparr>rc_count = new_count, rc_window_start = window_start\<rparr>\<rparr>))"

definition get_current_count ::
  "('db, 'c) rate_libs \<Rightarrow> i64 \<Rightarrow> string \<Rightarrow> (('db, 'c) rate_limit_store, fail, u32) act" where
  "get_current_count L now h st =
     (let window_start = window_of now
      in case lru_get (rl_lru L) (rs_cache st) (count_cache_key h window_start) of
           (Some e, c) \<Rightarrow> (Inr (rc_count e), st\<lparr>rs_cache := c\<rparr>)
         | (None, c) \<Rightarrow> (read_count L (rs_db st) (count_key h window_start), st\<lparr>rs_cache := c\<rparr>))"

text \<open>\<open>get_violations\<close>, and the same read at the start of \<open>record_violation\<close>.\<close>

definition get_violations ::
  "('db, 'c) rate_libs \<Rightarrow> string \<Rightarrow> (('db, 'c) rate_limit_store, fail, violation_record) act" where
  "get_violations L h st =
     (case db_get (rl_rocks L) (rs_db st) (violations_key h) of
        Inr (Some bs) \<Rightarrow> map_err (\<lambda>e. Fail (DeserializationError e)) (dec (rl_viol L) bs)
      | Inr None \<Rightarrow> Inr violation_record_new
      | Inl e \<Rightarrow> Err (RocksDbError (''Failed to read violations: '' @ e)), st)"

text \<open>A write to the database of the store.\<close>

definition rate_put ::
  "('db, 'c) rate_libs \<Rightarrow> string \<Rightarrow> bytes \<Rightarrow> bytes \<Rightarrow> (('db, 'c) rate_limit_store, fail, unit) act" where
  "rate_put L what key bs st =
     (let (r, db') = db_put (rl_rocks L) (rs_db st) key bs
      in (map_err (\<lambda>e. Fail (RocksDbError (what @ e))) r, st\<lparr>rs_db := db'\<rparr>))"

definition record_violation ::
  "('db, 'c) rate_libs \<Rightarrow> i64 \<Rightarrow> string \<Rightarrow> (('db, 'c) rate_limit_store, fail, violation_record) act" where
  "record_violation L now h =
     bindS (get_violations L h) (\<lambda>r.
     let r = add_violation now r
     in bindS (liftS (map_err (\<lambda>e. Fail (SerializationError e)) (enc (rl_viol L) r))) (\<lambda>bs.
        bindS (rate_put L ''Failed to save violations: '' (violations_key h) bs) (\<lambda>_.
        retS r)))"

definition apply_ban ::
  "('db, 'c) rate_libs \<Rightarrow> i64 \<Rightarrow> string \<Rightarrow> ban_level \<Rightarrow> (('db, 'c) rate_limit_store, fail, unit) act" where
  "apply_ban L now h level =
     bindS (liftS (map_err (\<lambda>e. Fail (SerializationError e)) (enc (rl_ban L) (ban_record_new now level)))) (\<lambda>bs.
     rate_put L ''Failed to save ban: '' (bans_key h) bs)"

text \<open>The deletion of an expired entry.\<close>

definition rate_delete ::
  "('db, 'c) rate_libs \<Rightarrow> bytes \<Rightarrow> (('db, 'c) rate_limit_store, fail, unit) act" where
  "rate_delete L key st =
     (let (r, db') = db_delete (rl_rocks L) (rs_db st) key
      in (map_err (\<lambda>e. Fail (RocksDbError e)) r, st\<lparr>rs_db := db'\<rparr>))"

definition get_ban_status ::
  "('db, 'c) rate_libs \<Rightarrow> i64 \<Rightarrow> string \<Rightarrow> (('db, 'c) rate_limit_store, fail, ban_record option) act" where
  "get_ban_status L now h st =
     (case db_get (rl_rocks L) (rs_db st) (bans_key h) of
        Inr (Some bs) \<Rightarrow>
          bindS (liftS (map_err (\<lambda>e. Fail (DeserializationError e)) (dec (rl_ban L) bs))) (\<lambda>r.
          if ban_is_expired now r then bindS (rate_delete L (bans_key h)) (\<lambda>_. retS None)
          else retS (Some r)) st
      | Inr None \<Rightarrow> (Inr None, st)
      | Inl e \<Rightarrow> (Err (RocksDbError (''Failed to read ban status: '' @ e)), st))"

definition ban_ip ::
  "('db, 'c) rate_libs \<Rightarrow> i64 \<Rightarrow> string \<Rightarrow> (('db, 'c) rate_limit_store, fail, unit) act" where
  "ban_ip L now ip_hash =
     rate_put L ''Failed to ban IP: '' (ip_bans_key ip_hash)
       (i64_to_le_bytes (now + int (unat BAN_IP_24HR_SECONDS)))"

definition is_ip_banned ::
  "('db, 'c) rate_libs \<Rightarrow> i64 \<Rightarrow> string \<Rightarrow> (('db, 'c) rate_limit_store, fail, bool) act" where
  "is_ip_banned L now ip_hash st =
     (case db_get (rl_rocks L) (rs_db st) (ip_bans_key ip_hash) of
        Inr (Some bs) \<Rightarrow>
          if length bs \<noteq> 8 then (panic, st)
          else if now \<ge> i64_from_le_bytes bs
            then bindS (rate_delete L (ip_bans_key ip_hash)) (\<lambda>_. retS False) st
          else (Inr True, st)
      | Inr None \<Rightarrow> (Inr False, st)
      | Inl e \<Rightarrow> (Err (RocksDbError (''Failed to check IP ban: '' @ e)), st))"

text \<open>\<open>clear_all\<close> logs and does nothing else.\<close>

definition rate_clear_all :: "(('db, 'c) rate_limit_store, fail, unit) act" where
  "rate_clear_all = retS ()"

section \<open>Severity of bans\<close>

text \<open>The levels are ordered by severity, as the enum lists them.\<close>

primrec severity :: "ban_level \<Rightarrow> nat" where
  "severity BanNone = 0"
| "severity BanWarning = 1"
| "severity WriteBlock5Min = 2"
| "severity WriteBlock1Hr = 3"
| "severity PermanentWriteBan = 4"
| "severity CompleteBlacklist = 5"

lemma severity_inject: "severity a = severity b \<longleftrightarrow> a = b"
  by (cases a; cases b) simp_all

instantiation ban_level :: linorder
begin

definition less_eq_ban_level :: "ban_level \<Rightarrow> ban_level \<Rightarrow> bool" where
  "less_eq_ban_level a b \<longleftrightarrow> severity a \<le> severity b"

definition less_ban_level :: "ban_level \<Rightarrow> ban_level \<Rightarrow> bool" where
  "less_ban_level a b \<longleftrightarrow> severity a < severity b"

instance
  by standard (auto simp: less_eq_ban_level_def less_ban_level_def severity_inject)

end

text \<open>A heavier level blocks at least as much, and escalation is strict up to the heaviest one.\<close>

lemma blocks_mono:
  "a \<le> b \<Longrightarrow> blocks_writes a \<Longrightarrow> blocks_writes b" "a \<le> b \<Longrightarrow> blocks_reads a \<Longrightarrow> blocks_reads b"
  by (cases a; cases b; simp add: less_eq_ban_level_def blocks_writes_def blocks_reads_def)+

lemma escalate_strict: "a \<le> escalate a" "a \<noteq> CompleteBlacklist \<Longrightarrow> a < escalate a"
  by (cases a; simp add: less_eq_ban_level_def less_ban_level_def)+

section \<open>The contract of a penalty store\<close>

text \<open>The operations that the rate limiter calls.\<close>

record 's penalty_ops =
  po_is_ip_banned :: "i64 \<Rightarrow> string \<Rightarrow> ('s, fail, bool) act"
  po_get_ban_status :: "i64 \<Rightarrow> string \<Rightarrow> ('s, fail, ban_record option) act"
  po_get_violations :: "string \<Rightarrow> ('s, fail, violation_record) act"
  po_increment :: "i64 \<Rightarrow> string \<Rightarrow> bool \<Rightarrow> ('s, fail, u32) act"
  po_record_violation :: "i64 \<Rightarrow> string \<Rightarrow> ('s, fail, violation_record) act"
  po_apply_ban :: "i64 \<Rightarrow> string \<Rightarrow> ban_level \<Rightarrow> ('s, fail, unit) act"
  po_ban_ip :: "i64 \<Rightarrow> string \<Rightarrow> ('s, fail, unit) act"

definition rate_ops :: "('db, 'c) rate_libs \<Rightarrow> ('db, 'c) rate_limit_store penalty_ops" where
  "rate_ops L = \<lparr>po_is_ip_banned = is_ip_banned L, po_get_ban_status = get_ban_status L,
     po_get_violations = get_violations L, po_increment = increment_request_count L,
     po_record_violation = record_violation L, po_apply_ban = apply_ban L, po_ban_ip = ban_ip L\<rparr>"

lemma rate_ops_sel [simp]:
  "po_is_ip_banned (rate_ops L) = is_ip_banned L" "po_get_ban_status (rate_ops L) = get_ban_status L"
  "po_get_violations (rate_ops L) = get_violations L" "po_increment (rate_ops L) = increment_request_count L"
  "po_record_violation (rate_ops L) = record_violation L" "po_apply_ban (rate_ops L) = apply_ban L"
  "po_ban_ip (rate_ops L) = ban_ip L"
  by (simp_all add: rate_ops_def)

text \<open>The abstract view: the violation record of every key, its ban, and the expiries of IP bans.
  Looking at an expired ban removes it.\<close>

record penalty_view =
  pv_viol :: "string \<Rightarrow> violation_record"
  pv_ban :: "string \<rightharpoonup> ban_record"
  pv_ip :: "string \<rightharpoonup> i64"

definition penalty_view_empty :: penalty_view where
  "penalty_view_empty = \<lparr>pv_viol = (\<lambda>_. violation_record_new), pv_ban = Map.empty, pv_ip = Map.empty\<rparr>"

definition ip_active :: "i64 \<Rightarrow> string \<Rightarrow> penalty_view \<Rightarrow> bool" where
  "ip_active now ip v \<longleftrightarrow> (case pv_ip v ip of Some e \<Rightarrow> now < e | None \<Rightarrow> False)"

definition active_ban :: "i64 \<Rightarrow> string \<Rightarrow> penalty_view \<Rightarrow> ban_record option" where
  "active_ban now h v = (case pv_ban v h of
     Some r \<Rightarrow> if ban_is_expired now r then None else Some r | None \<Rightarrow> None)"

definition purge_ip :: "i64 \<Rightarrow> string \<Rightarrow> penalty_view \<Rightarrow> penalty_view" where
  "purge_ip now ip v = (if ip_active now ip v then v else v\<lparr>pv_ip := (pv_ip v)(ip := None)\<rparr>)"

definition purge_ban :: "i64 \<Rightarrow> string \<Rightarrow> penalty_view \<Rightarrow> penalty_view" where
  "purge_ban now h v = v\<lparr>pv_ban := (pv_ban v)(h := active_ban now h v)\<rparr>"

locale penalty_store =
  fixes ops :: "'s penalty_ops"
    and tracks :: "'s \<Rightarrow> penalty_view \<Rightarrow> bool"
  assumes is_ip_banned: "tracks s v \<Longrightarrow>
      \<exists>s'. po_is_ip_banned ops now ip s = (Inr (ip_active now ip v), s') \<and> tracks s' (purge_ip now ip v)"
    and get_ban_status: "tracks s v \<Longrightarrow>
      \<exists>s'. po_get_ban_status ops now h s = (Inr (active_ban now h v), s') \<and> tracks s' (purge_ban now h v)"
    and get_violations: "tracks s v \<Longrightarrow> po_get_violations ops h s = (Inr (pv_viol v h), s)"
    and increment: "tracks s v \<Longrightarrow> \<exists>n s'. po_increment ops now h w s = (Inr n, s') \<and> tracks s' v"
    and record_violation: "tracks s v \<Longrightarrow>
      \<exists>s'. po_record_violation ops now h s = (Inr (add_violation now (pv_viol v h)), s')
        \<and> tracks s' (v\<lparr>pv_viol := (pv_viol v)(h := add_violation now (pv_viol v h))\<rparr>)"
    and apply_ban: "tracks s v \<Longrightarrow>
      \<exists>s'. po_apply_ban ops now h level s = (Inr (), s')
        \<and> tracks s' (v\<lparr>pv_ban := (pv_ban v)(h \<mapsto> ban_record_new now level)\<rparr>)"
    and ban_ip: "tracks s v \<Longrightarrow> in_i64 (now + 86400) \<Longrightarrow>
      \<exists>s'. po_ban_ip ops now ip s = (Inr (), s') \<and> tracks s' (v\<lparr>pv_ip := (pv_ip v)(ip \<mapsto> now + 86400)\<rparr>)"

section \<open>The store fulfils the contract\<close>

lemma rate_key_distinct [simp]:
  "violations_key a = violations_key b \<longleftrightarrow> a = b" "bans_key a = bans_key b \<longleftrightarrow> a = b"
  "ip_bans_key a = ip_bans_key b \<longleftrightarrow> a = b"
  "violations_key a \<noteq> bans_key b" "bans_key b \<noteq> violations_key a"
  "violations_key a \<noteq> ip_bans_key b" "ip_bans_key b \<noteq> violations_key a"
  "bans_key a \<noteq> ip_bans_key b" "ip_bans_key b \<noteq> bans_key a"
  "count_key a i \<noteq> violations_key b" "violations_key b \<noteq> count_key a i"
  "count_key a i \<noteq> bans_key b" "bans_key b \<noteq> count_key a i"
  "count_key a i \<noteq> ip_bans_key b" "ip_bans_key b \<noteq> count_key a i"
  by (simp_all add: violations_key_def bans_key_def ip_bans_key_def count_key_def del: as_bytes_append)

definition rate_libs_ok :: "('db, 'c) rate_libs \<Rightarrow> ('db \<Rightarrow> bool) \<Rightarrow> bool" where
  "rate_libs_ok L healthy \<longleftrightarrow> rocks_ok (rl_rocks L) healthy \<and> lru_ok (rl_lru L)
     \<and> total_codec (rl_viol L) \<and> total_codec (rl_ban L)"

text \<open>The entries \<open>M\<close> of the database against the view \<open>v\<close>; the counters only need their format.\<close>

definition shows_view :: "('db, 'c) rate_libs \<Rightarrow> (bytes \<rightharpoonup> bytes) \<Rightarrow> penalty_view \<Rightarrow> bool" where
  "shows_view L M v \<longleftrightarrow>
     (\<forall>h. case M (violations_key h) of None \<Rightarrow> pv_viol v h = violation_record_new
        | Some bs \<Rightarrow> dec (rl_viol L) bs = Inr (pv_viol v h))
   \<and> (\<forall>h. case M (bans_key h) of None \<Rightarrow> pv_ban v h = None
        | Some bs \<Rightarrow> \<exists>r. dec (rl_ban L) bs = Inr r \<and> pv_ban v h = Some r)
   \<and> (\<forall>ip. case M (ip_bans_key ip) of None \<Rightarrow> pv_ip v ip = None
        | Some bs \<Rightarrow> length bs = 8 \<and> pv_ip v ip = Some (i64_from_le_bytes bs))
   \<and> (\<forall>h w. case M (count_key h w) of None \<Rightarrow> True | Some bs \<Rightarrow> length bs = 4)"

definition rate_tracks ::
  "('db, 'c) rate_libs \<Rightarrow> ('db \<Rightarrow> bool) \<Rightarrow> ('db, 'c) rate_limit_store \<Rightarrow> penalty_view \<Rightarrow> bool" where
  "rate_tracks L healthy st v \<longleftrightarrow> rate_libs_ok L healthy \<and> healthy (rs_db st)
     \<and> shows_view L (contents (rl_rocks L) (rs_db st)) v"

lemma shows_view_update:
  assumes "shows_view L M v"
  shows "dec (rl_viol L) bs = Inr r \<Longrightarrow>
      shows_view L (M(violations_key h \<mapsto> bs)) (v\<lparr>pv_viol := (pv_viol v)(h := r)\<rparr>)"
    and "dec (rl_ban L) bs = Inr b \<Longrightarrow>
      shows_view L (M(bans_key h \<mapsto> bs)) (v\<lparr>pv_ban := (pv_ban v)(h \<mapsto> b)\<rparr>)"
    and "length bs = 8 \<Longrightarrow> i64_from_le_bytes bs = e \<Longrightarrow>
      shows_view L (M(ip_bans_key h \<mapsto> bs)) (v\<lparr>pv_ip := (pv_ip v)(h \<mapsto> e)\<rparr>)"
    and "length bs = 4 \<Longrightarrow> shows_view L (M(count_key h w \<mapsto> bs)) v"
    and "shows_view L (M(bans_key h := None)) (v\<lparr>pv_ban := (pv_ban v)(h := None)\<rparr>)"
    and "shows_view L (M(ip_bans_key h := None)) (v\<lparr>pv_ip := (pv_ip v)(h := None)\<rparr>)"
  using assms by (simp_all add: shows_view_def cong: option.case_cong)

lemma rate_put_ok:
  assumes "rocks_ok (rl_rocks L) healthy" and "healthy (rs_db st)"
  obtains db' where "rate_put L what k bs st = (Inr (), st\<lparr>rs_db := db'\<rparr>)" and "healthy db'"
    and "contents (rl_rocks L) db' = (contents (rl_rocks L) (rs_db st))(k \<mapsto> bs)"
  by (rule rocks_put [OF assms, of k bs]) (rule that, simp_all add: rate_put_def)

lemma rate_delete_ok:
  assumes "rocks_ok (rl_rocks L) healthy" and "healthy (rs_db st)"
  obtains db' where "rate_delete L k st = (Inr (), st\<lparr>rs_db := db'\<rparr>)" and "healthy db'"
    and "contents (rl_rocks L) db' = (contents (rl_rocks L) (rs_db st))(k := None)"
  by (rule rocks_delete [OF assms, of k]) (rule that, simp_all add: rate_delete_def)

lemma shows_viewD:
  assumes "shows_view L M v"
  shows "M (violations_key h) = None \<Longrightarrow> pv_viol v h = violation_record_new"
    and "M (violations_key h) = Some bs \<Longrightarrow> dec (rl_viol L) bs = Inr (pv_viol v h)"
    and "M (bans_key h) = None \<Longrightarrow> pv_ban v h = None"
    and "M (bans_key h) = Some bs \<Longrightarrow> \<exists>r. dec (rl_ban L) bs = Inr r \<and> pv_ban v h = Some r"
    and "M (ip_bans_key h) = None \<Longrightarrow> pv_ip v h = None"
    and "M (ip_bans_key h) = Some bs \<Longrightarrow> length bs = 8 \<and> pv_ip v h = Some (i64_from_le_bytes bs)"
    and "M (count_key h w) = Some bs \<Longrightarrow> length bs = 4"
proof -
  from assms have "case M (violations_key h) of None \<Rightarrow> pv_viol v h = violation_record_new
        | Some bs \<Rightarrow> dec (rl_viol L) bs = Inr (pv_viol v h)"
    and "case M (bans_key h) of None \<Rightarrow> pv_ban v h = None
        | Some bs \<Rightarrow> \<exists>r. dec (rl_ban L) bs = Inr r \<and> pv_ban v h = Some r"
    and "case M (ip_bans_key h) of None \<Rightarrow> pv_ip v h = None
        | Some bs \<Rightarrow> length bs = 8 \<and> pv_ip v h = Some (i64_from_le_bytes bs)"
    and "case M (count_key h w) of None \<Rightarrow> True | Some bs \<Rightarrow> length bs = 4"
    unfolding shows_view_def by blast+
  then show "M (violations_key h) = None \<Longrightarrow> pv_viol v h = violation_record_new"
    and "M (violations_key h) = Some bs \<Longrightarrow> dec (rl_viol L) bs = Inr (pv_viol v h)"
    and "M (bans_key h) = None \<Longrightarrow> pv_ban v h = None"
    and "M (bans_key h) = Some bs \<Longrightarrow> \<exists>r. dec (rl_ban L) bs = Inr r \<and> pv_ban v h = Some r"
    and "M (ip_bans_key h) = None \<Longrightarrow> pv_ip v h = None"
    and "M (ip_bans_key h) = Some bs \<Longrightarrow> length bs = 8 \<and> pv_ip v h = Some (i64_from_le_bytes bs)"
    and "M (count_key h w) = Some bs \<Longrightarrow> length bs = 4"
    by simp_all
qed

lemma rate_tracksD:
  assumes "rate_tracks L healthy st v"
  shows "rocks_ok (rl_rocks L) healthy" "lru_ok (rl_lru L)" "total_codec (rl_viol L)" "total_codec (rl_ban L)"
    and "healthy (rs_db st)" "shows_view L (contents (rl_rocks L) (rs_db st)) v"
    and "db_get (rl_rocks L) (rs_db st) k = Inr (contents (rl_rocks L) (rs_db st) k)"
  using assms by (auto simp: rate_tracks_def rate_libs_ok_def intro: rocks_get)

text \<open>A new database of the store, and a new cache, against the view that follows.\<close>

lemma rate_tracks_db:
  "rate_tracks L healthy st v \<Longrightarrow> healthy db' \<Longrightarrow> shows_view L (contents (rl_rocks L) db') v' \<Longrightarrow>
   rate_tracks L healthy (st\<lparr>rs_db := db'\<rparr>) v'"
  "rate_tracks L healthy (st\<lparr>rs_cache := c\<rparr>) v \<longleftrightarrow> rate_tracks L healthy st v"
  by (simp_all add: rate_tracks_def)

lemma rate_is_ip_banned:
  assumes t: "rate_tracks L healthy st v"
  shows "\<exists>st'. is_ip_banned L now ip st = (Inr (ip_active now ip v), st') \<and> rate_tracks L healthy st' (purge_ip now ip v)"
proof (cases "contents (rl_rocks L) (rs_db st) (ip_bans_key ip)")
  case None
  then have p: "pv_ip v ip = None" by (rule shows_viewD(5) [OF rate_tracksD(6) [OF t]])
  then have "(pv_ip v)(ip := None) = pv_ip v" by auto
  with p t None show ?thesis
    by (simp add: is_ip_banned_def rate_tracksD(7) [OF t] ip_active_def purge_ip_def)
next
  case (Some bs)
  then have p: "length bs = 8" "pv_ip v ip = Some (i64_from_le_bytes bs)"
    using shows_viewD(6) [OF rate_tracksD(6) [OF t]] by auto
  show ?thesis
  proof (cases "now < i64_from_le_bytes bs")
    case True
    with p t Some show ?thesis
      by (simp add: is_ip_banned_def rate_tracksD(7) [OF t] ip_active_def purge_ip_def)
  next
    case False
    obtain db' where d: "rate_delete L (ip_bans_key ip) st = (Inr (), st\<lparr>rs_db := db'\<rparr>)" and h: "healthy db'"
      and c: "contents (rl_rocks L) db' = (contents (rl_rocks L) (rs_db st))(ip_bans_key ip := None)"
      using rate_tracksD(1,5) [OF t] by (rule rate_delete_ok)
    have "rate_tracks L healthy (st\<lparr>rs_db := db'\<rparr>) (purge_ip now ip v)"
      using False p shows_view_update(6) [OF rate_tracksD(6) [OF t], of ip]
      by (intro rate_tracks_db(1) [OF t h]) (simp add: c purge_ip_def ip_active_def)
    with False p Some d show ?thesis
      by (simp add: is_ip_banned_def rate_tracksD(7) [OF t] ip_active_def bindS_def)
  qed
qed

lemma rate_get_ban_status:
  assumes t: "rate_tracks L healthy st v"
  shows "\<exists>st'. get_ban_status L now h st = (Inr (active_ban now h v), st') \<and> rate_tracks L healthy st' (purge_ban now h v)"
proof (cases "contents (rl_rocks L) (rs_db st) (bans_key h)")
  case None
  then have p: "pv_ban v h = None" by (rule shows_viewD(3) [OF rate_tracksD(6) [OF t]])
  then have "(pv_ban v)(h := None) = pv_ban v" by auto
  with p t None show ?thesis
    by (simp add: get_ban_status_def rate_tracksD(7) [OF t] active_ban_def purge_ban_def)
next
  case (Some bs)
  then obtain r where p: "dec (rl_ban L) bs = Inr r" "pv_ban v h = Some r"
    using shows_viewD(4) [OF rate_tracksD(6) [OF t]] by blast
  show ?thesis
  proof (cases "ban_is_expired now r")
    case False
    with p have "(pv_ban v)(h := active_ban now h v) = pv_ban v" by (auto simp: active_ban_def)
    with False p t Some show ?thesis
      by (simp add: get_ban_status_def rate_tracksD(7) [OF t] active_ban_def purge_ban_def)
  next
    case True
    obtain db' where d: "rate_delete L (bans_key h) st = (Inr (), st\<lparr>rs_db := db'\<rparr>)" and h: "healthy db'"
      and c: "contents (rl_rocks L) db' = (contents (rl_rocks L) (rs_db st))(bans_key h := None)"
      using rate_tracksD(1,5) [OF t] by (rule rate_delete_ok)
    have "rate_tracks L healthy (st\<lparr>rs_db := db'\<rparr>) (purge_ban now h v)"
      using True p shows_view_update(5) [OF rate_tracksD(6) [OF t], of h]
      by (intro rate_tracks_db(1) [OF t h]) (simp add: c purge_ban_def active_ban_def)
    with True p Some d show ?thesis
      by (simp add: get_ban_status_def rate_tracksD(7) [OF t] active_ban_def bindS_def)
  qed
qed

lemma rate_get_violations:
  assumes t: "rate_tracks L healthy st v"
  shows "get_violations L h st = (Inr (pv_viol v h), st)"
  using shows_viewD(1,2) [OF rate_tracksD(6) [OF t], of h]
  by (cases "contents (rl_rocks L) (rs_db st) (violations_key h)")
    (simp_all add: get_violations_def rate_tracksD(7) [OF t])

lemma rate_record_violation:
  assumes t: "rate_tracks L healthy st v"
  shows "\<exists>st'. record_violation L now h st = (Inr (add_violation now (pv_viol v h)), st')
    \<and> rate_tracks L healthy st' (v\<lparr>pv_viol := (pv_viol v)(h := add_violation now (pv_viol v h))\<rparr>)"
proof -
  let ?r = "add_violation now (pv_viol v h)"
  obtain bs where bs: "enc (rl_viol L) ?r = Inr bs" "dec (rl_viol L) bs = Inr ?r"
    using total_codecD [OF rate_tracksD(3) [OF t]] by blast
  obtain db' where d: "rate_put L ''Failed to save violations: '' (violations_key h) bs st = (Inr (), st\<lparr>rs_db := db'\<rparr>)"
    and h: "healthy db'"
    and c: "contents (rl_rocks L) db' = (contents (rl_rocks L) (rs_db st))(violations_key h \<mapsto> bs)"
    using rate_tracksD(1,5) [OF t] by (rule rate_put_ok)
  have "rate_tracks L healthy (st\<lparr>rs_db := db'\<rparr>) (v\<lparr>pv_viol := (pv_viol v)(h := ?r)\<rparr>)"
    using shows_view_update(1) [OF rate_tracksD(6) [OF t] bs(2)]
    by (intro rate_tracks_db(1) [OF t h]) (simp add: c)
  then show ?thesis
    by (simp add: record_violation_def bindS_def rate_get_violations [OF t] Let_def bs d)
qed

lemma rate_apply_ban:
  assumes t: "rate_tracks L healthy st v"
  shows "\<exists>st'. apply_ban L now h level st = (Inr (), st')
    \<and> rate_tracks L healthy st' (v\<lparr>pv_ban := (pv_ban v)(h \<mapsto> ban_record_new now level)\<rparr>)"
proof -
  let ?r = "ban_record_new now level"
  obtain bs where bs: "enc (rl_ban L) ?r = Inr bs" "dec (rl_ban L) bs = Inr ?r"
    using total_codecD [OF rate_tracksD(4) [OF t]] by blast
  obtain db' where d: "rate_put L ''Failed to save ban: '' (bans_key h) bs st = (Inr (), st\<lparr>rs_db := db'\<rparr>)"
    and h: "healthy db'"
    and c: "contents (rl_rocks L) db' = (contents (rl_rocks L) (rs_db st))(bans_key h \<mapsto> bs)"
    using rate_tracksD(1,5) [OF t] by (rule rate_put_ok)
  have "rate_tracks L healthy (st\<lparr>rs_db := db'\<rparr>) (v\<lparr>pv_ban := (pv_ban v)(h \<mapsto> ?r)\<rparr>)"
    using shows_view_update(2) [OF rate_tracksD(6) [OF t] bs(2)]
    by (intro rate_tracks_db(1) [OF t h]) (simp add: c)
  then show ?thesis by (simp add: apply_ban_def bs d)
qed

lemma rate_ban_ip:
  assumes t: "rate_tracks L healthy st v" and "in_i64 (now + 86400)"
  shows "\<exists>st'. ban_ip L now ip st = (Inr (), st')
    \<and> rate_tracks L healthy st' (v\<lparr>pv_ip := (pv_ip v)(ip \<mapsto> now + 86400)\<rparr>)"
proof -
  let ?bs = "i64_to_le_bytes (now + 86400)"
  have bs: "length ?bs = 8" "i64_from_le_bytes ?bs = now + 86400"
    using assms(2) by (simp_all add: i64_bytes_wrap wrap64_id)
  obtain db' where d: "rate_put L ''Failed to ban IP: '' (ip_bans_key ip) ?bs st = (Inr (), st\<lparr>rs_db := db'\<rparr>)"
    and h: "healthy db'"
    and c: "contents (rl_rocks L) db' = (contents (rl_rocks L) (rs_db st))(ip_bans_key ip \<mapsto> ?bs)"
    using rate_tracksD(1,5) [OF t] by (rule rate_put_ok)
  have "rate_tracks L healthy (st\<lparr>rs_db := db'\<rparr>) (v\<lparr>pv_ip := (pv_ip v)(ip \<mapsto> now + 86400)\<rparr>)"
    using shows_view_update(3) [OF rate_tracksD(6) [OF t] bs]
    by (intro rate_tracks_db(1) [OF t h]) (simp add: c)
  then show ?thesis by (simp add: ban_ip_def d)
qed

lemma rate_increment:
  assumes t: "rate_tracks L healthy st v"
  shows "\<exists>n st'. increment_request_count L now h w st = (Inr n, st') \<and> rate_tracks L healthy st' v"
proof -
  let ?k = "count_cache_key h (window_of now)" and ?f = "\<lambda>e. e\<lparr>rc_count := rc_count e + 1\<rparr>"
  obtain r c where g: "lru_get_mut (rl_lru L) (rs_cache st) ?k ?f = (r, c)"
    by (cases "lru_get_mut (rl_lru L) (rs_cache st) ?k ?f")
  show ?thesis
  proof (cases r)
    case (Some e)
    then show ?thesis using t by (simp add: increment_request_count_def g Let_def rate_tracks_db(2))
  next
    case None
    let ?key = "count_key h (window_of now)"
    obtain n where n: "read_count L (rs_db st) ?key = Inr n"
      using shows_viewD(7) [OF rate_tracksD(6) [OF t]]
      by (cases "contents (rl_rocks L) (rs_db st) ?key") (simp_all add: read_count_def rate_tracksD(7) [OF t])
    obtain db' where d: "db_put (rl_rocks L) (rs_db st) ?key (u32_to_le_bytes (n + 1)) = (Inr (), db')"
      and h: "healthy db'"
      and c: "contents (rl_rocks L) db' = (contents (rl_rocks L) (rs_db st))(?key \<mapsto> u32_to_le_bytes (n + 1))"
      using rate_tracksD(1,5) [OF t] by (rule rocks_put)
    have "rate_tracks L healthy (st\<lparr>rs_db := db'\<rparr>) v"
      using shows_view_update(4) [OF rate_tracksD(6) [OF t]] by (intro rate_tracks_db(1) [OF t h]) (simp add: c)
    with None n d show ?thesis
      by (simp add: increment_request_count_def g Let_def rate_tracks_def)
  qed
qed

interpretation rate: penalty_store "rate_ops L" "rate_tracks L healthy" for L :: "('db, 'c) rate_libs" and healthy
  by unfold_locales (simp_all add: rate_is_ip_banned rate_get_ban_status rate_get_violations rate_increment
      rate_record_violation rate_apply_ban rate_ban_ip)

text \<open>A database without entries of the store shows the empty view.\<close>

definition no_rate_entries :: "(bytes \<rightharpoonup> bytes) \<Rightarrow> bool" where
  "no_rate_entries M \<longleftrightarrow> (\<forall>h. M (violations_key h) = None \<and> M (bans_key h) = None \<and> M (ip_bans_key h) = None
     \<and> (\<forall>w. M (count_key h w) = None))"

lemma rate_tracks_fresh:
  "rate_libs_ok L healthy \<Longrightarrow> healthy db \<Longrightarrow> no_rate_entries (contents (rl_rocks L) db) \<Longrightarrow>
   rate_tracks L healthy (rate_limit_store_new L db) penalty_view_empty"
  by (simp add: rate_tracks_def rate_limit_store_new_def no_rate_entries_def shows_view_def penalty_view_empty_def)

end
