(* ===== verification/Goud_Rate_Limiter.thy ===== *)
theory Goud_Rate_Limiter
  imports Goud_Rate_Store
begin

text \<open>
  The rate limiter with graduated penalties (\<open>src/api/rate_limiter.rs\<close>). \<open>check_with\<close> is the check
  over the operations of a penalty store, \<open>check_limit\<close> the check on the rate limit store.
  \<open>penalty_step\<close> is its specification on the abstract view of the store; every check refines it.
\<close>

section \<open>The check\<close>

datatype rate_limit_result =
    Allowed (ra_limit: u32) (ra_remaining: u32) (ra_reset_at: i64)
  | Warning (rw_cooldown_secs: u64) (rw_violation_count: u32) (rw_limit: u32) (rw_remaining: u32)
  | Blocked (rb_ban_level: ban_level) (rb_retry_after: u64) (rb_violation_count: u32)

definition hash_ip :: "'z crypto_env_scheme \<Rightarrow> string \<Rightarrow> string" where
  "hash_ip env ip = hex_encode env (hash_api_key env (as_bytes ip))"

definition request_limit :: "bool \<Rightarrow> u32" where
  "request_limit is_write = (if is_write then RATE_LIMIT_WRITE_PER_SECOND else RATE_LIMIT_READ_PER_SECOND)"

lemma request_limit_simps [simp]: "request_limit True = 10" "request_limit False = 100"
  by (simp_all add: request_limit_def)

definition saturating_sub :: "u32 \<Rightarrow> u32 \<Rightarrow> u32" where
  "saturating_sub a b = (if b \<le> a then a - b else 0)"

text \<open>The penalty for a violation count other than one, and whether the IP address is banned too.\<close>

definition penalty_for :: "u32 \<Rightarrow> ban_level \<times> bool" where
  "penalty_for n =
     (if n = 2 then (WriteBlock5Min, False)
      else if n = 3 then (WriteBlock1Hr, False)
      else if n = 4 then (PermanentWriteBan, False)
      else (CompleteBlacklist, True))"

definition permanent_retry :: u64 where "permanent_retry = 86400 * 365"

definition is_blocking :: "bool \<Rightarrow> ban_level \<Rightarrow> bool" where
  "is_blocking is_write level = (if is_write then blocks_writes level else blocks_reads level)"

definition ban_retry_after :: "i64 \<Rightarrow> ban_record \<Rightarrow> u64" where
  "ban_retry_after now r =
     (case br_expires_at r of Some expiry \<Rightarrow> of_int (max 0 (expiry - now)) | None \<Rightarrow> permanent_retry)"

text \<open>What happens when the limit is exceeded.\<close>

definition punish_with ::
  "'s penalty_ops \<Rightarrow> (nat \<Rightarrow> i64) \<Rightarrow> string \<Rightarrow> string \<Rightarrow> u32 \<Rightarrow> ('s, fail, rate_limit_result) act" where
  "punish_with ops clk h ip_hash limit =
     bindS (po_record_violation ops (clk 6) h) (\<lambda>violations.
     if vr_count violations = 1 then retS (Warning VIOLATION_COOLDOWN_SECONDS 1 limit 0)
     else
       let (ban_level, should_ban_ip) = penalty_for (vr_count violations)
       in bindS (po_apply_ban ops (clk 7) h ban_level) (\<lambda>_.
          bindS (if should_ban_ip then po_ban_ip ops (clk 8) ip_hash else retS ()) (\<lambda>_.
          retS (Blocked ban_level
            (case duration_seconds ban_level of Some d \<Rightarrow> d | None \<Rightarrow> permanent_retry)
            (vr_count violations)))))"

text \<open>The step that counts the request.\<close>

definition count_with ::
  "'s penalty_ops \<Rightarrow> (nat \<Rightarrow> i64) \<Rightarrow> string \<Rightarrow> string \<Rightarrow> bool \<Rightarrow> ('s, fail, rate_limit_result) act" where
  "count_with ops clk h ip_hash is_write =
     (let limit = request_limit is_write
      in bindS (po_increment ops (clk 4) h is_write) (\<lambda>current_count.
         if current_count > limit then punish_with ops clk h ip_hash limit
         else retS (Allowed limit (saturating_sub limit current_count)
                (clk 5 + int (unat RATE_LIMIT_WINDOW_SECONDS)))))"

definition check_with ::
  "'s penalty_ops \<Rightarrow> string set \<Rightarrow> (nat \<Rightarrow> i64) \<Rightarrow> string \<Rightarrow> string \<Rightarrow> bool
     \<Rightarrow> ('s, fail, rate_limit_result) act" where
  "check_with ops bypass_keys clk h ip_hash is_write =
     (if h \<in> bypass_keys then retS (Allowed 9999 9999 (clk 0 + 60))
      else
        bindS (po_is_ip_banned ops (clk 1) ip_hash) (\<lambda>banned.
        if banned then retS (Blocked CompleteBlacklist 86400 5)
        else
          bindS (po_get_ban_status ops (clk 2) h) (\<lambda>ban.
          case ban of
            Some r \<Rightarrow>
              if is_blocking is_write (br_level r)
              then bindS (po_get_violations ops h) (\<lambda>violations.
                   retS (Blocked (br_level r) (ban_retry_after (clk 3) r) (vr_count violations)))
              else count_with ops clk h ip_hash is_write
          | None \<Rightarrow> count_with ops clk h ip_hash is_write)))"

text \<open>The limiter on the rate limit store. Its clock readings, in the order of the code: 0 for a
  bypassed key, 1 and 2 for the two ban checks, 3 for the retry time of a ban, 4 for the window, 5
  for the reset time, 6 to 8 for the violation, the ban and the IP ban.\<close>

definition check_limit ::
  "'z crypto_env_scheme \<Rightarrow> ('db, 'c) rate_libs \<Rightarrow> string set \<Rightarrow> (nat \<Rightarrow> i64) \<Rightarrow> string \<Rightarrow> string \<Rightarrow> bool
     \<Rightarrow> (('db, 'c) rate_limit_store, fail, rate_limit_result) act" where
  "check_limit env L bypass_keys clk h client_ip is_write =
     check_with (rate_ops L) bypass_keys clk h (hash_ip env client_ip) is_write"

fun show_ban_level :: "ban_level \<Rightarrow> string" where
  "show_ban_level BanNone = ''None''"
| "show_ban_level BanWarning = ''Warning''"
| "show_ban_level WriteBlock5Min = ''WriteBlock5Min''"
| "show_ban_level WriteBlock1Hr = ''WriteBlock1Hr''"
| "show_ban_level PermanentWriteBan = ''PermanentWriteBan''"
| "show_ban_level CompleteBlacklist = ''CompleteBlacklist''"

fun create_headers :: "i64 \<Rightarrow> rate_limit_result \<Rightarrow> (string \<times> string) list" where
  "create_headers now (Allowed limit remaining reset_at) =
     [(''X-RateLimit-Limit'', show_u32 limit), (''X-RateLimit-Remaining'', show_u32 remaining),
      (''X-RateLimit-Reset'', show_int reset_at)]"
| "create_headers now (Warning cooldown_secs violation_count limit remaining) =
     [(''X-RateLimit-Limit'', show_u32 limit), (''X-RateLimit-Remaining'', show_u32 remaining),
      (''X-RateLimit-Reset'', show_int (now + int (unat cooldown_secs))),
      (''X-RateLimit-Violation'', show_u32 violation_count),
      (''X-RateLimit-Warning'', ''Rate limit exceeded. '' @ show_u64 cooldown_secs
         @ ''s cooldown applied (violation #'' @ show_u32 violation_count
         @ ''). Repeated violations will result in temporary bans.'')]"
| "create_headers now (Blocked ban_level retry_after violation_count) =
     [(''Retry-After'', show_u64 retry_after), (''X-RateLimit-Violation'', show_u32 violation_count),
      (''X-RateLimit-Ban-Level'', show_ban_level ban_level)]"

section \<open>Specification\<close>

text \<open>The check on the abstract view; \<open>n\<close> is the request count that the store reports.\<close>

definition punish_view ::
  "(nat \<Rightarrow> i64) \<Rightarrow> string \<Rightarrow> string \<Rightarrow> u32 \<Rightarrow> penalty_view \<Rightarrow> rate_limit_result \<times> penalty_view" where
  "punish_view clk h ip limit v =
     (let r = add_violation (clk 6) (pv_viol v h);
          v1 = v\<lparr>pv_viol := (pv_viol v)(h := r)\<rparr>;
          (level, ip_too) = penalty_for (vr_count r);
          v2 = v1\<lparr>pv_ban := (pv_ban v1)(h \<mapsto> ban_record_new (clk 7) level)\<rparr>;
          v3 = (if ip_too then v2\<lparr>pv_ip := (pv_ip v2)(ip \<mapsto> clk 8 + 86400)\<rparr> else v2)
      in if vr_count r = 1 then (Warning 30 1 limit 0, v1)
         else (Blocked level (case duration_seconds level of Some d \<Rightarrow> d | None \<Rightarrow> permanent_retry)
                 (vr_count r), v3))"

definition penalty_step ::
  "u32 \<Rightarrow> (nat \<Rightarrow> i64) \<Rightarrow> string \<Rightarrow> string \<Rightarrow> bool \<Rightarrow> penalty_view \<Rightarrow> rate_limit_result \<times> penalty_view" where
  "penalty_step n clk h ip w v =
     (let v1 = purge_ip (clk 1) ip v; v2 = purge_ban (clk 2) h v1; limit = request_limit w
      in if ip_active (clk 1) ip v then (Blocked CompleteBlacklist 86400 5, v1)
         else (case active_ban (clk 2) h v1 of
             Some r \<Rightarrow>
               if is_blocking w (br_level r)
               then (Blocked (br_level r) (ban_retry_after (clk 3) r) (vr_count (pv_viol v2 h)), v2)
               else if n > limit then punish_view clk h ip limit v2
               else (Allowed limit (saturating_sub limit n) (clk 5 + 1), v2)
           | None \<Rightarrow>
               if n > limit then punish_view clk h ip limit v2
               else (Allowed limit (saturating_sub limit n) (clk 5 + 1), v2)))"

context penalty_store
begin

lemma punish_refines:
  assumes t: "tracks s v" and "in_i64 (clk 8 + 86400)"
  shows "\<exists>s'. punish_with ops clk h ip limit s = (Inr (fst (punish_view clk h ip limit v)), s')
    \<and> tracks s' (snd (punish_view clk h ip limit v))"
proof -
  let ?r = "add_violation (clk 6) (pv_viol v h)"
  obtain level ip_too where pen: "penalty_for (vr_count ?r) = (level, ip_too)"
    by (cases "penalty_for (vr_count ?r)")
  obtain s1 where s1: "po_record_violation ops (clk 6) h s = (Inr ?r, s1)"
    and t1: "tracks s1 (v\<lparr>pv_viol := (pv_viol v)(h := ?r)\<rparr>)" using record_violation [OF t] by blast
  obtain s2 where s2: "po_apply_ban ops (clk 7) h level s1 = (Inr (), s2)"
    and t2: "tracks s2 (v\<lparr>pv_viol := (pv_viol v)(h := ?r), pv_ban := (pv_ban v)(h \<mapsto> ban_record_new (clk 7) level)\<rparr>)"
    using apply_ban [OF t1, of "clk 7" h level] by auto
  obtain s3 where s3: "po_ban_ip ops (clk 8) ip s2 = (Inr (), s3)"
    and t3: "tracks s3 (v\<lparr>pv_viol := (pv_viol v)(h := ?r), pv_ban := (pv_ban v)(h \<mapsto> ban_record_new (clk 7) level),
      pv_ip := (pv_ip v)(ip \<mapsto> clk 8 + 86400)\<rparr>)"
    using ban_ip [OF t2 assms(2), of ip] by auto
  show ?thesis
  proof (cases "vr_count ?r = 1")
    case True
    with t1 show ?thesis by (simp add: punish_with_def punish_view_def bindS_def s1 Let_def pen)
  next
    case False
    with t2 t3 show ?thesis
      by (cases ip_too) (simp_all add: punish_with_def punish_view_def bindS_def s1 s2 s3 Let_def pen)
  qed
qed

lemma check_refines:
  assumes t: "tracks s v" and "in_i64 (clk 8 + 86400)" and "h \<notin> bypass"
  shows "\<exists>n s'. check_with ops bypass clk h ip w s = (Inr (fst (penalty_step n clk h ip w v)), s')
    \<and> tracks s' (snd (penalty_step n clk h ip w v))"
proof -
  let ?v1 = "purge_ip (clk 1) ip v" and ?v2 = "purge_ban (clk 2) h (purge_ip (clk 1) ip v)"
  obtain s1 where s1: "po_is_ip_banned ops (clk 1) ip s = (Inr (ip_active (clk 1) ip v), s1)"
    and t1: "tracks s1 ?v1" using is_ip_banned [OF t] by blast
  obtain s2 where s2: "po_get_ban_status ops (clk 2) h s1 = (Inr (active_ban (clk 2) h ?v1), s2)"
    and t2: "tracks s2 ?v2" using get_ban_status [OF t1] by blast
  obtain n s3 where s3: "po_increment ops (clk 4) h w s2 = (Inr n, s3)" and t3: "tracks s3 ?v2"
    using increment [OF t2] by blast
  obtain s4 where s4: "punish_with ops clk h ip (request_limit w) s3
      = (Inr (fst (punish_view clk h ip (request_limit w) ?v2)), s4)"
    and t4: "tracks s4 (snd (punish_view clk h ip (request_limit w) ?v2))"
    using punish_refines [where clk = clk, OF t3 assms(2)] by blast
  have cnt: "\<exists>s'. count_with ops clk h ip w s2 = (Inr (fst r), s') \<and> tracks s' (snd r)"
    if "r = (if n > request_limit w then punish_view clk h ip (request_limit w) ?v2
      else (Allowed (request_limit w) (saturating_sub (request_limit w) n) (clk 5 + 1), ?v2))" for r
    using that t3 t4 by (simp add: count_with_def bindS_def s3 s4 Let_def)
  show ?thesis
  proof (cases "ip_active (clk 1) ip v")
    case True
    with t1 assms(3) show ?thesis by (simp add: check_with_def bindS_def s1 penalty_step_def Let_def del: One_nat_def)
  next
    case free: False
    show ?thesis
    proof (cases "active_ban (clk 2) h ?v1")
      case None
      from cnt [OF refl] free assms(3) None show ?thesis
        by (auto simp: check_with_def bindS_def s1 s2 penalty_step_def Let_def simp del: One_nat_def intro: exI [of _ n])
    next
      case (Some r)
      show ?thesis
      proof (cases "is_blocking w (br_level r)")
        case True
        with free Some assms(3) t2 show ?thesis
          by (simp add: check_with_def bindS_def s1 s2 penalty_step_def Let_def get_violations [OF t2] del: One_nat_def)
      next
        case False
        from cnt [OF refl] free assms(3) Some False show ?thesis
          by (auto simp: check_with_def bindS_def s1 s2 penalty_step_def Let_def simp del: One_nat_def intro: exI [of _ n])
      qed
    qed
  qed
qed

end

section \<open>The ladder of penalties\<close>

text \<open>What a key's violation record and ban say together: at most five violations, all of them
  listed; a ban is the one of the last violation; from the fourth violation on there is a ban.\<close>

definition ladder_rung :: "violation_record \<Rightarrow> ban_record option \<Rightarrow> bool" where
  "ladder_rung r b \<longleftrightarrow>
     unat (vr_count r) \<le> 5 \<and> length (vr_violation_timestamps r) = unat (vr_count r)
     \<and> (case b of
          None \<Rightarrow> unat (vr_count r) \<le> 3
        | Some b \<Rightarrow> 2 \<le> unat (vr_count r)
            \<and> br_level b = fst (penalty_for (vr_count r))
            \<and> br_expires_at b = map_option (\<lambda>d. br_created_at b + int (unat d)) (duration_seconds (br_level b)))"

definition ladder :: "penalty_view \<Rightarrow> bool" where
  "ladder v \<longleftrightarrow> (\<forall>h. ladder_rung (pv_viol v h) (pv_ban v h))"

text \<open>More violations never mean a lighter penalty, and every step of the ladder is the escalation of the one before.\<close>

lemma penalty_for_mono: "m \<noteq> 0 \<Longrightarrow> m \<noteq> 1 \<Longrightarrow> m \<le> n \<Longrightarrow> fst (penalty_for m) \<le> fst (penalty_for n)"
  by (auto simp: penalty_for_def less_eq_ban_level_def word_le_nat_alt word_unat_eq_iff)

lemma penalty_for_escalates: "2 \<le> n \<Longrightarrow> n < 5 \<Longrightarrow> fst (penalty_for (n + 1)) = escalate (fst (penalty_for n))"
proof -
  assume "2 \<le> n" "n < 5"
  then have "n = 2 \<or> n = 3 \<or> n = 4" by (auto simp: word_le_nat_alt word_less_nat_alt word_unat_eq_iff)
  then show ?thesis by (auto simp: penalty_for_def)
qed

lemma ladder_empty: "ladder penalty_view_empty"
  by (simp add: ladder_def ladder_rung_def penalty_view_empty_def violation_record_new_def)

lemma count_cases:
  assumes "unat (n :: u32) \<le> 5"
  obtains "n = 0" | "n = 1" | "n = 2" | "n = 3" | "n = 4" | "n = 5"
proof -
  have "unat n \<in> {0, 1, 2, 3, 4, 5}" using assms by auto
  then show thesis using that by (auto simp: word_unat_eq_iff)
qed

text \<open>A ban that has expired is a ban of the second or third violation.\<close>

lemma rung_purge:
  assumes "ladder_rung r b"
  shows "ladder_rung r (case b of Some b \<Rightarrow> if ban_is_expired now b then None else Some b | None \<Rightarrow> None)"
proof (cases b)
  case (Some b')
  with assms have "unat (vr_count r) \<le> 5" by (simp add: ladder_rung_def)
  then show ?thesis using Some assms
    by (cases rule: count_cases) (auto simp: ladder_rung_def ban_is_expired_def penalty_for_def)
qed (use assms in simp)

lemma rung_blocks:
  assumes "ladder_rung r (Some b)"
  shows "is_blocking True (br_level b)" and "unat (vr_count r) = 5 \<Longrightarrow> is_blocking w (br_level b)"
proof -
  from assms have c: "unat (vr_count r) \<le> 5" "br_level b = fst (penalty_for (vr_count r))"
    by (simp_all add: ladder_rung_def)
  then show "is_blocking True (br_level b)"
    by (auto simp: is_blocking_def penalty_for_def blocks_writes_def)
  show "is_blocking w (br_level b)" if "unat (vr_count r) = 5"
    using c(1) that c(2) by (cases rule: count_cases)
      (auto simp: is_blocking_def penalty_for_def blocks_writes_def blocks_reads_def)
qed

text \<open>One violation more, with the ban that goes with it.\<close>

lemma rung_punish:
  assumes "ladder_rung r b" and "unat (vr_count r) \<le> 4"
  shows "vr_count (add_violation t r) = 1 \<Longrightarrow> ladder_rung (add_violation t r) b"
    and "vr_count (add_violation t r) \<noteq> 1 \<Longrightarrow>
      ladder_rung (add_violation t r) (Some (ban_record_new t' (fst (penalty_for (vr_count (add_violation t r))))))"
    and "unat (vr_count (add_violation t r)) = unat (vr_count r) + 1"
proof -
  have "unat (vr_count r) \<le> 5" using assms(2) by simp
  then have n: "unat (vr_count (add_violation t r)) = unat (vr_count r) + 1"
    using assms(2) by (cases rule: count_cases) (auto simp: add_violation_def Let_def)
  then show "unat (vr_count (add_violation t r)) = unat (vr_count r) + 1" .
  have l: "length (vr_violation_timestamps (add_violation t r)) = unat (vr_count (add_violation t r))"
    unfolding n using assms by (simp add: add_violation_def ladder_rung_def Let_def)
  show "ladder_rung (add_violation t r) b" if one: "vr_count (add_violation t r) = 1"
  proof -
    from one n have "unat (vr_count r) = 0" by simp
    with assms(1) have "b = None" by (auto simp: ladder_rung_def split: option.splits)
    with one l show ?thesis by (simp add: ladder_rung_def)
  qed
  show "ladder_rung (add_violation t r) (Some (ban_record_new t' (fst (penalty_for (vr_count (add_violation t r))))))"
    if "vr_count (add_violation t r) \<noteq> 1"
  proof -
    have "unat (vr_count (add_violation t r)) \<noteq> 1" using that by (simp add: word_unat_eq_iff)
    with n l assms(2) show ?thesis by (simp add: ladder_rung_def ban_record_new_def)
  qed
qed

lemma ladder_update:
  assumes "ladder v" and "ladder_rung r b"
  shows "ladder (v\<lparr>pv_viol := (pv_viol v)(h := r), pv_ban := (pv_ban v)(h := b)\<rparr>)"
  using assms by (simp add: ladder_def)

lemma ladder_ip: "ladder (v\<lparr>pv_ip := m\<rparr>) \<longleftrightarrow> ladder v"
  by (simp add: ladder_def)

lemma ladder_purge: "ladder v \<Longrightarrow> ladder (purge_ip now ip v)" "ladder v \<Longrightarrow> ladder (purge_ban now h v)"
proof -
  show "ladder v \<Longrightarrow> ladder (purge_ip now ip v)" by (simp add: purge_ip_def ladder_ip)
  assume v: "ladder v"
  then have "ladder_rung (pv_viol v h) (active_ban now h v)"
    using rung_purge [of "pv_viol v h" "pv_ban v h" now] by (simp add: ladder_def active_ban_def)
  with ladder_update [OF v this, of h] show "ladder (purge_ban now h v)" by (simp add: purge_ban_def)
qed

lemma viol_purge [simp]: "pv_viol (purge_ip now ip v) = pv_viol v" "pv_viol (purge_ban now h v) = pv_viol v"
  by (simp_all add: purge_ip_def purge_ban_def)

text \<open>Punishment keeps the ladder when the key is not blacklisted yet, and counts one violation.\<close>

lemma punish_view_ladder:
  assumes v: "ladder v" and n: "unat (vr_count (pv_viol v h)) \<le> 4"
  shows "ladder (snd (punish_view clk h ip limit v))"
    and "unat (vr_count (pv_viol (snd (punish_view clk h ip limit v)) k))
      = unat (vr_count (pv_viol v k)) + (if k = h then 1 else 0)"
proof -
  let ?r = "add_violation (clk 6) (pv_viol v h)"
  have rung: "ladder_rung (pv_viol v h) (pv_ban v h)" using v by (simp add: ladder_def)
  note pun = rung_punish [OF rung n, of "clk 6"]
  have "ladder (v\<lparr>pv_viol := (pv_viol v)(h := ?r)\<rparr>)" if "vr_count ?r = 1"
    using ladder_update [OF v pun(1) [OF that], of h] by simp
  moreover have "ladder (v\<lparr>pv_viol := (pv_viol v)(h := ?r),
      pv_ban := (pv_ban v)(h \<mapsto> ban_record_new (clk 7) (fst (penalty_for (vr_count ?r))))\<rparr>)" if "vr_count ?r \<noteq> 1"
    using ladder_update [OF v pun(2) [OF that]] by blast
  ultimately show "ladder (snd (punish_view clk h ip limit v))"
    by (simp add: punish_view_def Let_def split_beta ladder_ip)
  show "unat (vr_count (pv_viol (snd (punish_view clk h ip limit v)) k))
      = unat (vr_count (pv_viol v k)) + (if k = h then 1 else 0)"
    using pun(3) by (auto simp: punish_view_def Let_def split_beta)
qed

lemma penalty_step_cases:
  fixes v clk h ip defines "v2 \<equiv> purge_ban (clk 2) h (purge_ip (clk 1) ip v)"
  assumes "ladder v"
  obtains (ip_ban) "penalty_step n clk h ip w v = (Blocked CompleteBlacklist 86400 5, purge_ip (clk 1) ip v)"
    | (key_ban) r where "penalty_step n clk h ip w v
        = (Blocked (br_level r) (ban_retry_after (clk 3) r) (vr_count (pv_viol v h)), v2)"
      and "pv_ban v h = Some r" "pv_ban v2 h = Some r" "is_blocking w (br_level r)"
    | (punished) "penalty_step n clk h ip w v = punish_view clk h ip (request_limit w) v2"
      and "n > request_limit w" "unat (vr_count (pv_viol v h)) \<le> 4"
      and "\<And>r. pv_ban v2 h = Some r \<Longrightarrow> \<not> is_blocking w (br_level r)"
    | (allowed) "penalty_step n clk h ip w v
        = (Allowed (request_limit w) (saturating_sub (request_limit w) n) (clk 5 + 1), v2)"
      and "n \<le> request_limit w"
      and "\<And>r. pv_ban v2 h = Some r \<Longrightarrow> \<not> is_blocking w (br_level r)"
proof (cases "ip_active (clk 1) ip v")
  case True
  then show thesis by (intro ip_ban) (simp add: penalty_step_def Let_def del: One_nat_def)
next
  case free: False
  have ban2: "pv_ban v2 h = active_ban (clk 2) h (purge_ip (clk 1) ip v)" by (simp add: v2_def purge_ban_def)
  have same: "pv_ban (purge_ip t ip v) = pv_ban v" for t by (simp add: purge_ip_def)
  have lad: "ladder_rung (pv_viol v h) (pv_ban v2 h)"
    using ladder_purge(2) [OF ladder_purge(1) [OF assms(2)]] by (simp add: v2_def ladder_def)
  let ?r = "if n > request_limit w then punish_view clk h ip (request_limit w) v2
    else (Allowed (request_limit w) (saturating_sub (request_limit w) n) (clk 5 + 1), v2)"
  have rest: thesis if "penalty_step n clk h ip w v = ?r" and no: "\<And>r. pv_ban v2 h = Some r \<Longrightarrow> \<not> is_blocking w (br_level r)"
  proof (cases "n > request_limit w")
    case True
    have "unat (vr_count (pv_viol v h)) \<le> 4"
    proof (cases "pv_ban v2 h")
      case None
      with lad show ?thesis by (simp add: ladder_rung_def)
    next
      case (Some r)
      with lad no rung_blocks(2) [of _ r w] show ?thesis by (fastforce simp: ladder_rung_def)
    qed
    with True that punished show thesis by simp
  next
    case False
    with that allowed show thesis by simp
  qed
  have step: "penalty_step n clk h ip w v = (case pv_ban v2 h of
      Some r \<Rightarrow> if is_blocking w (br_level r)
        then (Blocked (br_level r) (ban_retry_after (clk 3) r) (vr_count (pv_viol v h)), v2) else ?r
    | None \<Rightarrow> ?r)"
    using free unfolding penalty_step_def Let_def ban2 by (simp add: v2_def split: option.split del: One_nat_def)
  show thesis
  proof (cases "pv_ban v2 h")
    case None
    with step show thesis by (intro rest) simp_all
  next
    case (Some r)
    then have old: "pv_ban v h = Some r" using ban2 by (auto simp: active_ban_def same split: option.splits if_splits)
    show thesis
    proof (cases "is_blocking w (br_level r)")
      case True
      with step Some have "penalty_step n clk h ip w v
          = (Blocked (br_level r) (ban_retry_after (clk 3) r) (vr_count (pv_viol v h)), v2)" by simp
      with Some old True show thesis by (intro key_ban)
    next
      case False
      with step Some show thesis by (intro rest) simp_all
    qed
  qed
qed

lemma penalty_step_ladder:
  assumes "ladder v"
  shows "ladder (snd (penalty_step n clk h ip w v))"
    and "unat (vr_count (pv_viol v k)) \<le> unat (vr_count (pv_viol (snd (penalty_step n clk h ip w v)) k))"
proof -
  note v2 = ladder_purge(2) [OF ladder_purge(1) [OF assms]]
  show "ladder (snd (penalty_step n clk h ip w v))"
    using assms by (cases rule: penalty_step_cases [where n = n and clk = clk and h = h and ip = ip and w = w])
      (simp_all add: v2 ladder_purge(1) [OF assms] punish_view_ladder)
  show "unat (vr_count (pv_viol v k)) \<le> unat (vr_count (pv_viol (snd (penalty_step n clk h ip w v)) k))"
    using assms by (cases rule: penalty_step_cases [where n = n and clk = clk and h = h and ip = ip and w = w])
      (simp_all add: v2 punish_view_ladder)
qed

section \<open>Histories of checks\<close>

record limit_request =
  lr_clk :: "nat \<Rightarrow> i64"
  lr_key :: string
  lr_ip :: string
  lr_write :: bool

definition limit_step :: "'s penalty_ops \<Rightarrow> string set \<Rightarrow> limit_request \<Rightarrow> 's \<Rightarrow> 's" where
  "limit_step ops bypass q s = snd (check_with ops bypass (lr_clk q) (lr_key q) (lr_ip q) (lr_write q) s)"

definition clock_fits :: "limit_request \<Rightarrow> bool" where
  "clock_fits q \<longleftrightarrow> in_i64 (lr_clk q 8 + 86400)"

text \<open>The step that a state makes, with what the limiter knows of the key \<open>h\<close> before and after.\<close>

context penalty_store
begin

lemma limit_step_view:
  assumes "tracks s v" and "ladder v" and "clock_fits q"
  shows "\<exists>v'. tracks (limit_step ops bypass q s) v' \<and> ladder v'
    \<and> unat (vr_count (pv_viol v h)) \<le> unat (vr_count (pv_viol v' h))"
proof (cases "lr_key q \<in> bypass")
  case True
  with assms show ?thesis by (auto simp: limit_step_def check_with_def)
next
  case False
  obtain n s' where "check_with ops bypass (lr_clk q) (lr_key q) (lr_ip q) (lr_write q) s
      = (Inr (fst (penalty_step n (lr_clk q) (lr_key q) (lr_ip q) (lr_write q) v)), s')"
    and "tracks s' (snd (penalty_step n (lr_clk q) (lr_key q) (lr_ip q) (lr_write q) v))"
    using check_refines [where clk = "lr_clk q", OF assms(1) assms(3) [unfolded clock_fits_def] False] by blast
  then show ?thesis using penalty_step_ladder [OF assms(2)] by (auto simp: limit_step_def)
qed

end

sublocale penalty_store \<subseteq> limiter: machine "limit_step ops bypass" clock_fits
  "\<lambda>s. \<exists>v. tracks s v \<and> ladder v \<and> c \<le> unat (vr_count (pv_viol v h))" for bypass c h
proof
  fix s q assume "\<exists>v. tracks s v \<and> ladder v \<and> c \<le> unat (vr_count (pv_viol v h))" and "clock_fits q"
  then show "\<exists>v. tracks (limit_step ops bypass q s) v \<and> ladder v \<and> c \<le> unat (vr_count (pv_viol v h))"
    using limit_step_view [of s _ q bypass h] by (meson le_trans)
qed

context penalty_store
begin

text \<open>After any history the penalties of every key are on the ladder.\<close>

lemma history_ladder:
  assumes "tracks s v" and "ladder v" and "list_all clock_fits qs"
  shows "\<exists>v'. tracks (fold (limit_step ops bypass) qs s) v' \<and> ladder v'
    \<and> unat (vr_count (pv_viol v h)) \<le> unat (vr_count (pv_viol v' h))"
  by (rule limiter.run_inv [OF _ assms(3)]) (use assms in blast)

text \<open>A key with four violations never writes again.\<close>

lemma four_strikes:
  assumes "tracks s v" and "ladder v" and "4 \<le> unat (vr_count (pv_viol v h))"
    and "in_i64 (clk 8 + 86400)" and "h \<notin> bypass"
  shows "\<exists>level secs n s'. check_with ops bypass clk h ip True s = (Inr (Blocked level secs n), s')
    \<and> (level = PermanentWriteBan \<or> level = CompleteBlacklist)"
proof -
  obtain n s' where c: "check_with ops bypass clk h ip True s = (Inr (fst (penalty_step n clk h ip True v)), s')"
    using check_refines [where clk = clk and h = h, OF assms(1,4,5)] by blast
  have lad: "ladder_rung (pv_viol v h) (pv_ban (purge_ban (clk 2) h (purge_ip (clk 1) ip v)) h)"
    using ladder_purge(2) [OF ladder_purge(1) [OF assms(2)]] by (simp add: ladder_def)
  then obtain b where b: "pv_ban (purge_ban (clk 2) h (purge_ip (clk 1) ip v)) h = Some b"
    using assms(3) by (auto simp: ladder_rung_def split: option.splits)
  have blk: "is_blocking True (br_level b)" using lad unfolding b by (rule rung_blocks)
  have "br_level b = fst (penalty_for (vr_count (pv_viol v h)))" using lad unfolding b by (simp add: ladder_rung_def)
  moreover have "vr_count (pv_viol v h) \<noteq> 2" "vr_count (pv_viol v h) \<noteq> 3" using assms(3) by auto
  ultimately have level: "br_level b = PermanentWriteBan \<or> br_level b = CompleteBlacklist"
    by (auto simp: penalty_for_def)
  from assms(2) show ?thesis
  proof (cases rule: penalty_step_cases [where n = n and clk = clk and h = h and ip = ip and w = True])
    case ip_ban
    with c show ?thesis by simp
  next
    case (key_ban r)
    with c b level show ?thesis by simp
  next
    case punished
    with b blk show ?thesis by blast
  next
    case allowed
    with b blk show ?thesis by blast
  qed
qed

end

section \<open>Histories of the limiter\<close>

fun limit_run ::
  "'z crypto_env_scheme \<Rightarrow> ('db, 'c) rate_libs \<Rightarrow> string set \<Rightarrow> limit_request list
     \<Rightarrow> ('db, 'c) rate_limit_store \<Rightarrow> ('db, 'c) rate_limit_store" where
  "limit_run env L bypass [] st = st"
| "limit_run env L bypass (q # qs) st =
     limit_run env L bypass qs
       (snd (check_limit env L bypass (lr_clk q) (lr_key q) (lr_ip q) (lr_write q) st))"

lemma limit_run_fold:
  "limit_run env L bypass qs st
   = fold (limit_step (rate_ops L) bypass) (map (\<lambda>q. q\<lparr>lr_ip := hash_ip env (lr_ip q)\<rparr>) qs) st"
  by (induction qs arbitrary: st) (simp_all add: limit_step_def check_limit_def)

lemma limit_run_view:
  assumes "rate_tracks L healthy st v" and "ladder v" and "list_all clock_fits qs"
  shows "\<exists>v'. rate_tracks L healthy (limit_run env L bypass qs st) v' \<and> ladder v'
    \<and> unat (vr_count (pv_viol v h)) \<le> unat (vr_count (pv_viol v' h))"
  unfolding limit_run_fold
  by (rule rate.history_ladder [OF assms(1,2)])
    (use assms(3) in \<open>auto simp: list_all_iff clock_fits_def\<close>)

text \<open>A run of requests of one key, with their results.\<close>

fun checks :: "(bool \<Rightarrow> ('s, fail, 'r) act) \<Rightarrow> bool list \<Rightarrow> ('s, fail, 'r list) act" where
  "checks chk [] = retS []"
| "checks chk (w # ws) = bindS (chk w) (\<lambda>r. bindS (checks chk ws) (\<lambda>rs. retS (r # rs)))"

text \<open>The counter of the key in the window of \<open>t\<close> stands at \<open>c\<close>: in the cache, or nowhere yet.\<close>

definition counted ::
  "('db, 'c) rate_libs \<Rightarrow> ('db, 'c) rate_limit_store \<Rightarrow> string \<Rightarrow> i64 \<Rightarrow> nat \<Rightarrow> bool" where
  "counted L st h t c \<longleftrightarrow>
     (case lru_peek (rl_lru L) (rs_cache st) (count_cache_key h (window_of t)) of
        Some e \<Rightarrow> rc_count e = of_nat c
      | None \<Rightarrow> c = 0 \<and> contents (rl_rocks L) (rs_db st) (count_key h (window_of t)) = None)"

lemma increment_counts:
  assumes t: "rate_tracks L healthy st v" and c: "counted L st h now c"
  shows "\<exists>st'. increment_request_count L now h w st = (Inr (of_nat (Suc c)), st')
    \<and> rate_tracks L healthy st' v \<and> counted L st' h now (Suc c)"
proof -
  let ?k = "count_cache_key h (window_of now)" and ?f = "\<lambda>e. e\<lparr>rc_count := rc_count e + 1\<rparr>"
  have lru: "lru_ok (rl_lru L)" by (rule rate_tracksD(2) [OF t])
  obtain r c1 where g: "lru_get_mut (rl_lru L) (rs_cache st) ?k ?f = (r, c1)"
    by (cases "lru_get_mut (rl_lru L) (rs_cache st) ?k ?f")
  have r: "r = map_option ?f (lru_peek (rl_lru L) (rs_cache st) ?k)"
    and p: "lru_peek (rl_lru L) c1 ?k = map_option ?f (lru_peek (rl_lru L) (rs_cache st) ?k)"
    using lru_simps(3) [OF lru, of "rs_cache st" ?k ?f] lru_simps(4) [OF lru, of "rs_cache st" ?k ?f ?k]
    by (simp_all add: g)
  obtain n st' where inc: "increment_request_count L now h w st = (Inr n, st')" and t': "rate_tracks L healthy st' v"
    using rate_increment [OF t] by blast
  have "n = of_nat (Suc c) \<and> counted L st' h now (Suc c)"
  proof (cases "lru_peek (rl_lru L) (rs_cache st) ?k")
    case (Some e)
    with c inc p r show ?thesis
      by (auto simp: increment_request_count_def g Let_def counted_def)
  next
    case None
    with c have zero: "c = 0" and "contents (rl_rocks L) (rs_db st) (count_key h (window_of now)) = None"
      by (simp_all add: counted_def)
    then have rd: "read_count L (rs_db st) (count_key h (window_of now)) = Inr 0"
      by (simp add: read_count_def rate_tracksD(7) [OF t])
    obtain db' where d: "db_put (rl_rocks L) (rs_db st) (count_key h (window_of now)) (u32_to_le_bytes 1) = (Inr (), db')"
      by (rule rocks_put [OF rate_tracksD(1,5) [OF t]])
    with inc None r rd have "n = 1 \<and> st' = st\<lparr>rs_cache := lru_put (rl_lru L) c1 ?k
        \<lparr>rc_count = 1, rc_window_start = window_of now\<rparr>, rs_db := db'\<rparr>"
      by (auto simp: increment_request_count_def g Let_def)
    with zero lru_simps(5) [OF lru, of c1 ?k] show ?thesis by (simp add: counted_def)
  qed
  with inc t' show ?thesis by auto
qed

text \<open>The answer to the request that exceeds the budget: a warning if the key has a clean record, and otherwise the ban of the next level.\<close>

definition over_budget :: "u32 \<Rightarrow> violation_record \<Rightarrow> rate_limit_result" where
  "over_budget limit r =
     (if vr_count r = 0 then Warning 30 1 limit 0
      else let level = fst (penalty_for (vr_count r + 1))
           in Blocked level (case duration_seconds level of Some d \<Rightarrow> d | None \<Rightarrow> permanent_retry) (vr_count r + 1))"

lemma punish_view_answer: "fst (punish_view clk h ip limit v) = over_budget limit (pv_viol v h)"
  by (simp add: punish_view_def over_budget_def add_violation_def Let_def split_beta)

text \<open>A check of a key that is not banned, from an address that is not banned.\<close>

lemma check_limit_unbanned:
  assumes t: "rate_tracks L healthy st v" and c: "counted L st h now c" and "h \<notin> bypass"
    and small: "Suc c < 2 ^ 32" and "in_i64 (now + 86400)" and free: "pv_ban v h = None" "pv_ip v (hash_ip env ip) = None"
  shows "\<exists>st'. check_limit env L bypass (\<lambda>_. now) h ip w st =
      (Inr (if c < unat (request_limit w)
            then Allowed (request_limit w) (request_limit w - of_nat (Suc c)) (now + 1)
            else over_budget (request_limit w) (pv_viol v h)), st')
    \<and> (c < unat (request_limit w) \<longrightarrow> rate_tracks L healthy st' v \<and> counted L st' h now (Suc c))"
proof -
  obtain st1 where inc: "increment_request_count L now h w st = (Inr (of_nat (Suc c)), st1)"
    and t1: "rate_tracks L healthy st1 v" and c1: "counted L st1 h now (Suc c)"
    using increment_counts [OF t c] by blast
  have n: "unat (of_nat (Suc c) :: u32) = Suc c" using small by (subst unat_of_nat) simp
  have le: "(of_nat (Suc c) :: u32) \<le> request_limit w \<longleftrightarrow> c < unat (request_limit w)"
    unfolding word_le_nat_alt n by (rule Suc_le_eq)
  have no_ip: "is_ip_banned L now (hash_ip env ip) st = (Inr False, st)"
    and no_ban: "get_ban_status L now h st = (Inr None, st)"
  proof -
    have "contents (rl_rocks L) (rs_db st) (ip_bans_key (hash_ip env ip)) = None" "contents (rl_rocks L) (rs_db st) (bans_key h) = None"
      using shows_viewD(6) [OF rate_tracksD(6) [OF t], of "hash_ip env ip"] shows_viewD(4) [OF rate_tracksD(6) [OF t], of h] free
      by (force simp flip: not_Some_eq)+
    then show "is_ip_banned L now (hash_ip env ip) st = (Inr False, st)" "get_ban_status L now h st = (Inr None, st)"
      by (simp_all add: is_ip_banned_def get_ban_status_def rate_tracksD(7) [OF t])
  qed
  have run: "check_limit env L bypass (\<lambda>_. now) h ip w st
      = (if of_nat (Suc c) > request_limit w then punish_with (rate_ops L) (\<lambda>_. now) h (hash_ip env ip) (request_limit w) st1
         else (Inr (Allowed (request_limit w) (saturating_sub (request_limit w) (of_nat (Suc c))) (now + 1)), st1))"
    using assms(3) by (simp add: check_limit_def check_with_def count_with_def bindS_def no_ip no_ban inc Let_def)
  show ?thesis
  proof (cases "c < unat (request_limit w)")
    case True
    with le have "of_nat (Suc c) \<le> request_limit w" by blast
    then have "check_limit env L bypass (\<lambda>_. now) h ip w st
        = (Inr (Allowed (request_limit w) (request_limit w - of_nat (Suc c)) (now + 1)), st1)"
      unfolding run saturating_sub_def by (simp only: not_le [symmetric] if_True if_False not_True_eq_False)
    with True t1 c1 show ?thesis by auto
  next
    case False
    obtain st2 where "punish_with (rate_ops L) (\<lambda>_. now) h (hash_ip env ip) (request_limit w) st1
        = (Inr (fst (punish_view (\<lambda>_. now) h (hash_ip env ip) (request_limit w) v)), st2)"
      using rate.punish_refines [where clk = "\<lambda>_. now", OF t1 assms(5)] by blast
    moreover have "\<not> of_nat (Suc c) \<le> request_limit w" using False le by blast
    ultimately have "check_limit env L bypass (\<lambda>_. now) h ip w st = (Inr (over_budget (request_limit w) (pv_viol v h)), st2)"
      unfolding run by (simp only: punish_view_answer not_le [symmetric] if_True not_False_eq_True)
    with False show ?thesis by auto
  qed
qed

lemma burst:
  assumes "rate_tracks L healthy st v" and "counted L st h now c" and "h \<notin> bypass"
    and "in_i64 (now + 86400)" and "\<And>i. i < length ws \<Longrightarrow> c + i < unat (request_limit (ws ! i))"
    and "Suc (c + length ws) < 2 ^ 32" and "pv_ban v h = None" "pv_ip v (hash_ip env ip) = None"
  shows "\<exists>st'. checks (\<lambda>w. check_limit env L bypass (\<lambda>_. now) h ip w) ws st
      = (Inr (map (\<lambda>i. Allowed (request_limit (ws ! i)) (request_limit (ws ! i) - of_nat (Suc (c + i))) (now + 1))
          [0..<length ws]), st')
    \<and> rate_tracks L healthy st' v \<and> counted L st' h now (c + length ws)"
  using assms
proof (induction ws arbitrary: st c)
  case Nil
  then show ?case by simp
next
  case (Cons w ws)
  have "c < unat (request_limit w)" using Cons.prems(5) [of 0] by simp
  moreover have "Suc c < 2 ^ 32" using Cons.prems(6) by simp
  ultimately obtain st1 where s1: "check_limit env L bypass (\<lambda>_. now) h ip w st
      = (Inr (Allowed (request_limit w) (request_limit w - of_nat (Suc c)) (now + 1)), st1)"
    and t1: "rate_tracks L healthy st1 v" and c1: "counted L st1 h now (Suc c)"
    using check_limit_unbanned [OF Cons.prems(1-3) _ Cons.prems(4,7,8), of w] by auto
  have "Suc c + i < unat (request_limit (ws ! i))" if "i < length ws" for i
    using Cons.prems(5) [of "Suc i"] that by simp
  with Cons.IH [OF t1 c1 Cons.prems(3,4)] Cons.prems(6-8) obtain st2
    where s2: "checks (\<lambda>w. check_limit env L bypass (\<lambda>_. now) h ip w) ws st1
      = (Inr (map (\<lambda>i. Allowed (request_limit (ws ! i)) (request_limit (ws ! i) - of_nat (Suc (Suc c + i))) (now + 1))
          [0..<length ws]), st2)"
    and t2: "rate_tracks L healthy st2 v" and c2: "counted L st2 h now (Suc c + length ws)"
    by auto
  have "[0..<length (w # ws)] = 0 # map Suc [0..<length ws]"
    by (simp add: map_Suc_upt upt_conv_Cons del: upt_Suc)
  with s1 s2 t2 c2 show ?case by (simp add: bindS_def comp_def del: of_nat_Suc)
qed

text \<open>The states of the store in which the penalties of every key are on the ladder. A fresh store is
  one, and every check keeps it.\<close>

definition on_ladder ::
  "('db, 'c) rate_libs \<Rightarrow> ('db \<Rightarrow> bool) \<Rightarrow> ('db, 'c) rate_limit_store \<Rightarrow> bool" where
  "on_ladder L healthy st \<longleftrightarrow> (\<exists>v. rate_tracks L healthy st v \<and> ladder v)"

section \<open>Properties\<close>

text \<open>C28. The ladder of penalties. After any history of checks on a database that had no entries of
  the limiter, every key has at most five violations, all of them with their timestamps; the ban
  that is in force, if any, is the one of the last violation with the duration of its level; and
  from the fourth violation on there is one.\<close>

theorem penalty_ladder:
  assumes "rate_libs_ok L healthy" and "healthy db" and "no_rate_entries (contents (rl_rocks L) db)"
    and "list_all clock_fits qs" and "st = limit_run env L bypass qs (rate_limit_store_new L db)"
  shows "\<exists>r b st'. get_violations L h st = (Inr r, st) \<and> get_ban_status L now h st = (Inr b, st') \<and> ladder_rung r b"
proof -
  obtain v where t: "rate_tracks L healthy st v" and v: "ladder v"
    using limit_run_view [OF rate_tracks_fresh [OF assms(1-3)] ladder_empty assms(4)] assms(5) by blast
  from rate_get_ban_status [OF t, of now h] obtain st'
    where "get_ban_status L now h st = (Inr (active_ban now h v), st')" by blast
  moreover have "ladder_rung (pv_viol v h) (active_ban now h v)"
    using v rung_purge [of "pv_viol v h" "pv_ban v h" now] by (simp add: ladder_def active_ban_def)
  ultimately show ?thesis using rate_get_violations [OF t, of h] by blast
qed

text \<open>C29. Four violations are final. In every state that is on the ladder of penalties, a key with
  four violations on record can never write again: after any further history of checks every write
  of this key is blocked, from every address and at every time.\<close>

theorem four_violations_final:
  assumes "on_ladder L healthy st" and "list_all clock_fits qs" and "in_i64 (clk 8 + 86400)" and "h \<notin> bypass"
    and "get_violations L h st = (Inr r, st)" and "4 \<le> unat (vr_count r)"
  shows "on_ladder L healthy (limit_run env L bypass qs st)
    \<and> (\<exists>level secs n st'. check_limit env L bypass clk h ip True (limit_run env L bypass qs st)
      = (Inr (Blocked level secs n), st') \<and> (level = PermanentWriteBan \<or> level = CompleteBlacklist))"
proof -
  obtain v where t: "rate_tracks L healthy st v" and v: "ladder v" using assms(1) by (auto simp: on_ladder_def)
  have "pv_viol v h = r" using rate_get_violations [OF t, of h] assms(5) by simp
  with limit_run_view [OF t v assms(2), of env bypass h] assms(6) obtain v'
    where v': "rate_tracks L healthy (limit_run env L bypass qs st) v'" "ladder v'" "4 \<le> unat (vr_count (pv_viol v' h))"
    by auto
  have "on_ladder L healthy (limit_run env L bypass qs st)" using v' by (auto simp: on_ladder_def)
  moreover note rate.four_strikes [where clk = clk and ip = "hash_ip env ip", OF v' assms(3,4)]
  ultimately show ?thesis by (simp add: check_limit_def)
qed


section \<open>Witnesses\<close>

text \<open>Text codecs for the two record types: integers with a comma after each.\<close>

definition write_ints :: "int list \<Rightarrow> bytes" where
  "write_ints is = as_bytes (concat (map (\<lambda>i. show_int i @ '','') is))"

definition read_ints :: "bytes \<Rightarrow> int list" where
  "read_ints bs = map read_int (butlast (split_on CHR '','' (of_bytes bs)))"

lemma read_write_ints: "read_ints (write_ints is) = is"
proof -
  have "split_on CHR '','' (concat (map (\<lambda>i. show_int i @ '','') is)) = map show_int is @ [[]]"
  proof (induction "is")
    case (Cons i "is")
    have "CHR '','' \<notin> set (show_int i)" by (rule show_no_char) (simp_all add: is_ascii_digit_def)
    with Cons show ?case by (simp add: split_on_append_sep)
  qed simp
  then show ?thesis by (simp add: read_ints_def write_ints_def read_int_show_int comp_def)
qed

definition demo_viol_codec :: "(violation_record, bytes) codec" where
  "demo_viol_codec = \<lparr>
     enc = (\<lambda>r. Inr (write_ints (uint (vr_count r) # vr_last_violation_timestamp r # vr_violation_timestamps r))),
     dec = (\<lambda>bs. case read_ints bs of
        c # l # ts \<Rightarrow> Inr \<lparr>vr_count = word_of_int c, vr_last_violation_timestamp = l, vr_violation_timestamps = ts\<rparr>
      | _ \<Rightarrow> Inl ''eof'')\<rparr>"

definition ban_levels :: "ban_level list" where
  "ban_levels = [BanNone, BanWarning, WriteBlock5Min, WriteBlock1Hr, PermanentWriteBan, CompleteBlacklist]"

definition demo_ban_codec :: "(ban_record, bytes) codec" where
  "demo_ban_codec = \<lparr>
     enc = (\<lambda>r. Inr (write_ints (int (length (takeWhile (\<lambda>l. l \<noteq> br_level r) ban_levels)) # br_created_at r
        # (case br_expires_at r of None \<Rightarrow> [] | Some e \<Rightarrow> [e])))),
     dec = (\<lambda>bs. case read_ints bs of
        l # c # es \<Rightarrow> Inr \<lparr>br_level = ban_levels ! nat l,
          br_expires_at = (case es of [] \<Rightarrow> None | e # _ \<Rightarrow> Some e), br_created_at = c\<rparr>
      | _ \<Rightarrow> Inl ''eof'')\<rparr>"

lemma demo_rate_codecs: "total_codec demo_viol_codec" "total_codec demo_ban_codec"
proof -
  show "total_codec demo_viol_codec"
    by (auto simp: total_codec_def codec_ok_def demo_viol_codec_def read_write_ints)
  have "ban_levels ! length (takeWhile (\<lambda>l. l \<noteq> x) ban_levels) = x" for x
    by (cases x) (simp_all add: ban_levels_def)
  then show "total_codec demo_ban_codec"
    by (auto simp: total_codec_def codec_ok_def demo_ban_codec_def read_write_ints split: option.splits)
qed

definition demo_rate :: "(demo_db, rate_limit_cache_entry demo_cache) rate_libs" where
  "demo_rate = \<lparr>rl_rocks = demo_rocks, rl_lru = demo_lru, rl_viol = demo_viol_codec, rl_ban = demo_ban_codec\<rparr>"

lemma demo_rate_ok: "rate_libs_ok demo_rate demo_healthy" "demo_healthy []" "no_rate_entries (contents (rl_rocks demo_rate) [])"
  by (simp_all add: rate_libs_ok_def demo_rate_def demo_rocks_ok demo_lru_ok demo_rate_codecs demo_healthy_def no_rate_entries_def)

abbreviation demo_limit_request :: "bool \<Rightarrow> limit_request" where
  "demo_limit_request w \<equiv> \<lparr>lr_clk = (\<lambda>_. 1000), lr_key = ''k'', lr_ip = ''127.0.0.1'', lr_write = w\<rparr>"

theorem penalty_ladder_witness:
  "\<exists>r b st'. get_violations demo_rate ''k'' (limit_run demo_env demo_rate {} (replicate 12 (demo_limit_request True)) (rate_limit_store_new demo_rate []))
      = (Inr r, limit_run demo_env demo_rate {} (replicate 12 (demo_limit_request True)) (rate_limit_store_new demo_rate []))
    \<and> get_ban_status demo_rate 1001 ''k'' (limit_run demo_env demo_rate {} (replicate 12 (demo_limit_request True)) (rate_limit_store_new demo_rate []))
      = (Inr b, st') \<and> ladder_rung r b"
  by (rule penalty_ladder [OF demo_rate_ok _ refl]) (simp add: list_all_iff clock_fits_def in_i64_def)


text \<open>A store in which the key \<open>k\<close> has four violations and the ban that goes with them.\<close>

definition demo_banned :: "(demo_db, rate_limit_cache_entry demo_cache) rate_limit_store" where
  "demo_banned = snd (apply_ban demo_rate 1000 ''k'' PermanentWriteBan
     (((\<lambda>st. snd (record_violation demo_rate 1000 ''k'' st)) ^^ 4) (rate_limit_store_new demo_rate [])))"

lemma demo_violations:
  "\<exists>v. rate_tracks demo_rate demo_healthy
      (((\<lambda>st. snd (record_violation demo_rate 1000 ''k'' st)) ^^ n) (rate_limit_store_new demo_rate [])) v
    \<and> pv_viol v ''k'' = ((add_violation 1000) ^^ n) violation_record_new
    \<and> (\<forall>h. h \<noteq> ''k'' \<longrightarrow> pv_viol v h = violation_record_new) \<and> pv_ban v = Map.empty"
proof (induction n)
  case 0
  show ?case using rate_tracks_fresh [OF demo_rate_ok] by (auto simp: penalty_view_empty_def)
next
  case (Suc n)
  then obtain v where v: "rate_tracks demo_rate demo_healthy
      (((\<lambda>st. snd (record_violation demo_rate 1000 ''k'' st)) ^^ n) (rate_limit_store_new demo_rate [])) v"
    "pv_viol v ''k'' = ((add_violation 1000) ^^ n) violation_record_new"
    "\<forall>h. h \<noteq> ''k'' \<longrightarrow> pv_viol v h = violation_record_new" "pv_ban v = Map.empty" by blast
  let ?r = "add_violation 1000 (pv_viol v ''k'')"
  from rate_record_violation [OF v(1), of 1000 "''k''"]
  have "rate_tracks demo_rate demo_healthy
      (((\<lambda>st. snd (record_violation demo_rate 1000 ''k'' st)) ^^ Suc n) (rate_limit_store_new demo_rate []))
      (v\<lparr>pv_viol := (pv_viol v)(''k'' := ?r)\<rparr>)" by auto
  moreover have "pv_viol (v\<lparr>pv_viol := (pv_viol v)(''k'' := ?r)\<rparr>) ''k'' = ((add_violation 1000) ^^ Suc n) violation_record_new"
    by (simp add: v(2))
  ultimately show ?case using v(3,4)
    by (intro exI [of _ "v\<lparr>pv_viol := (pv_viol v)(''k'' := ?r)\<rparr>"]) simp
qed

lemma demo_banned_state:
  "on_ladder demo_rate demo_healthy demo_banned"
  "\<exists>r. get_violations demo_rate ''k'' demo_banned = (Inr r, demo_banned) \<and> unat (vr_count r) = 4"
proof -
  obtain v where v: "rate_tracks demo_rate demo_healthy
      (((\<lambda>st. snd (record_violation demo_rate 1000 ''k'' st)) ^^ 4) (rate_limit_store_new demo_rate [])) v"
    "pv_viol v ''k'' = ((add_violation 1000) ^^ 4) violation_record_new"
    "\<forall>h. h \<noteq> ''k'' \<longrightarrow> pv_viol v h = violation_record_new" "pv_ban v = Map.empty"
    using demo_violations [of 4] by blast
  let ?v = "v\<lparr>pv_ban := (pv_ban v)(''k'' \<mapsto> ban_record_new 1000 PermanentWriteBan)\<rparr>"
  have t: "rate_tracks demo_rate demo_healthy demo_banned ?v"
    using rate_apply_ban [OF v(1), of 1000 "''k''" PermanentWriteBan] by (auto simp: demo_banned_def)
  have four: "((add_violation 1000) ^^ 4) violation_record_new
      = \<lparr>vr_count = 4, vr_last_violation_timestamp = 1000, vr_violation_timestamps = [1000, 1000, 1000, 1000]\<rparr>"
    by (simp add: numeral_eq_Suc add_violation_def violation_record_new_def Let_def)
  have "ladder_rung (pv_viol ?v h) (pv_ban ?v h)" for h
    using v(2) [unfolded four] v(3,4) by (cases "h = ''k''")
      (simp_all add: ladder_rung_def penalty_for_def ban_record_new_def violation_record_new_def)
  with t show "on_ladder demo_rate demo_healthy demo_banned" by (auto simp: on_ladder_def ladder_def)
  show "\<exists>r. get_violations demo_rate ''k'' demo_banned = (Inr r, demo_banned) \<and> unat (vr_count r) = 4"
    using rate_get_violations [OF t, of "''k''"] v(2) by (simp add: four)
qed

theorem four_violations_final_witness:
  "\<exists>level secs n st'. check_limit demo_env demo_rate {} (\<lambda>_. 9000) ''k'' ''10.0.0.1'' True
      (limit_run demo_env demo_rate {} (replicate 3 (demo_limit_request False)) demo_banned)
    = (Inr (Blocked level secs n), st') \<and> (level = PermanentWriteBan \<or> level = CompleteBlacklist)"
proof -
  obtain r where "get_violations demo_rate ''k'' demo_banned = (Inr r, demo_banned)" and "4 \<le> unat (vr_count r)"
    using demo_banned_state(2) by auto
  from four_violations_final [OF demo_banned_state(1) _ _ _ this,
      of "replicate 3 (demo_limit_request False)" "\<lambda>_. 9000" "{}" demo_env "''10.0.0.1''"]
  show ?thesis by (simp add: list_all_iff clock_fits_def in_i64_def)
qed

end
