(* ===== verification/Goud_Audit.thy ===== *)
theory Goud_Audit
  imports Goud_Ledger Goud_Store
begin

text \<open>
  The audit log (\<open>src/types/audit.rs\<close>, \<open>src/storage/audit_log.rs\<close>): events are buffered per account,
  flushed as encrypted collections into the chain, and read back by scanning the chain with the owner's
  API key. The buffer and the key cache are hash maps; the order in which a flush drains the buffer is
  an argument. The callbacks for blocks and for events are represented by what they are called with.
\<close>

section \<open>Types\<close>

datatype audit_event_type = AccountCreated | DataSubmitted | DataDecrypted | DataListed | AccountLogin

fun show_event_type :: "audit_event_type \<Rightarrow> string" where
  "show_event_type AccountCreated = ''AccountCreated''"
| "show_event_type DataSubmitted = ''DataSubmitted''"
| "show_event_type DataDecrypted = ''DataDecrypted''"
| "show_event_type DataListed = ''DataListed''"
| "show_event_type AccountLogin = ''AccountLogin''"

record audit_log_entry =
  ae_event_type :: audit_event_type
  ae_timestamp :: i64
  ae_collection_id :: "string option"
  ae_ip_hash :: string
  ae_metadata :: json
  ae_invalidated :: bool

record audit_log_batch =
  ab_entries :: "audit_log_entry list"
  ab_batch_timestamp :: i64
  ab_entry_count :: nat

definition audit_log_batch_new :: "i64 \<Rightarrow> audit_log_entry list \<Rightarrow> audit_log_batch" where
  "audit_log_batch_new now entries =
     \<lparr>ab_entries = entries, ab_batch_timestamp = now, ab_entry_count = length entries\<rparr>"

record audit_log_response =
  ar_logs :: "audit_log_entry list"
  ar_total :: u64
  ar_page :: u64
  ar_page_size :: u64
  ar_total_pages :: u64

record audit_log_filter =
  af_event_type :: "audit_event_type option"
  af_start_ts :: "i64 option"
  af_end_ts :: "i64 option"
  af_include_invalidated :: bool

section \<open>The logger\<close>

text \<open>\<open>al_broadcasts\<close> and \<open>al_notifies\<close> say whether the callbacks for blocks and for events are set.\<close>

record 'db audit_logger =
  al_blockchain :: blockchain
  al_db :: 'db
  al_broadcasts :: bool
  al_notifies :: bool
  al_pending_logs :: "string \<rightharpoonup> audit_log_entry list"
  al_api_key_cache :: "string \<rightharpoonup> bytes"

text \<open>The libraries: the database, bincode for blocks and for index lists, JSON for batches.\<close>

record 'db audit_libs =
  au_rocks :: "'db rocks"
  au_block_bin :: "(block, bytes) codec"
  au_index_bin :: "(u64 list, bytes) codec"
  au_batch_js :: "(audit_log_batch, string) codec"

definition audit_logger_new :: "blockchain \<Rightarrow> 'db \<Rightarrow> bool \<Rightarrow> bool \<Rightarrow> 'db audit_logger" where
  "audit_logger_new bc db broadcasts notifies =
     \<lparr>al_blockchain = bc, al_db = db, al_broadcasts = broadcasts, al_notifies = notifies,
      al_pending_logs = Map.empty, al_api_key_cache = Map.empty\<rparr>"

definition hash_ip_truncated :: "'z crypto_env_scheme \<Rightarrow> string \<Rightarrow> string" where
  "hash_ip_truncated env ip = take AUDIT_IP_HASH_LENGTH (hex_encode env (sha256_bytes env (as_bytes ip)))"

text \<open>\<open>log\<close> returns the call of the event callback. Reaching the batch size only writes a message.\<close>

definition log_event ::
  "'z crypto_env_scheme \<Rightarrow> i64 \<Rightarrow> bytes \<Rightarrow> audit_event_type \<Rightarrow> string option \<Rightarrow> string \<Rightarrow> json
     \<Rightarrow> ('db audit_logger, fail, (audit_event_type \<times> i64 \<times> string option \<times> json) option) act" where
  "log_event env now api_key event_type cid client_ip metadata st =
     (let account_hash = hash_api_key_hex env api_key;
          st = (if al_api_key_cache st account_hash = None
                then st\<lparr>al_api_key_cache := (al_api_key_cache st)(account_hash \<mapsto> api_key)\<rparr> else st);
          entry = \<lparr>ae_event_type = event_type, ae_timestamp = now, ae_collection_id = cid,
                   ae_ip_hash = hash_ip_truncated env client_ip, ae_metadata = metadata,
                   ae_invalidated = False\<rparr>;
          logs = (case al_pending_logs st account_hash of Some es \<Rightarrow> es | None \<Rightarrow> []) @ [entry]
      in (Inr (if al_notifies st then Some (event_type, now, cid, metadata) else None),
          st\<lparr>al_pending_logs := (al_pending_logs st)(account_hash \<mapsto> logs)\<rparr>))"

text \<open>The batches of one flush, in the order in which the buffer is drained: accounts without entries
  and accounts whose key is not cached are passed over.\<close>

fun drain_batches ::
  "(string \<rightharpoonup> audit_log_entry list) \<Rightarrow> (string \<rightharpoonup> bytes) \<Rightarrow> string list
     \<Rightarrow> (string \<times> audit_log_entry list \<times> bytes) list" where
  "drain_batches pending cache [] = []"
| "drain_batches pending cache (account_hash # order) =
     (case (pending account_hash, cache account_hash) of
        (Some entries, Some api_key) \<Rightarrow>
          (if entries = [] then [] else [(account_hash, entries, api_key)])
      | _ \<Rightarrow> []) @ drain_batches pending cache order"

text \<open>The clock readings and the randomness of one batch; the signing key is drawn when the node has
  none of its own.\<close>

record flush_seed =
  fs_batch_now :: i64
  fs_now :: i64
  fs_collection :: collection_seed
  fs_signing_key :: bytes
  fs_block :: block_seed

text \<open>The second half of a batch: the attempt to create a block from the pending collections, under the lock of the
  chain. The lock is released before the block is saved and handed to the broadcast callback, if that is set.\<close>

definition flush_create ::
  "'z node_env_scheme \<Rightarrow> block_seed \<Rightarrow> ('db audit_logger, fail, block option) act" where
  "flush_create env seed st =
     (let bc = al_blockchain st;
          next_block_number = of_nat (length (chain bc)) + 1
      in case is_authorized_validator (node_id bc) next_block_number (validator_cfg bc) of
           Inl e \<Rightarrow> (Inl e, st)
         | Inr False \<Rightarrow> (Inr None, st)
         | Inr True \<Rightarrow>
             (case add_block env seed bc of
                (Inr block, bc') \<Rightarrow> (Inr (Some block), st\<lparr>al_blockchain := bc'\<rparr>)
              | (Inl Panic, bc') \<Rightarrow> (Inl Panic, st\<lparr>al_blockchain := bc'\<rparr>)
              | (Inl (Fail e), bc') \<Rightarrow> (Inr None, st\<lparr>al_blockchain := bc'\<rparr>)))"

definition flush_save :: "'db audit_libs \<Rightarrow> block \<Rightarrow> ('db audit_logger, fail, block list) act" where
  "flush_save lib block st =
     (Inr (if al_broadcasts st then [block] else []),
      st\<lparr>al_db := snd (save_block (au_rocks lib) (au_block_bin lib) block (al_db st))\<rparr>)"

definition flush_block ::
  "'z node_env_scheme \<Rightarrow> 'db audit_libs \<Rightarrow> block_seed \<Rightarrow> ('db audit_logger, fail, block list) act" where
  "flush_block env lib seed =
     bindS (flush_create env seed) (\<lambda>created.
     case created of Some block \<Rightarrow> flush_save lib block | None \<Rightarrow> retS [])"

lemma flush_block_eq:
  "flush_block env lib seed st =
     (let bc = al_blockchain st;
          next_block_number = of_nat (length (chain bc)) + 1
      in case is_authorized_validator (node_id bc) next_block_number (validator_cfg bc) of
           Inl e \<Rightarrow> (Inl e, st)
         | Inr False \<Rightarrow> (Inr [], st)
         | Inr True \<Rightarrow>
             (case add_block env seed bc of
                (Inr block, bc') \<Rightarrow>
                  (Inr (if al_broadcasts st then [block] else []),
                   st\<lparr>al_blockchain := bc',
                      al_db := snd (save_block (au_rocks lib) (au_block_bin lib) block (al_db st))\<rparr>)
              | (Inl Panic, bc') \<Rightarrow> (Inl Panic, st\<lparr>al_blockchain := bc'\<rparr>)
              | (Inl (Fail e), bc') \<Rightarrow> (Inr [], st\<lparr>al_blockchain := bc'\<rparr>)))"
  by (auto simp: flush_block_def flush_create_def flush_save_def bindS_def Let_def
      split: sum.splits bool.splits prod.splits fail.splits)

definition flush_batch ::
  "'z node_env_scheme \<Rightarrow> 'db audit_libs \<Rightarrow> flush_seed \<Rightarrow> string \<times> audit_log_entry list \<times> bytes
     \<Rightarrow> ('db audit_logger, fail, block list) act" where
  "flush_batch env lib seed batch st =
     (let (account_hash, entries, api_key) = batch;
          signing_key = (case node_signing_key (al_blockchain st) of
              Some k \<Rightarrow> k | None \<Rightarrow> fs_signing_key seed)
      in case bindE (map_err (\<lambda>e. Fail (AuditLogError (''Failed to serialize batch: '' @ e)))
                       (enc (au_batch_js lib) (audit_log_batch_new (fs_batch_now seed) entries)))
                (\<lambda>batch_json.
              encrypted_collection_new env (value_js env) (fs_collection seed) (fs_now seed)
                (AUDIT_LABEL_PREFIX @ ''Batch'') batch_json api_key account_hash signing_key) of
           Inl e \<Rightarrow> (Inl e, st)
         | Inr collection \<Rightarrow>
             flush_block env lib (fs_block seed)
               (st\<lparr>al_blockchain := snd (add_collection collection (al_blockchain st))\<rparr>))"

text \<open>The loop over the batches, the \<open>i\<close>-th with \<open>seeds i\<close>; an early return drops the batches after it.\<close>

fun flush_loop ::
  "'z node_env_scheme \<Rightarrow> 'db audit_libs \<Rightarrow> (nat \<Rightarrow> flush_seed) \<Rightarrow> nat
     \<Rightarrow> (string \<times> audit_log_entry list \<times> bytes) list \<Rightarrow> ('db audit_logger, fail, block list) act" where
  "flush_loop env lib seeds i [] st = (Inr [], st)"
| "flush_loop env lib seeds i (batch # batches) st =
     bindS (flush_batch env lib (seeds i) batch) (\<lambda>sent.
     bindS (flush_loop env lib seeds (Suc i) batches) (\<lambda>more. retS (sent @ more))) st"

definition flush_all_batches ::
  "'z node_env_scheme \<Rightarrow> 'db audit_libs \<Rightarrow> string list \<Rightarrow> (nat \<Rightarrow> flush_seed)
     \<Rightarrow> ('db audit_logger, fail, block list) act" where
  "flush_all_batches env lib order seeds st =
     flush_loop env lib seeds 0 (drain_batches (al_pending_logs st) (al_api_key_cache st) order)
       (st\<lparr>al_pending_logs := Map.empty\<rparr>)"

section \<open>Queries\<close>

definition audit_index_key :: "string \<Rightarrow> bytes" where
  "audit_index_key account_hash = as_bytes (''audit_index:'' @ account_hash)"

definition get_audit_block_indexes :: "'db audit_libs \<Rightarrow> 'db \<Rightarrow> string \<Rightarrow> u64 list res" where
  "get_audit_block_indexes lib db account_hash =
     (case db_get (au_rocks lib) db (audit_index_key account_hash) of
        Inr (Some bs) \<Rightarrow>
          map_err (\<lambda>e. Fail (AuditLogError (''Failed to deserialize index: '' @ e)))
            (dec (au_index_bin lib) bs)
      | Inr None \<Rightarrow> Inr []
      | Inl e \<Rightarrow> Err (RocksDbError e))"

definition update_audit_index :: "'db audit_libs \<Rightarrow> string \<Rightarrow> u64 \<Rightarrow> ('db, fail, unit) act" where
  "update_audit_index lib account_hash block_index db =
     (case get_audit_block_indexes lib db account_hash of
        Inl e \<Rightarrow> (Inl e, db)
      | Inr indexes \<Rightarrow>
          if block_index \<in> set indexes then (Inr (), db)
          else
            bindS (liftS (map_err (\<lambda>e. Fail (AuditLogError (''Failed to serialize index: '' @ e)))
                     (enc (au_index_bin lib) (indexes @ [block_index])))) (\<lambda>serialized.
            db_call RocksDbError (\<lambda>db. db_put (au_rocks lib) db (audit_index_key account_hash) serialized)) db)"

text \<open>What the scan takes from one collection of the owner: the entries of an audit batch it can open.\<close>

definition collection_entries ::
  "'z node_env_scheme \<Rightarrow> 'db audit_libs \<Rightarrow> bytes \<Rightarrow> encrypted_collection \<Rightarrow> audit_log_entry list" where
  "collection_entries env lib api_key c =
     (case decrypt_metadata env (value_js env) c api_key of
        Inl _ \<Rightarrow> []
      | Inr metadata \<Rightarrow>
          (case as_str (json_index metadata ''label'') of
             None \<Rightarrow> []
           | Some label \<Rightarrow>
               if take (length AUDIT_LABEL_PREFIX) label \<noteq> AUDIT_LABEL_PREFIX then []
               else (case decrypt_payload env c api_key of
                   Inl _ \<Rightarrow> []
                 | Inr payload \<Rightarrow>
                     (case dec (au_batch_js lib) payload of Inl _ \<Rightarrow> [] | Inr batch \<Rightarrow> ab_entries batch))))"

definition block_entries ::
  "'z node_env_scheme \<Rightarrow> 'db audit_libs \<Rightarrow> bytes \<Rightarrow> block \<Rightarrow> audit_log_entry list" where
  "block_entries env lib api_key b =
     (case get_collections_by_owner env (container_js env) b api_key of
        Inr collections \<Rightarrow> concat (map (collection_entries env lib api_key) collections)
      | Inl _ \<Rightarrow> [])"

definition scan_blocks ::
  "'z node_env_scheme \<Rightarrow> 'db audit_libs \<Rightarrow> bytes \<Rightarrow> block list \<Rightarrow> u64 list \<Rightarrow> audit_log_entry list" where
  "scan_blocks env lib api_key bs indexes =
     concat (map (\<lambda>i. if unat i < length bs then block_entries env lib api_key (bs ! unat i) else []) indexes)"

definition filter_keeps :: "audit_log_filter \<Rightarrow> audit_log_entry \<Rightarrow> bool" where
  "filter_keeps f e \<longleftrightarrow>
     (af_include_invalidated f \<or> \<not> ae_invalidated e)
     \<and> (case af_event_type f of Some t \<Rightarrow> ae_event_type e = t | None \<Rightarrow> True)
     \<and> (case af_start_ts f of Some s \<Rightarrow> s \<le> ae_timestamp e | None \<Rightarrow> True)
     \<and> (case af_end_ts f of Some t \<Rightarrow> ae_timestamp e \<le> t | None \<Rightarrow> True)"

text \<open>\<open>sort_by\<close> is stable. Products and sums of \<open>usize\<close> wrap around; the division panics on zero and
  the slice on bounds in the wrong order.\<close>

definition div_ceil :: "u64 \<Rightarrow> u64 \<Rightarrow> u64" where
  "div_ceil a b = (let q = a div b; r = a mod b in if r > 0 then q + 1 else q)"

definition paginate ::
  "audit_log_entry list \<Rightarrow> u64 \<Rightarrow> u64 \<Rightarrow> audit_log_response res" where
  "paginate all_entries page page_size =
     (let total = of_nat (length all_entries);
          start_idx = page * page_size;
          end_idx = min (start_idx + page_size) total
      in if page_size = 0 then panic
         else if start_idx < total then
           (if end_idx < start_idx then panic
            else Inr \<lparr>ar_logs = take (unat end_idx - unat start_idx) (drop (unat start_idx) all_entries),
                      ar_total = total, ar_page = page, ar_page_size = page_size,
                      ar_total_pages = div_ceil total page_size\<rparr>)
         else Inr \<lparr>ar_logs = [], ar_total = total, ar_page = page, ar_page_size = page_size,
                   ar_total_pages = div_ceil total page_size\<rparr>)"

definition newest_first :: "audit_log_entry list \<Rightarrow> audit_log_entry list" where
  "newest_first es = sort_key (\<lambda>e. - ae_timestamp e) es"

definition query_logs ::
  "'z node_env_scheme \<Rightarrow> 'db audit_libs \<Rightarrow> bytes \<Rightarrow> audit_log_filter \<Rightarrow> u64 \<Rightarrow> u64 \<Rightarrow> 'db audit_logger
     \<Rightarrow> audit_log_response res" where
  "query_logs env lib api_key flt page page_size st =
     bindE (get_audit_block_indexes lib (al_db st) (hash_api_key_hex env api_key)) (\<lambda>block_indexes.
     let bs = chain (al_blockchain st);
         indexes_to_scan = (if block_indexes = [] then map of_nat [0..<length bs] else block_indexes);
         all_entries = filter (filter_keeps flt) (scan_blocks env lib api_key bs indexes_to_scan)
     in paginate (newest_first all_entries) page page_size)"

section \<open>No event is lost or invented\<close>

text \<open>The trail of an API key: the entries that a scan finds on the chain, followed by those in the
  collections that wait for a block.\<close>

definition chain_entries :: "'z node_env_scheme \<Rightarrow> 'db audit_libs \<Rightarrow> bytes \<Rightarrow> blockchain \<Rightarrow> audit_log_entry list" where
  "chain_entries env lib k bc = concat (map (block_entries env lib k) (chain bc))"

definition pending_entries :: "'z node_env_scheme \<Rightarrow> 'db audit_libs \<Rightarrow> bytes \<Rightarrow> blockchain \<Rightarrow> audit_log_entry list" where
  "pending_entries env lib k bc = concat (map (collection_entries env lib k)
     (filter (\<lambda>c. owner_api_key_hash c = hash_api_key_hex env k) (pending_collections bc)))"

definition audit_trail :: "'z node_env_scheme \<Rightarrow> 'db audit_libs \<Rightarrow> bytes \<Rightarrow> blockchain \<Rightarrow> audit_log_entry list" where
  "audit_trail env lib k bc = chain_entries env lib k bc @ pending_entries env lib k bc"

definition buffered :: "'z node_env_scheme \<Rightarrow> bytes \<Rightarrow> 'db audit_logger \<Rightarrow> audit_log_entry list" where
  "buffered env k st = (case al_pending_logs st (hash_api_key_hex env k) of Some es \<Rightarrow> es | None \<Rightarrow> [])"

lemma scan_all_blocks:
  assumes "length (chain bc) < 2 ^ 64"
  shows "scan_blocks env lib k (chain bc) (map of_nat [0..<length (chain bc)]) = chain_entries env lib k bc"
proof -
  have "unat (of_nat i :: u64) = i" if "i < length (chain bc)" for i
    using that assms by (simp add: unat_of_nat)
  then have "map (\<lambda>i. if unat (of_nat i :: u64) < length (chain bc)
        then block_entries env lib k (chain bc ! unat (of_nat i :: u64)) else []) [0..<length (chain bc)]
      = map (\<lambda>i. block_entries env lib k (chain bc ! i)) [0..<length (chain bc)]"
    by (intro map_cong) auto
  moreover have "map (\<lambda>i. block_entries env lib k (chain bc ! i)) [0..<length (chain bc)]
      = map (block_entries env lib k) (chain bc)"
    by (rule nth_equalityI) auto
  ultimately show ?thesis by (simp add: scan_blocks_def chain_entries_def comp_def)
qed

lemma trail_add_collection:
  "audit_trail env lib k (snd (add_collection c bc)) = audit_trail env lib k bc
     @ (if owner_api_key_hash c = hash_api_key_hex env k then collection_entries env lib k c else [])"
  by (simp add: audit_trail_def chain_entries_def pending_entries_def add_collection_def)

lemma trail_add_block:
  assumes "node_env_ok env" and "add_block env seed bc = (r, bc')"
  shows "audit_trail env lib k bc' = audit_trail env lib k bc"
proof (cases r)
  case (Inl e)
  with assms(2) show ?thesis by (auto simp: add_block_def split: sum.splits)
next
  case (Inr b)
  with assms(2) have make: "make_block env seed bc = Inr b" and "chain bc' = chain bc @ [b]"
    and "pending_collections bc' = []"
    by (auto simp: add_block_def split: sum.splits)
  then show ?thesis
    using collections_after_block [OF assms(1) make, of k]
    by (simp add: audit_trail_def chain_entries_def pending_entries_def block_entries_def)
qed

lemma flush_block_keeps:
  assumes "node_env_ok env" and "flush_block env lib seed st = (r, st')"
  shows "audit_trail env lib k (al_blockchain st') = audit_trail env lib k (al_blockchain st)"
    and "al_pending_logs st' = al_pending_logs st" and "al_api_key_cache st' = al_api_key_cache st"
  using assms(2) trail_add_block [OF assms(1)]
  by (auto simp: flush_block_eq Let_def split: sum.splits bool.splits prod.splits fail.splits)

text \<open>A batch that was flushed is read back by its owner.\<close>

lemma batch_collection_entries:
  assumes "node_env_ok env" and "text_codec_ok (value_js env)" and "text_codec_ok (au_batch_js lib)"
    and "length (seed_meta_nonce seed) = 12" and "length (seed_payload_nonce seed) = 12"
    and "enc (au_batch_js lib) batch = Inr batch_json"
    and "encrypted_collection_new env (value_js env) seed now (AUDIT_LABEL_PREFIX @ l) batch_json k h sk = Inr c"
  shows "collection_entries env lib k c = ab_entries batch" and "owner_api_key_hash c = h"
proof -
  have ok: "b64_ok env" "aead_ok env" using assms(1) by (auto simp: node_env_ok_def)
  have u: "utf8_valid (as_bytes batch_json)" and d: "dec (au_batch_js lib) batch_json = Inr batch"
    using assms(3,6) by (auto simp: text_codec_ok_def codec_okD)
  note opens = new_collection_decrypts [OF ok assms(2) u assms(4,5,7)]
  show "collection_entries env lib k c = ab_entries batch"
    by (simp add: collection_entries_def opens collection_metadata_def d)
  show "owner_api_key_hash c = h"
    using assms(7) by (rule encrypted_collection_new_fields)
qed

lemma flush_batch_trail:
  assumes env: "node_env_ok env" "text_codec_ok (value_js env)" "text_codec_ok (au_batch_js lib)"
    and nonces: "length (seed_meta_nonce (fs_collection seed)) = 12"
      "length (seed_payload_nonce (fs_collection seed)) = 12"
    and key: "h = hash_api_key_hex env k \<longrightarrow> api_key = k"
    and flush: "flush_batch env lib seed (h, es, api_key) st = (Inr sent, st')"
  shows "audit_trail env lib k (al_blockchain st') = audit_trail env lib k (al_blockchain st)
           @ (if h = hash_api_key_hex env k then es else [])"
    and "al_pending_logs st' = al_pending_logs st" and "al_api_key_cache st' = al_api_key_cache st"
proof -
  from flush obtain j sk c where
    j: "enc (au_batch_js lib) (audit_log_batch_new (fs_batch_now seed) es) = Inr j"
    and c: "encrypted_collection_new env (value_js env) (fs_collection seed) (fs_now seed)
              (AUDIT_LABEL_PREFIX @ ''Batch'') j api_key h sk = Inr c"
    and block: "flush_block env lib (fs_block seed)
        (st\<lparr>al_blockchain := snd (add_collection c (al_blockchain st))\<rparr>) = (Inr sent, st')"
    by (auto simp: flush_batch_def Let_def res_iff split: sum.splits)
  note kept = flush_block_keeps [OF env(1) block]
  note read = batch_collection_entries [OF env nonces j c]
  show "al_pending_logs st' = al_pending_logs st" "al_api_key_cache st' = al_api_key_cache st"
    using kept(2,3) by simp_all
  show "audit_trail env lib k (al_blockchain st') = audit_trail env lib k (al_blockchain st)
           @ (if h = hash_api_key_hex env k then es else [])"
    using kept(1) [of k] key read by (auto simp: trail_add_collection audit_log_batch_new_def)
qed

definition batch_entries ::
  "'z node_env_scheme \<Rightarrow> bytes \<Rightarrow> (string \<times> audit_log_entry list \<times> bytes) list \<Rightarrow> audit_log_entry list" where
  "batch_entries env k batches =
     concat (map (\<lambda>(h, es, _). if h = hash_api_key_hex env k then es else []) batches)"

lemma flush_loop_trail:
  assumes env: "node_env_ok env" "text_codec_ok (value_js env)" "text_codec_ok (au_batch_js lib)"
    and nonces: "\<forall>i. length (seed_meta_nonce (fs_collection (seeds i))) = 12
      \<and> length (seed_payload_nonce (fs_collection (seeds i))) = 12"
    and "\<forall>(h, es, api_key)\<in>set batches. h = hash_api_key_hex env k \<longrightarrow> api_key = k"
    and "flush_loop env lib seeds i batches st = (Inr sent, st')"
  shows "audit_trail env lib k (al_blockchain st') = audit_trail env lib k (al_blockchain st)
           @ batch_entries env k batches
       \<and> al_pending_logs st' = al_pending_logs st \<and> al_api_key_cache st' = al_api_key_cache st"
  using assms(5,6)
proof (induction batches arbitrary: i st sent)
  case Nil
  then show ?case by (simp add: batch_entries_def)
next
  case (Cons batch batches)
  obtain h es key where batch: "batch = (h, es, key)" by (cases batch)
  from Cons.prems(2) obtain s1 t s2 where first: "flush_batch env lib (seeds i) (h, es, key) st = (Inr s1, t)"
    and rest: "flush_loop env lib seeds (Suc i) batches t = (Inr s2, st')"
    by (auto simp: res_iff batch)
  have "h = hash_api_key_hex env k \<longrightarrow> key = k" using Cons.prems(1) by (simp add: batch)
  note step = flush_batch_trail [OF env _ _ this first]
  have "\<forall>(h, es, key)\<in>set batches. h = hash_api_key_hex env k \<longrightarrow> key = k" using Cons.prems(1) by simp
  note IH = Cons.IH [OF this rest]
  show ?case using IH step nonces by (simp add: batch_entries_def batch)
qed

text \<open>Every key in the cache hashes to the account it is stored for, and every buffered account has one.\<close>

definition audit_inv :: "'z crypto_env_scheme \<Rightarrow> 'db audit_logger \<Rightarrow> bool" where
  "audit_inv env st \<longleftrightarrow> finite (dom (al_pending_logs st))
     \<and> dom (al_pending_logs st) \<subseteq> dom (al_api_key_cache st)
     \<and> (\<forall>h key. al_api_key_cache st h = Some key \<longrightarrow> hash_api_key_hex env key = h)"

lemma batch_entries_Nil:
  "hash_api_key_hex env k \<notin> set order \<Longrightarrow> batch_entries env k (drain_batches pending cache order) = []"
  by (induction order) (auto simp: batch_entries_def split: option.splits)

lemma drain_batches_append:
  "drain_batches pending cache (xs @ ys) = drain_batches pending cache xs @ drain_batches pending cache ys"
  by (induction xs) auto

lemma batch_entries_append: "batch_entries env k (xs @ ys) = batch_entries env k xs @ batch_entries env k ys"
  by (simp add: batch_entries_def)

lemma batch_entries_drain:
  assumes "distinct order" and "set order = dom pending" and "dom pending \<subseteq> dom cache"
  shows "batch_entries env k (drain_batches pending cache order)
    = (case pending (hash_api_key_hex env k) of Some es \<Rightarrow> es | None \<Rightarrow> [])"
proof (cases "pending (hash_api_key_hex env k)")
  case None
  with assms(2) have "hash_api_key_hex env k \<notin> set order" by auto
  with None show ?thesis by (simp add: batch_entries_Nil)
next
  case (Some es)
  let ?h = "hash_api_key_hex env k"
  from Some assms(2) obtain xs ys where order: "order = xs @ ?h # ys"
    by (metis domI split_list)
  from Some assms(3) obtain key where "cache ?h = Some key" by blast
  with Some have "batch_entries env k (drain_batches pending cache [?h]) = es"
    by (simp add: batch_entries_def)
  moreover have "batch_entries env k (drain_batches pending cache xs) = []"
    "batch_entries env k (drain_batches pending cache ys) = []"
    using order assms(1) by (auto intro: batch_entries_Nil)
  moreover have "order = xs @ [?h] @ ys" using order by simp
  ultimately show ?thesis using Some by (simp only: drain_batches_append batch_entries_append) simp
qed

lemma drain_keys:
  "(h, es, key) \<in> set (drain_batches pending cache order) \<Longrightarrow> cache h = Some key"
  by (induction order) (auto split: option.splits if_splits)

section \<open>Sequences of events and flushes\<close>

datatype audit_op =
    LogEvent i64 bytes audit_event_type "string option" string json
  | FlushBatches "nat \<Rightarrow> flush_seed"

text \<open>\<open>order\<close> gives the order in which a hash map is drained.\<close>

fun audit_step ::
  "'z node_env_scheme \<Rightarrow> 'db audit_libs \<Rightarrow> ((string \<rightharpoonup> audit_log_entry list) \<Rightarrow> string list) \<Rightarrow> audit_op
     \<Rightarrow> ('db audit_logger, fail, unit) act" where
  "audit_step env lib order (LogEvent now api_key t cid ip metadata) st =
     bindS (log_event env now api_key t cid ip metadata) (\<lambda>_. retS ()) st"
| "audit_step env lib order (FlushBatches seeds) st =
     bindS (flush_all_batches env lib (order (al_pending_logs st)) seeds) (\<lambda>_. retS ()) st"

fun audit_run ::
  "'z node_env_scheme \<Rightarrow> 'db audit_libs \<Rightarrow> ((string \<rightharpoonup> audit_log_entry list) \<Rightarrow> string list) \<Rightarrow> audit_op list
     \<Rightarrow> ('db audit_logger, fail, unit) act" where
  "audit_run env lib order [] st = (Inr (), st)"
| "audit_run env lib order (op # ops) st =
     bindS (audit_step env lib order op) (\<lambda>_. audit_run env lib order ops) st"

definition drains :: "((string \<rightharpoonup> audit_log_entry list) \<Rightarrow> string list) \<Rightarrow> bool" where
  "drains order \<longleftrightarrow> (\<forall>m. finite (dom m) \<longrightarrow> distinct (order m) \<and> set (order m) = dom m)"

text \<open>The entries that an operation logs for an API key.\<close>

fun logged :: "'z node_env_scheme \<Rightarrow> bytes \<Rightarrow> audit_op \<Rightarrow> audit_log_entry list" where
  "logged env k (LogEvent now api_key t cid ip metadata) =
     (if hash_api_key_hex env api_key = hash_api_key_hex env k
      then [\<lparr>ae_event_type = t, ae_timestamp = now, ae_collection_id = cid,
             ae_ip_hash = hash_ip_truncated env ip, ae_metadata = metadata, ae_invalidated = False\<rparr>]
      else [])"
| "logged env k (FlushBatches seeds) = []"

text \<open>The cipher gets nonces of twelve bytes, and no other key that logs has the hash of \<open>k\<close>.\<close>

fun audit_op_ok :: "'z node_env_scheme \<Rightarrow> bytes \<Rightarrow> audit_op \<Rightarrow> bool" where
  "audit_op_ok env k (LogEvent now api_key t cid ip metadata) \<longleftrightarrow>
     (hash_api_key_hex env api_key = hash_api_key_hex env k \<longrightarrow> api_key = k)"
| "audit_op_ok env k (FlushBatches seeds) \<longleftrightarrow>
     (\<forall>i. length (seed_meta_nonce (fs_collection (seeds i))) = 12
        \<and> length (seed_payload_nonce (fs_collection (seeds i))) = 12)"

definition key_settled :: "'z crypto_env_scheme \<Rightarrow> bytes \<Rightarrow> 'db audit_logger \<Rightarrow> bool" where
  "key_settled env k st \<longleftrightarrow> al_api_key_cache st (hash_api_key_hex env k) \<in> {None, Some k}"

lemma log_event_state:
  assumes "log_event env now api_key t cid ip metadata st = (r, st')"
  defines "h \<equiv> hash_api_key_hex env api_key"
  shows "al_blockchain st' = al_blockchain st"
    and "al_api_key_cache st' = (if al_api_key_cache st h = None
           then (al_api_key_cache st)(h \<mapsto> api_key) else al_api_key_cache st)"
    and "al_pending_logs st' = (al_pending_logs st)(h \<mapsto>
           buffered env api_key st @ logged env api_key (LogEvent now api_key t cid ip metadata))"
  using assms(1) unfolding log_event_def Let_def h_def buffered_def by auto

lemma log_event_step:
  assumes "audit_inv env st" and "key_settled env k st"
    and "audit_op_ok env k (LogEvent now api_key t cid ip metadata)"
    and "log_event env now api_key t cid ip metadata st = (r, st')"
  shows "audit_inv env st'" and "key_settled env k st'" and "al_blockchain st' = al_blockchain st"
    and "buffered env k st' = buffered env k st @ logged env k (LogEvent now api_key t cid ip metadata)"
proof -
  note state = log_event_state [OF assms(4)]
  show "al_blockchain st' = al_blockchain st" by (rule state(1))
  show "key_settled env k st'"
    using assms(2,3) by (auto simp: key_settled_def state(2))
  show "buffered env k st' = buffered env k st @ logged env k (LogEvent now api_key t cid ip metadata)"
    unfolding buffered_def state(3) by (simp add: buffered_def)
  show "audit_inv env st'"
    using assms(1) unfolding audit_inv_def state(2,3) by (simp split: if_splits) blast
qed

lemma flush_step:
  assumes env: "node_env_ok env" "text_codec_ok (value_js env)" "text_codec_ok (au_batch_js lib)"
    and "drains order" and inv: "audit_inv env st" and key: "key_settled env k st"
    and "audit_op_ok env k (FlushBatches seeds)"
    and flush: "flush_all_batches env lib (order (al_pending_logs st)) seeds st = (Inr sent, st')"
  shows "audit_inv env st'" and "key_settled env k st'" and "al_pending_logs st' = Map.empty"
    and "audit_trail env lib k (al_blockchain st') = audit_trail env lib k (al_blockchain st) @ buffered env k st"
proof -
  let ?batches = "drain_batches (al_pending_logs st) (al_api_key_cache st) (order (al_pending_logs st))"
  have keys: "\<forall>(h, es, api_key)\<in>set ?batches. h = hash_api_key_hex env k \<longrightarrow> api_key = k"
    using key by (auto simp: key_settled_def dest!: drain_keys)
  have "flush_loop env lib seeds 0 ?batches (st\<lparr>al_pending_logs := Map.empty\<rparr>) = (Inr sent, st')"
    using flush by (simp add: flush_all_batches_def)
  note loop = flush_loop_trail [OF env _ keys this]
  have order: "distinct (order (al_pending_logs st))" "set (order (al_pending_logs st)) = dom (al_pending_logs st)"
    using assms(4) inv by (auto simp: drains_def audit_inv_def)
  have dom: "dom (al_pending_logs st) \<subseteq> dom (al_api_key_cache st)" using inv by (simp add: audit_inv_def)
  note batches = batch_entries_drain [OF order dom, of env k]
  show "al_pending_logs st' = Map.empty" "audit_inv env st'" "key_settled env k st'"
    "audit_trail env lib k (al_blockchain st') = audit_trail env lib k (al_blockchain st) @ buffered env k st"
    using loop batches assms(7) inv key by (simp_all add: audit_inv_def key_settled_def buffered_def)
qed

lemma audit_run_conserves:
  assumes env: "node_env_ok env" "text_codec_ok (value_js env)" "text_codec_ok (au_batch_js lib)"
    and order: "drains order"
    and "audit_inv env st" and "key_settled env k st" and "\<forall>op\<in>set ops. audit_op_ok env k op"
    and "audit_run env lib order ops st = (Inr (), st')"
  shows "audit_trail env lib k (al_blockchain st') @ buffered env k st'
    = audit_trail env lib k (al_blockchain st) @ buffered env k st @ concat (map (logged env k) ops)"
  using assms(5-8)
proof (induction ops arbitrary: st)
  case (Cons op ops)
  show ?case
  proof (cases op)
    case (LogEvent now api_key t cid ip metadata)
    with Cons.prems(4) obtain r t' where log: "log_event env now api_key t cid ip metadata st = (Inr r, t')"
      and run: "audit_run env lib order ops t' = (Inr (), st')" by (auto simp: res_iff)
    have "audit_op_ok env k (LogEvent now api_key t cid ip metadata)" using Cons.prems(3) LogEvent by simp
    note step = log_event_step [OF Cons.prems(1,2) this log]
    show ?thesis using Cons.IH [OF step(1,2) _ run] Cons.prems(3) step(3,4) LogEvent by simp
  next
    case (FlushBatches seeds)
    with Cons.prems(4) obtain sent t' where
      flush: "flush_all_batches env lib (order (al_pending_logs st)) seeds st = (Inr sent, t')"
      and run: "audit_run env lib order ops t' = (Inr (), st')" by (auto simp: res_iff)
    have "audit_op_ok env k (FlushBatches seeds)" using Cons.prems(3) FlushBatches by simp
    note step = flush_step [OF env order Cons.prems(1,2) this flush]
    have "buffered env k t' = []" using step(3) by (simp add: buffered_def)
    then show ?thesis using Cons.IH [OF step(1,2) _ run] Cons.prems(3) step(4) FlushBatches by simp
  qed
qed simp

text \<open>C37. Audit events are conserved. For any sequence of logged events and flushes that succeeds, from a
  new logger, the entries that the owner of an API key can read, on the chain and in the collections
  waiting for a block, together with those still buffered, are the ones readable before followed by
  the events logged for that key, each exactly once and in order.\<close>

theorem audit_events_conserved:
  assumes "node_env_ok env" and "text_codec_ok (value_js env)" and "text_codec_ok (au_batch_js lib)"
    and "drains order" and "\<forall>op\<in>set ops. audit_op_ok env k op"
    and "audit_run env lib order ops (audit_logger_new bc db broadcasts notifies) = (Inr (), st')"
  shows "audit_trail env lib k (al_blockchain st') @ buffered env k st'
    = audit_trail env lib k bc @ concat (map (logged env k) ops)"
proof -
  have "audit_inv env (audit_logger_new bc db broadcasts notifies)"
    "key_settled env k (audit_logger_new bc db broadcasts notifies)"
    by (simp_all add: audit_inv_def key_settled_def audit_logger_new_def)
  from audit_run_conserves [OF assms(1-4) this assms(5,6)] show ?thesis
    by (simp add: audit_logger_new_def buffered_def)
qed

section \<open>Pages of a query\<close>

lemma concat_pages:
  "concat (map (\<lambda>p. take n (drop (p * n) xs)) [0..<m]) = take (m * n) xs"
proof (induction m)
  case (Suc m)
  then show ?case by (simp add: take_add [symmetric] add.commute)
qed simp

lemma div_ceil_nat:
  fixes a b :: u64
  assumes "b \<noteq> 0" and "unat a + unat b < 2 ^ 64"
  shows "unat (div_ceil a b) = (unat a + unat b - 1) div unat b"
proof -
  have b: "0 < unat b" using assms(1) by (simp add: unat_gt_0)
  have split: "unat a = unat a div unat b * unat b + unat a mod unat b" by simp
  have "unat (a div b + 1) = unat a div unat b + 1"
  proof -
    have "unat a div unat b + 1 < 2 ^ 64"
      using assms(2) b div_le_dividend [of "unat a" "unat b"] by linarith
    then show ?thesis by (simp add: unat_word_ariths unat_div_distrib)
  qed
  moreover have "(unat a + unat b - 1) div unat b = (if unat a mod unat b > 0 then unat a div unat b + 1 else unat a div unat b)"
  proof (cases "unat a mod unat b")
    case 0
    then have "unat a + unat b - 1 = unat a div unat b * unat b + (unat b - 1)" using b split by linarith
    also have "\<dots> div unat b = unat a div unat b + (unat b - 1) div unat b"
      by (rule div_mult_self3) (use b in simp)
    also have "(unat b - 1) div unat b = 0" using b by simp
    finally show ?thesis using 0 by simp
  next
    case (Suc r)
    have "r < unat b" using Suc b mod_less_divisor [OF b, of "unat a"] by simp
    have "unat a + unat b - 1 = (unat a div unat b + 1) * unat b + r" using Suc b split by simp
    also have "\<dots> div unat b = unat a div unat b + 1 + r div unat b"
      by (rule div_mult_self3) (use b in simp)
    also have "r div unat b = 0" using \<open>r < unat b\<close> by simp
    finally show ?thesis using Suc by simp
  qed
  ultimately show ?thesis
    by (simp add: div_ceil_def Let_def unat_div_distrib word_less_nat_alt unat_mod_distrib)
qed

lemma newest_first_sorted: "sorted_wrt (\<lambda>a b. ae_timestamp a \<ge> ae_timestamp b) (newest_first es)"
  using sorted_sort_key [of "\<lambda>e. - ae_timestamp e" es]
  by (simp add: newest_first_def sorted_map)

lemma newest_first_stable:
  "filter (\<lambda>e. ae_timestamp e = t) (newest_first es) = filter (\<lambda>e. ae_timestamp e = t) es"
  using sort_key_stable [of "\<lambda>e. - ae_timestamp e" "- t" es] by (simp add: newest_first_def)

definition page_count :: "nat \<Rightarrow> nat \<Rightarrow> nat" where
  "page_count len n = (len + n - 1) div n"

lemma paginate_page:
  assumes "ps \<noteq> 0" and "length es + unat ps < 2 ^ 64" and "unat page * unat ps < 2 ^ 64"
  shows "paginate es page ps = Inr \<lparr>ar_logs = take (unat ps) (drop (unat page * unat ps) es),
     ar_total = of_nat (length es), ar_page = page, ar_page_size = ps,
     ar_total_pages = of_nat (page_count (length es) (unat ps))\<rparr>"
proof -
  have total: "unat (of_nat (length es) :: u64) = length es" using assms(2) by (simp add: unat_of_nat)
  have start: "unat (page * ps) = unat page * unat ps" using assms(3) by (simp add: unat_word_ariths)
  have "page_count (length es) (unat ps) < 2 ^ 64"
    unfolding page_count_def using assms(2) div_le_dividend [of "length es + unat ps - 1" "unat ps"] by linarith
  then have "div_ceil (of_nat (length es)) ps = of_nat (page_count (length es) (unat ps))"
    using div_ceil_nat [OF assms(1), of "of_nat (length es)"] assms(2) total
    by (simp add: page_count_def word_unat_eq_iff unat_of_nat)
  moreover have "unat (page * ps + ps) = unat page * unat ps + unat ps" if "unat page * unat ps < length es"
    using that assms(2) start by (simp add: unat_word_ariths)
  ultimately show ?thesis
    using assms(1) total start
    by (auto simp: paginate_def Let_def word_less_nat_alt word_le_nat_alt min_def)
qed
lemma page_count_covers: "0 < n \<Longrightarrow> len \<le> page_count len n * n"
proof -
  assume "0 < n"
  then have "len + n - 1 = page_count len n * n + (len + n - 1) mod n" by (simp add: page_count_def)
  moreover have "(len + n - 1) mod n < n" using \<open>0 < n\<close> by simp
  ultimately show ?thesis by linarith
qed

lemma page_count_bound:
  assumes "0 < n" and "p < page_count len n"
  shows "p * n < len"
proof -
  have "(p + 1) * n \<le> page_count len n * n" using assms(2) by (intro mult_le_mono1) simp
  also have "\<dots> \<le> len + n - 1" by (simp add: page_count_def)
  finally show ?thesis using assms(1) by simp
qed

lemma query_logs_unindexed:
  assumes "length (chain (al_blockchain st)) < 2 ^ 64"
    and "get_audit_block_indexes lib (al_db st) (hash_api_key_hex env k) = Inr []"
  shows "query_logs env lib k flt page ps st =
    paginate (newest_first (filter (filter_keeps flt) (chain_entries env lib k (al_blockchain st)))) page ps"
  by (simp add: query_logs_def assms(2) scan_all_blocks [OF assms(1)] Let_def)

text \<open>C38. Audit queries page through the log exactly. Without a stored index, the pages
  \<open>0, 1, \<dots>, total_pages - 1\<close> of a query hold, one after the other, all the entries on the chain that the
  API key opens and the filter keeps, newest first and otherwise in the order of the chain, each
  page full except perhaps the last; later pages are empty, and a page size of zero panics.\<close>

theorem audit_query_pages:
  assumes "length (chain (al_blockchain st)) < 2 ^ 64"
    and "get_audit_block_indexes lib (al_db st) (hash_api_key_hex env k) = Inr []"
    and "length (filter (filter_keeps flt) (chain_entries env lib k (al_blockchain st))) + unat ps < 2 ^ 64"
  shows "query_logs env lib k flt page 0 st = panic
    \<and> (ps \<noteq> 0 \<longrightarrow> (\<exists>es pages.
         (\<forall>t. filter (\<lambda>e. ae_timestamp e = t) es = filter (\<lambda>e. ae_timestamp e = t)
            (filter (filter_keeps flt) (chain_entries env lib k (al_blockchain st))))
         \<and> sorted_wrt (\<lambda>a b. ae_timestamp a \<ge> ae_timestamp b) es
         \<and> concat pages = es \<and> (\<forall>xs\<in>set (butlast pages). length xs = unat ps)
         \<and> (\<forall>p. unat p * unat ps < 2 ^ 64 \<longrightarrow>
             query_logs env lib k flt p ps st = Inr
               \<lparr>ar_logs = (if unat p < length pages then pages ! unat p else []),
                ar_total = of_nat (length es), ar_page = p, ar_page_size = ps,
                ar_total_pages = of_nat (length pages)\<rparr>)))"
proof (intro conjI impI)
  note query = query_logs_unindexed [OF assms(1,2)]
  show "query_logs env lib k flt page 0 st = panic" by (simp add: query paginate_def)
  assume ps: "ps \<noteq> 0"
  then have n: "0 < unat ps" by (simp add: unat_gt_0)
  let ?all = "filter (filter_keeps flt) (chain_entries env lib k (al_blockchain st))"
  let ?es = "newest_first ?all" and ?n = "unat ps"
  let ?m = "page_count (length ?es) ?n"
  define pages where "pages = map (\<lambda>p. take ?n (drop (p * ?n) ?es)) [0..<?m]"
  have len: "length ?es = length ?all" by (simp add: newest_first_def)
  have "concat pages = ?es"
    unfolding pages_def concat_pages using page_count_covers [OF n] by simp
  moreover have "length xs = ?n" if "xs \<in> set (butlast pages)" for xs
  proof -
    have "butlast pages = map (\<lambda>p. take ?n (drop (p * ?n) ?es)) [0..<?m - 1]"
      by (cases ?m) (simp_all add: pages_def map_butlast [symmetric])
    with that obtain p where "p < ?m - 1" and xs: "xs = take ?n (drop (p * ?n) ?es)" by auto
    then have p: "p + 1 < ?m" by simp
    from page_count_bound [OF n p] have "p * ?n + ?n < length ?es" by (simp add: algebra_simps)
    then show ?thesis by (simp add: xs)
  qed
  moreover have "query_logs env lib k flt p ps st = Inr
      \<lparr>ar_logs = (if unat p < length pages then pages ! unat p else []),
       ar_total = of_nat (length ?es), ar_page = p, ar_page_size = ps,
       ar_total_pages = of_nat (length pages)\<rparr>" if "unat p * ?n < 2 ^ 64" for p
  proof -
    have "take ?n (drop (unat p * ?n) ?es) = []" if "\<not> unat p < ?m"
    proof -
      have "?m * ?n \<le> unat p * ?n" using that by (intro mult_le_mono1) simp
      with page_count_covers [OF n] have "length ?es \<le> unat p * ?n" by (rule order_trans)
      then show ?thesis by simp
    qed
    moreover have "length ?es + ?n < 2 ^ 64" using assms(3) len by simp
    ultimately show ?thesis
      using paginate_page [OF ps _ that, of ?es] by (auto simp: query pages_def)
  qed
  moreover note newest_first_sorted [of ?all] newest_first_stable [of _ ?all]
  ultimately show "\<exists>es pages. (\<forall>t. filter (\<lambda>e. ae_timestamp e = t) es = filter (\<lambda>e. ae_timestamp e = t) ?all)
         \<and> sorted_wrt (\<lambda>a b. ae_timestamp a \<ge> ae_timestamp b) es
         \<and> concat pages = es \<and> (\<forall>xs\<in>set (butlast pages). length xs = unat ps)
         \<and> (\<forall>p. unat p * unat ps < 2 ^ 64 \<longrightarrow>
             query_logs env lib k flt p ps st = Inr
               \<lparr>ar_logs = (if unat p < length pages then pages ! unat p else []),
                ar_total = of_nat (length es), ar_page = p, ar_page_size = ps,
                ar_total_pages = of_nat (length pages)\<rparr>)"
    by (intro exI [of _ ?es] exI [of _ pages]) blast
qed

section \<open>The turn of the validator\<close>

lemma schedule_moves:
  fixes n :: nat
  assumes "2 \<le> n"
  shows "(m + 1) mod n \<noteq> m mod n"
proof
  assume eq: "(m + 1) mod n = m mod n"
  then have "n dvd (m + 1) - m" using mod_eq_dvd_iff_nat [of m "m + 1" n] by simp
  with assms show False by simp
qed

lemma no_turn_twice:
  assumes "distinct (validators cfg)" and "2 \<le> length (validators cfg)" and "m + 1 < 2 ^ 64"
    and "is_node_authorized cfg nid (of_nat m) = Inr True"
  shows "is_node_authorized cfg nid (of_nat m + 1) \<noteq> Inr True"
proof
  let ?vs = "validators cfg"
  have "?vs \<noteq> []" using assms(2) by (cases ?vs) simp_all
  assume "is_node_authorized cfg nid (of_nat m + 1) = Inr True"
  moreover have "unat (of_nat m :: u64) = m" "unat (of_nat m + 1 :: u64) = m + 1"
    using assms(3) by (simp_all add: unat_of_nat unat_word_ariths)
  ultimately have "?vs ! (m mod length ?vs) = ?vs ! ((m + 1) mod length ?vs)"
    using assms(4) \<open>?vs \<noteq> []\<close>
    by (auto simp: is_node_authorized_def get_validator_for_block_def res_iff split: option.splits if_splits)
  moreover from \<open>?vs \<noteq> []\<close> have "m mod length ?vs < length ?vs" "(m + 1) mod length ?vs < length ?vs" by simp_all
  ultimately have "m mod length ?vs = (m + 1) mod length ?vs"
    using assms(1) nth_eq_iff_index_eq by blast
  then show False using schedule_moves [OF assms(2), of m] by simp
qed

text \<open>The chain numbers its blocks from zero, and the node is one of at least two validators.\<close>

definition takes_turns :: "blockchain \<Rightarrow> bool" where
  "takes_turns bc \<longleftrightarrow> chain bc \<noteq> [] \<and> b_index (last (chain bc)) + 1 = of_nat (length (chain bc))
     \<and> length (chain bc) + 1 < 2 ^ 64
     \<and> distinct (validators (validator_cfg bc)) \<and> 2 \<le> length (validators (validator_cfg bc))"

lemma flush_block_no_turn:
  assumes "takes_turns (al_blockchain st)" and "flush_block env lib seed st = (r, st')"
  shows "st' = st \<and> (\<forall>blocks. r = Inr blocks \<longrightarrow> blocks = [])"
proof -
  let ?bc = "al_blockchain st"
  have no_block: "fst (add_block env seed ?bc) \<noteq> Inr b"
    if turn: "is_node_authorized (validator_cfg ?bc) (node_id ?bc) (of_nat (length (chain ?bc)) + 1) = Inr True" for b
  proof
    assume "fst (add_block env seed ?bc) = Inr b"
    then have "make_block env seed ?bc = Inr b" by (auto simp: add_block_def split: sum.splits)
    then have "is_node_authorized (validator_cfg ?bc) (node_id ?bc) (of_nat (length (chain ?bc))) = Inr True"
      by (rule make_block_cases) (use assms(1) in \<open>simp add: takes_turns_def\<close>)
    then show False using no_turn_twice turn assms(1) by (auto simp: takes_turns_def)
  qed
  have "snd (add_block env seed ?bc) = ?bc" if "\<forall>b. fst (add_block env seed ?bc) \<noteq> Inr b"
    using that by (cases "make_block env seed ?bc") (auto simp: add_block_def)
  with no_block assms(2) show ?thesis
    by (cases "add_block env seed ?bc")
      (auto simp: flush_block_eq is_authorized_validator_def Let_def
         split: sum.splits bool.splits fail.splits)
qed

lemma flush_batch_cases:
  assumes "flush_batch env lib seed batch st = (r, st')"
  obtains e where "r = Inl e" and "st' = st"
  | c where "flush_block env lib (fs_block seed)
      (st\<lparr>al_blockchain := snd (add_collection c (al_blockchain st))\<rparr>) = (r, st')"
proof -
  obtain h es key where "batch = (h, es, key)" by (cases batch)
  moreover define m where "m = bindE (map_err (\<lambda>e. Fail (AuditLogError (''Failed to serialize batch: '' @ e)))
      (enc (au_batch_js lib) (audit_log_batch_new (fs_batch_now seed) es)))
      (\<lambda>j. encrypted_collection_new env (value_js env) (fs_collection seed) (fs_now seed)
         (AUDIT_LABEL_PREFIX @ ''Batch'') j key h
         (case node_signing_key (al_blockchain st) of Some k \<Rightarrow> k | None \<Rightarrow> fs_signing_key seed))"
  ultimately have "(case m of Inl e \<Rightarrow> (Inl e, st)
      | Inr c \<Rightarrow> flush_block env lib (fs_block seed)
          (st\<lparr>al_blockchain := snd (add_collection c (al_blockchain st))\<rparr>)) = (r, st')"
    using assms unfolding flush_batch_def Let_def by simp
  with that show ?thesis by (cases m) auto
qed

lemma flush_batch_no_turn:
  assumes "takes_turns (al_blockchain st)" and "flush_batch env lib seed batch st = (r, st')"
  shows "takes_turns (al_blockchain st') \<and> chain (al_blockchain st') = chain (al_blockchain st)
       \<and> al_db st' = al_db st \<and> (\<forall>blocks. r = Inr blocks \<longrightarrow> blocks = [])"
  using assms(2)
proof (cases rule: flush_batch_cases)
  case (1 e)
  with assms(1) show ?thesis by simp
next
  case (2 c)
  have turns: "takes_turns (al_blockchain (st\<lparr>al_blockchain := snd (add_collection c (al_blockchain st))\<rparr>))"
    using assms(1) by (simp add: takes_turns_def add_collection_def)
  from flush_block_no_turn [OF this 2] turns show ?thesis by (auto simp: add_collection_def)
qed

lemma flush_loop_no_turn:
  assumes "takes_turns (al_blockchain st)" and "flush_loop env lib seeds i batches st = (r, st')"
  shows "chain (al_blockchain st') = chain (al_blockchain st) \<and> al_db st' = al_db st
       \<and> (\<forall>blocks. r = Inr blocks \<longrightarrow> blocks = [])"
  using assms
proof (induction batches arbitrary: i st r)
  case (Cons batch batches)
  obtain r1 t where first: "flush_batch env lib (seeds i) batch st = (r1, t)" by fastforce
  note one = flush_batch_no_turn [OF Cons.prems(1) first]
  show ?case
  proof (cases r1)
    case (Inl e)
    with first Cons.prems(2) one show ?thesis by (simp add: bindS_def)
  next
    case (Inr sent)
    obtain r2 u where rest: "flush_loop env lib seeds (Suc i) batches t = (r2, u)" by fastforce
    then have "u = st'" using Inr first Cons.prems(2) by (auto simp: bindS_def split: sum.splits)
    with Cons.IH [of t "Suc i" r2] rest one Inr first Cons.prems(2) show ?thesis
      by (auto simp: bindS_def split: sum.splits)
  qed
qed simp

text \<open>C39. The audit log misses its turn. In a network of two or more validators, on a chain that
  numbers its blocks from zero, a flush never creates a block and never writes one to the database: it asks whether
  the node may create block \<open>chain.len() + 1\<close>, while the block it would then create has the number
  \<open>chain.len()\<close>, which is another validator's turn. The batches stay among the pending collections.\<close>

theorem audit_flush_misses_turn:
  assumes "takes_turns (al_blockchain st)"
    and "flush_all_batches env lib order seeds st = (r, st')"
  shows "chain (al_blockchain st') = chain (al_blockchain st) \<and> al_db st' = al_db st
       \<and> (\<forall>blocks. r = Inr blocks \<longrightarrow> blocks = [])"
proof -
  have "takes_turns (al_blockchain (st\<lparr>al_pending_logs := Map.empty\<rparr>))" using assms(1) by simp
  from flush_loop_no_turn [OF this] assms(2) show ?thesis by (simp add: flush_all_batches_def)
qed

section \<open>A concrete logger\<close>

definition demo_audit :: "audit_log_batch list \<Rightarrow> demo_db audit_libs" where
  "demo_audit bs = \<lparr>au_rocks = demo_rocks, au_block_bin = table_codec [], au_index_bin = table_codec [],
     au_batch_js = str_codec (table_codec bs)\<rparr>"

definition demo_flush :: flush_seed where
  "demo_flush = \<lparr>fs_batch_now = 7, fs_now = 5,
     fs_collection = \<lparr>seed_uuid = ''id'', seed_salt = [3], seed_meta_nonce = replicate 12 1,
       seed_payload_nonce = replicate 12 2\<rparr>,
     fs_signing_key = [2], fs_block = demo_seed 172800 0\<rparr>"

definition demo_entry :: audit_log_entry where
  "demo_entry = \<lparr>ae_event_type = DataListed, ae_timestamp = 1000, ae_collection_id = None,
     ae_ip_hash = hash_ip_truncated demo_env ''::1'', ae_metadata = JNull, ae_invalidated = False\<rparr>"

definition sorted_drain :: "(string \<rightharpoonup> audit_log_entry list) \<Rightarrow> string list" where
  "sorted_drain m = sorted_list_of_set (dom m)"

lemma sorted_drain_ok: "drains sorted_drain"
  by (simp add: drains_def sorted_drain_def)

lemma demo_node_seals:
  "encrypt_data_with_key (demo_node cs as js) = encrypt_data_with_key demo_env"
  "get_public_key_hex (demo_node cs as js) = get_public_key_hex demo_env"
  "sign_message (demo_node cs as js) = sign_message demo_env"
  "sha256_bytes (demo_node cs as js) = sha256_bytes demo_env"
  by (simp_all add: fun_eq_iff encrypt_data_with_key_def encrypt_data_with_nonce_def
      get_public_key_hex_def sign_message_def sha256_bytes_def)

lemma demo_node_mac: "compute_mac (demo_node cs as js) = compute_mac demo_env"
  by (simp add: fun_eq_iff compute_mac_def hmac_sha256_def demo_node_seals Let_def)

lemma demo_node_collection:
  "encrypted_collection_new (demo_node cs as js) vjs seed now l d k h sk =
   encrypted_collection_new demo_env vjs seed now l d k h sk"
  unfolding encrypted_collection_new_def Let_def split_def
  by (simp only: demo_node_keys demo_node_seals demo_node_mac demo_node_simps)

lemma demo_audit_simps [simp]:
  "au_rocks (demo_audit bs) = demo_rocks" "au_block_bin (demo_audit bs) = table_codec []"
  "au_index_bin (demo_audit bs) = table_codec []" "au_batch_js (demo_audit bs) = str_codec (table_codec bs)"
  by (simp_all add: demo_audit_def)

text \<open>One event logged and flushed: the node is the only validator and creates a block.\<close>

lemma demo_audit_run:
  fixes db :: demo_db
  defines "lib \<equiv> demo_audit [audit_log_batch_new 7 [demo_entry]]"
  obtains c b st' where
    "audit_run (demo_node [demo_container [] [c]] [] [collection_metadata ''AUDIT:Batch'' 5]) lib sorted_drain
       [LogEvent 1000 [9] DataListed None ''::1'' JNull, FlushBatches (\<lambda>_. demo_flush)]
       (audit_logger_new (demo_bc 0 [] []) db True False) = (Inr (), st')"
    and "chain (al_blockchain st') = [demo_genesis 0, b]" and "pending_collections (al_blockchain st') = []"
    and "al_pending_logs st' = Map.empty" and "al_db st' = db"
proof -
  let ?m = "collection_metadata ''AUDIT:Batch'' 5" and ?batch = "audit_log_batch_new 7 [demo_entry]"
  have "\<exists>c. encrypted_collection_new demo_env (str_codec (table_codec [?m])) (fs_collection demo_flush) 5
      ''AUDIT:Batch'' [] [9] (hash_api_key_hex demo_env [9]) [2] = Inr c"
    by (simp add: encrypted_collection_new_def Let_def str_codec_def table_codec_def of_bytes_def
        encrypt_data_with_key_def encrypt_data_with_nonce_def demo_flush_def)
  then obtain c where c: "encrypted_collection_new demo_env (str_codec (table_codec [?m]))
      (fs_collection demo_flush) 5 ''AUDIT:Batch'' [] [9] (hash_api_key_hex demo_env [9]) [2] = Inr c" by blast
  let ?env = "demo_node [demo_container [] [c]] [] [?m]"
  have "\<exists>b. make_block ?env (demo_seed 172800 0) (demo_bc 0 [] [c]) = Inr b"
    by (rule demo_make_block [where es = "[]"]) simp_all
  then obtain b where b: "make_block ?env (demo_seed 172800 0) (demo_bc 0 [] [c]) = Inr b" by blast
  have j: "enc (au_batch_js lib) ?batch = Inr []"
    by (simp add: lib_def str_codec_def table_codec_def of_bytes_def)
  let ?h = "hash_api_key_hex demo_env [9]"
  let ?st = "audit_logger_new (demo_bc 0 [] []) db True False"
  let ?st1 = "?st\<lparr>al_api_key_cache := [?h \<mapsto> [9]], al_pending_logs := [?h \<mapsto> [demo_entry]]\<rparr>"
  have log: "log_event ?env 1000 [9] DataListed None ''::1'' JNull ?st = (Inr None, ?st1)"
    by (simp add: log_event_def audit_logger_new_def Let_def demo_node_keys demo_entry_def
        hash_ip_truncated_def sha256_bytes_def)
  have drain: "sorted_drain (al_pending_logs ?st1) = [?h]" by (simp add: sorted_drain_def)
  let ?st2 = "?st1\<lparr>al_pending_logs := Map.empty, al_blockchain := demo_bc 0 [] [c]\<rparr>"
  have batch: "flush_batch ?env lib demo_flush (?h, [demo_entry], [9]) (?st1\<lparr>al_pending_logs := Map.empty\<rparr>)
      = flush_block ?env lib (demo_seed 172800 0) ?st2"
    using c j by (simp add: flush_batch_def demo_flush_def audit_logger_new_def demo_bc_def add_collection_def
        demo_node_collection AUDIT_LABEL_PREFIX_def)
  obtain sent st' where block: "flush_block ?env lib (demo_seed 172800 0) ?st2 = (Inr sent, st')"
    and chain: "chain (al_blockchain st') = [demo_genesis 0, b]" "pending_collections (al_blockchain st') = []"
      "al_pending_logs st' = Map.empty" "al_db st' = db"
    using b by (auto simp: flush_block_eq add_block_def is_authorized_validator_def audit_logger_new_def Let_def
        lib_def save_block_def bindS_def table_codec_def)
  have "flush_all_batches ?env lib [?h] (\<lambda>_. demo_flush) ?st1 = (Inr sent, st')"
    using batch block by (simp add: flush_all_batches_def audit_logger_new_def bindS_def)
  then have "audit_run ?env lib sorted_drain
       [LogEvent 1000 [9] DataListed None ''::1'' JNull, FlushBatches (\<lambda>_. demo_flush)] ?st = (Inr (), st')"
    using log drain by (simp add: bindS_def)
  with chain that show thesis by blast
qed

lemma demo_trail_empty:
  "audit_trail (demo_node [demo_container [] [c]] [] js) lib k (demo_bc 0 [] []) = []"
proof -
  obtain e where "get_envelope_container (demo_node [demo_container [] [c]] [] js)
      (str_codec (table_codec [demo_container [] [c]])) (demo_genesis 0) = Inl e"
    using demo_genesis_container [of "[demo_container [] [c]]" "[]" js 0] by auto
  then show ?thesis
    by (simp add: audit_trail_def chain_entries_def pending_entries_def block_entries_def
        get_collections_by_owner_def Let_def)
qed

lemma demo_audit_ok:
  "node_env_ok (demo_node cs as js)" "text_codec_ok (value_js (demo_node cs as js))"
  "text_codec_ok (au_batch_js (demo_audit bs))"
  "\<forall>op\<in>set [LogEvent 1000 [9] DataListed None ''::1'' JNull, FlushBatches (\<lambda>_. demo_flush)].
     audit_op_ok (demo_node cs as js) [9] op"
  unfolding node_env_ok_def by (intro conjI demo_node_ok)
    (simp_all add: demo_node_ok str_table_codec_ok demo_flush_def del: demo_node_simps)

lemma demo_logged:
  "concat (map (logged (demo_node cs as js) [9])
     [LogEvent 1000 [9] DataListed None ''::1'' JNull, FlushBatches (\<lambda>_. demo_flush)]) = [demo_entry]"
  by (simp add: demo_entry_def hash_ip_truncated_def demo_node_seals)

theorem audit_events_conserved_witness:
  "\<exists>c st'. let env = demo_node [demo_container [] [c]] [] [collection_metadata ''AUDIT:Batch'' 5];
              lib = demo_audit [audit_log_batch_new 7 [demo_entry]]
    in audit_run env lib sorted_drain
         [LogEvent 1000 [9] DataListed None ''::1'' JNull, FlushBatches (\<lambda>_. demo_flush)]
         (audit_logger_new (demo_bc 0 [] []) [] True False) = (Inr (), st')
       \<and> length (chain (al_blockchain st')) = 2
       \<and> audit_trail env lib [9] (al_blockchain st') @ buffered env [9] st' = [demo_entry]"
proof -
  let ?lib = "demo_audit [audit_log_batch_new 7 [demo_entry]]"
  obtain c b st' where
    run: "audit_run (demo_node [demo_container [] [c]] [] [collection_metadata ''AUDIT:Batch'' 5]) ?lib sorted_drain
       [LogEvent 1000 [9] DataListed None ''::1'' JNull, FlushBatches (\<lambda>_. demo_flush)]
       (audit_logger_new (demo_bc 0 [] []) [] True False) = (Inr (), st')"
    and chain: "chain (al_blockchain st') = [demo_genesis 0, b]"
    by (rule demo_audit_run)
  from audit_events_conserved [OF demo_audit_ok(1-3) sorted_drain_ok demo_audit_ok(4) run]
  have "audit_trail (demo_node [demo_container [] [c]] [] [collection_metadata ''AUDIT:Batch'' 5]) ?lib [9] (al_blockchain st')
      @ buffered (demo_node [demo_container [] [c]] [] [collection_metadata ''AUDIT:Batch'' 5]) [9] st' = [demo_entry]"
    unfolding demo_trail_empty demo_logged by simp
  with run chain show ?thesis unfolding Let_def by (intro exI [of _ c] exI [of _ st']) simp
qed

definition keep_all :: audit_log_filter where
  "keep_all = \<lparr>af_event_type = None, af_start_ts = None, af_end_ts = None, af_include_invalidated = False\<rparr>"

theorem audit_query_pages_witness:
  "\<exists>c st' es pages. let env = demo_node [demo_container [] [c]] [] [collection_metadata ''AUDIT:Batch'' 5];
              lib = demo_audit [audit_log_batch_new 7 [demo_entry]]
    in chain_entries env lib [9] (al_blockchain st') = [demo_entry]
       \<and> query_logs env lib [9] keep_all 0 0 st' = panic
       \<and> filter (\<lambda>e. ae_timestamp e = 1000) es = [demo_entry] \<and> concat pages = es
       \<and> query_logs env lib [9] keep_all 0 50 st' = Inr
           \<lparr>ar_logs = (if 0 < length pages then pages ! 0 else []), ar_total = of_nat (length es),
            ar_page = 0, ar_page_size = 50, ar_total_pages = of_nat (length pages)\<rparr>"
proof -
  let ?lib = "demo_audit [audit_log_batch_new 7 [demo_entry]]"
  obtain c b st' where
    run: "audit_run (demo_node [demo_container [] [c]] [] [collection_metadata ''AUDIT:Batch'' 5]) ?lib sorted_drain
       [LogEvent 1000 [9] DataListed None ''::1'' JNull, FlushBatches (\<lambda>_. demo_flush)]
       (audit_logger_new (demo_bc 0 [] []) [] True False) = (Inr (), st')"
    and st': "chain (al_blockchain st') = [demo_genesis 0, b]" "pending_collections (al_blockchain st') = []"
      "al_pending_logs st' = Map.empty" "al_db st' = []"
    by (rule demo_audit_run)
  let ?env = "demo_node [demo_container [] [c]] [] [collection_metadata ''AUDIT:Batch'' 5]"
  have "audit_inv ?env (audit_logger_new (demo_bc 0 [] []) [] True False)"
    "key_settled ?env [9] (audit_logger_new (demo_bc 0 [] []) [] True False)"
    by (simp_all add: audit_inv_def key_settled_def audit_logger_new_def)
  from audit_run_conserves [OF demo_audit_ok(1-3) sorted_drain_ok this demo_audit_ok(4) run]
  have entries: "chain_entries ?env ?lib [9] (al_blockchain st') = [demo_entry]"
    unfolding demo_logged using st' demo_trail_empty
    by (simp add: audit_trail_def [of _ _ _ "al_blockchain st'"] pending_entries_def buffered_def audit_logger_new_def)
  have kept: "filter (filter_keeps keep_all) (chain_entries ?env ?lib [9] (al_blockchain st')) = [demo_entry]"
    unfolding entries by (simp add: filter_keeps_def keep_all_def demo_entry_def)
  have len: "length (chain (al_blockchain st')) < 2 ^ 64" by (simp add: st'(1))
  have index: "get_audit_block_indexes ?lib (al_db st') (hash_api_key_hex ?env [9]) = Inr []"
    by (simp add: get_audit_block_indexes_def st'(4) demo_rocks_def)
  have total: "length (filter (filter_keeps keep_all) (chain_entries ?env ?lib [9] (al_blockchain st')))
      + unat (50 :: u64) < 2 ^ 64" unfolding kept by simp
  from audit_query_pages [OF len index total, of 0] have pages: "query_logs ?env ?lib [9] keep_all 0 0 st' = panic \<and>
      ((50 :: u64) \<noteq> 0 \<longrightarrow> (\<exists>es pages.
         (\<forall>t. filter (\<lambda>e. ae_timestamp e = t) es = filter (\<lambda>e. ae_timestamp e = t) [demo_entry])
         \<and> sorted_wrt (\<lambda>a b. ae_timestamp a \<ge> ae_timestamp b) es
         \<and> concat pages = es \<and> (\<forall>xs\<in>set (butlast pages). length xs = unat (50 :: u64))
         \<and> (\<forall>p. unat p * unat (50 :: u64) < 2 ^ 64 \<longrightarrow>
             query_logs ?env ?lib [9] keep_all p 50 st' = Inr
               \<lparr>ar_logs = (if unat p < length pages then pages ! unat p else []),
                ar_total = of_nat (length es), ar_page = p, ar_page_size = 50,
                ar_total_pages = of_nat (length pages)\<rparr>)))"
    unfolding kept .
  moreover have "(50 :: u64) \<noteq> 0" by simp
  ultimately obtain es pages where
    es: "\<forall>t. filter (\<lambda>e. ae_timestamp e = t) es = filter (\<lambda>e. ae_timestamp e = t) [demo_entry]"
    and concat: "concat pages = es"
    and page: "\<forall>p. unat p * unat (50 :: u64) < 2 ^ 64 \<longrightarrow>
             query_logs ?env ?lib [9] keep_all p 50 st' = Inr
               \<lparr>ar_logs = (if unat p < length pages then pages ! unat p else []),
                ar_total = of_nat (length es), ar_page = p, ar_page_size = 50,
                ar_total_pages = of_nat (length pages)\<rparr>" by blast
  have "filter (\<lambda>e. ae_timestamp e = 1000) es = [demo_entry]"
    using es [rule_format, of 1000] by (simp add: demo_entry_def)
  moreover have "query_logs ?env ?lib [9] keep_all 0 50 st' = Inr
           \<lparr>ar_logs = (if 0 < length pages then pages ! 0 else []), ar_total = of_nat (length es),
            ar_page = 0, ar_page_size = 50, ar_total_pages = of_nat (length pages)\<rparr>"
    using page [rule_format, of 0] by simp
  ultimately show ?thesis
    unfolding Let_def using entries pages concat
    by (intro exI [of _ c] exI [of _ st'] exI [of _ es] exI [of _ pages]) blast
qed

theorem audit_flush_misses_turn_witness:
  "let cfg = \<lparr>validators = [''V'', ''W''], node_to_validator = [''n'' \<mapsto> ''V''], validator_to_address = Map.empty\<rparr>;
       h = hash_api_key_hex demo_env [9];
       st = (audit_logger_new ((demo_bc 0 [] [])\<lparr>validator_cfg := cfg\<rparr>) [] True False)
              \<lparr>al_pending_logs := [h \<mapsto> [demo_entry]], al_api_key_cache := [h \<mapsto> [9]]\<rparr>;
       st' = snd (flush_all_batches (demo_node [] [] [collection_metadata ''AUDIT:Batch'' 5])
               (demo_audit [audit_log_batch_new 7 [demo_entry]]) [h] (\<lambda>_. demo_flush) st)
   in takes_turns (al_blockchain st) \<and> chain (al_blockchain st') = [demo_genesis 0]"
proof -
  let ?cfg = "\<lparr>validators = [''V'', ''W''], node_to_validator = [''n'' \<mapsto> ''V''], validator_to_address = Map.empty\<rparr>"
  let ?h = "hash_api_key_hex demo_env [9]"
  let ?st = "(audit_logger_new ((demo_bc 0 [] [])\<lparr>validator_cfg := ?cfg\<rparr>) [] True False)
              \<lparr>al_pending_logs := [?h \<mapsto> [demo_entry]], al_api_key_cache := [?h \<mapsto> [9]]\<rparr>"
  have turns: "takes_turns (al_blockchain ?st)"
    by (simp add: takes_turns_def audit_logger_new_def)
  note audit_flush_misses_turn [OF this prod.collapse [symmetric],
    of "demo_node [] [] [collection_metadata ''AUDIT:Batch'' 5]"
       "demo_audit [audit_log_batch_new 7 [demo_entry]]" "[?h]" "\<lambda>_. demo_flush"]
  with turns show ?thesis unfolding Let_def by (simp add: audit_logger_new_def)
qed

end
