(* ===== verification/Goud_P2P.thy ===== *)
theory Goud_P2P
  imports Goud_Store
begin

text \<open>
  The peer-to-peer node (\<open>src/network/p2p.rs\<close>, \<open>src/network/messages.rs\<close>): length-prefixed
  messages, the per-peer message limit, peer reputation, the handling of an incoming connection,
  broadcasting of blocks and chain synchronisation. Sockets and name resolution are arguments: \<open>io k\<close>
  is the error of the \<open>k\<close>-th socket read or write of a call, if it fails or times out. Tasks that the code
  spawns take the locks one after the other; their order is an argument.
\<close>

section \<open>Messages and framing\<close>

datatype p2p_message =
    NewBlock block
  | RequestChain
  | ResponseChain "block list"
  | Peers "string list"
  | NewAccount user_account
  | NewCollection encrypted_collection
  | Hello (hello_node_id: string) (hello_signature: string)
  | Challenge (challenge_nonce: bytes)
  | ChallengeResponse (response_signature: string)

text \<open>The length is cut to 32 bits.\<close>

definition frame :: "bytes \<Rightarrow> bytes" where
  "frame encoded = u32_to_be_bytes (of_nat (length encoded)) @ encoded"

definition read_exact :: "(nat \<Rightarrow> string option) \<Rightarrow> nat \<Rightarrow> nat \<Rightarrow> bytes \<Rightarrow> (bytes \<times> bytes) res" where
  "read_exact io k n input =
     (case io k of
        Some e \<Rightarrow> Err (IoError e)
      | None \<Rightarrow> if length input < n then Err (IoError ''early eof'') else Inr (take n input, drop n input))"

text \<open>The prefix and the payload of a message of at most 100 MB.\<close>

definition read_frame :: "(nat \<Rightarrow> string option) \<Rightarrow> string \<Rightarrow> bytes \<Rightarrow> bytes res" where
  "read_frame io what input =
     bindE (read_exact io 0 4 input) (\<lambda>(len_bytes, rest).
     let len = unat (u32_from_be_bytes len_bytes)
     in if len > 100000000 then Err (InvalidRequestBody (what @ '' too large''))
        else bindE (read_exact io 1 len rest) (\<lambda>(buffer, _). Inr buffer))"

definition serialize_message :: "(p2p_message, bytes) codec \<Rightarrow> p2p_message \<Rightarrow> bytes res" where
  "serialize_message mbin msg = map_err (\<lambda>e. Fail (SerializationError e)) (enc mbin msg)"

definition deserialize_message :: "(p2p_message, bytes) codec \<Rightarrow> bytes \<Rightarrow> p2p_message res" where
  "deserialize_message mbin buffer = map_err (\<lambda>e. Fail (DeserializationError e)) (dec mbin buffer)"

section \<open>The node\<close>

record rate_limit_tracker =
  rt_message_count :: u32
  rt_window_start :: u64

definition tracker_new :: "u64 \<Rightarrow> rate_limit_tracker" where
  "tracker_new now = \<lparr>rt_message_count = 0, rt_window_start = now\<rparr>"

definition check_and_increment :: "u64 \<Rightarrow> rate_limit_tracker \<Rightarrow> bool \<times> rate_limit_tracker" where
  "check_and_increment now tr =
     (let tr = (if now - rt_window_start tr \<ge> 60 then tr\<lparr>rt_message_count := 0, rt_window_start := now\<rparr> else tr)
      in if rt_message_count tr < MAX_MESSAGES_PER_MINUTE
         then (True, tr\<lparr>rt_message_count := rt_message_count tr + 1\<rparr>)
         else (False, tr))"

record 'db p2p_node =
  pn_peers :: "string list"
  pn_blockchain :: blockchain
  pn_db :: 'db
  pn_reputation :: "string \<rightharpoonup> i32"
  pn_limiters :: "string \<rightharpoonup> rate_limit_tracker"
  pn_blacklist :: "string list"

definition p2p_new :: "blockchain \<Rightarrow> 'db \<Rightarrow> string list \<Rightarrow> 'db p2p_node" where
  "p2p_new bc db peers =
     \<lparr>pn_peers = peers, pn_blockchain = bc, pn_db = db, pn_reputation = Map.empty,
      pn_limiters = Map.empty, pn_blacklist = []\<rparr>"

definition peer_rep :: "'db p2p_node \<Rightarrow> string \<Rightarrow> i32" where
  "peer_rep node peer = (case pn_reputation node peer of Some r \<Rightarrow> r | None \<Rightarrow> 0)"

definition add_reputation :: "string \<Rightarrow> i32 \<Rightarrow> 'db p2p_node \<Rightarrow> 'db p2p_node" where
  "add_reputation peer d node =
     node\<lparr>pn_reputation := (pn_reputation node)(peer \<mapsto> wrap32 (peer_rep node peer + d))\<rparr>"

text \<open>A block from the network. Every rejection is a successful return.\<close>

definition handle_new_block ::
  "'z node_env_scheme \<Rightarrow> 'db rocks \<Rightarrow> (block, bytes) codec \<Rightarrow> string \<Rightarrow> block
     \<Rightarrow> ('db p2p_node, fail, unit) act" where
  "handle_new_block env rdb bin peer b node =
     (case get_latest_block (pn_blockchain node) of
        Inl e \<Rightarrow> (Inl e, node)
      | Inr latest \<Rightarrow>
          if \<exists>x\<in>set (chain (pn_blockchain node)). b_hash x = b_hash b then (Inr (), node)
          else if b_index b \<noteq> b_index latest + 1 then (Inr (), node)
          else if b_previous_hash b \<noteq> b_hash latest then (Inr (), node)
          else if b_hash b \<noteq> calculate_hash env b
            then (Inr (), add_reputation peer REPUTATION_PENALTY_INVALID_BLOCK node)
          else if b_merkle_root b \<noteq> calculate_merkle_root env (b_encrypted_block_data b) (b_blind_indexes b)
            then (Inr (), add_reputation peer REPUTATION_PENALTY_INVALID_BLOCK node)
          else
            (Inr (), add_reputation peer REPUTATION_REWARD_VALID_BLOCK
               (node\<lparr>pn_blockchain := (pn_blockchain node)\<lparr>chain := chain (pn_blockchain node) @ [b]\<rparr>,
                     pn_db := persist_block rdb bin b (pn_db node)\<rparr>)))"

text \<open>\<open>send_response\<close>: the bytes written to the open connection.\<close>

definition send_response ::
  "(p2p_message, bytes) codec \<Rightarrow> (nat \<Rightarrow> string option) \<Rightarrow> p2p_message \<Rightarrow> bytes res" where
  "send_response mbin io msg =
     bindE (serialize_message mbin msg) (\<lambda>encoded.
     case io 2 of Some e \<Rightarrow> Err (IoError e) | None \<Rightarrow> Inr (frame encoded))"

definition handle_message ::
  "'z node_env_scheme \<Rightarrow> 'db rocks \<Rightarrow> (block, bytes) codec \<Rightarrow> (p2p_message, bytes) codec
     \<Rightarrow> (nat \<Rightarrow> string option) \<Rightarrow> string \<Rightarrow> p2p_message \<Rightarrow> ('db p2p_node, fail, bytes) act" where
  "handle_message env rdb bin mbin io peer msg =
     (case msg of
        NewBlock b \<Rightarrow> bindS (handle_new_block env rdb bin peer b) (\<lambda>_. retS [])
      | RequestChain \<Rightarrow>
          (\<lambda>node. (send_response mbin io (ResponseChain (chain (pn_blockchain node))), node))
      | _ \<Rightarrow> retS [])"

text \<open>The limit of messages per peer; a new peer gets a fresh tracker.\<close>

definition admit_message :: "(nat \<Rightarrow> u64) \<Rightarrow> string \<Rightarrow> ('db p2p_node, fail, unit) act" where
  "admit_message now peer node =
     (let tr = (case pn_limiters node peer of Some tr \<Rightarrow> tr | None \<Rightarrow> tracker_new (now 0));
          (ok, tr) = check_and_increment (now 1) tr;
          node = node\<lparr>pn_limiters := (pn_limiters node)(peer \<mapsto> tr)\<rparr>
      in if ok then (Inr (), node) else (Err (Unauthorized ''Rate limit exceeded''), node))"

definition handle_connection ::
  "'z node_env_scheme \<Rightarrow> 'db rocks \<Rightarrow> (block, bytes) codec \<Rightarrow> (p2p_message, bytes) codec
     \<Rightarrow> (nat \<Rightarrow> u64) \<Rightarrow> (nat \<Rightarrow> string option) \<Rightarrow> string \<Rightarrow> bytes \<Rightarrow> ('db p2p_node, fail, bytes) act" where
  "handle_connection env rdb bin mbin now io peer input node =
     (if peer_rep node peer < MIN_REPUTATION_THRESHOLD
      then (Err (Unauthorized ''Peer reputation below threshold''), node)
      else
        bindS (admit_message now peer) (\<lambda>_.
        bindS (liftS (read_frame io ''Message'' input)) (\<lambda>buffer.
        bindS (liftS (deserialize_message mbin buffer)) (\<lambda>msg.
        handle_message env rdb bin mbin io peer msg))) node)"

text \<open>One accepted connection of the server loop: blacklisted peers are dropped, and an error is only
  logged.\<close>

definition serve_connection ::
  "'z node_env_scheme \<Rightarrow> 'db rocks \<Rightarrow> (block, bytes) codec \<Rightarrow> (p2p_message, bytes) codec
     \<Rightarrow> (nat \<Rightarrow> u64) \<Rightarrow> (nat \<Rightarrow> string option) \<Rightarrow> string \<Rightarrow> bytes \<Rightarrow> 'db p2p_node \<Rightarrow> 'db p2p_node" where
  "serve_connection env rdb bin mbin now io peer input node =
     (if peer \<in> set (pn_blacklist node) then node
      else snd (handle_connection env rdb bin mbin now io peer input node))"

section \<open>Outgoing messages\<close>

datatype 'a timed = TimedOut | Failed string | Completed 'a

text \<open>The network: name resolution, connecting, writing, and the answer to what was written.\<close>

record transport =
  tr_lookup :: "string \<Rightarrow> string + string list"
  tr_connect :: "string \<Rightarrow> unit timed"
  tr_write :: "string \<Rightarrow> bytes \<Rightarrow> unit timed"
  tr_reply :: "string \<Rightarrow> bytes \<Rightarrow> bytes \<times> (nat \<Rightarrow> string option)"

definition connect_peer :: "transport \<Rightarrow> string \<Rightarrow> string res" where
  "connect_peer net peer =
     bindE (map_err (\<lambda>e. Fail (PeerConnectionFailed (''Failed to resolve peer address '' @ peer @ '': '' @ e)))
              (tr_lookup net peer)) (\<lambda>addrs.
     case addrs of
       [] \<Rightarrow> Err (PeerConnectionFailed (''No addresses found for peer '' @ peer))
     | first_addr # _ \<Rightarrow>
         (case tr_connect net first_addr of
            TimedOut \<Rightarrow> Err (PeerConnectionFailed (''Connection timeout to '' @ peer))
          | Failed e \<Rightarrow> Err (PeerConnectionFailed e)
          | Completed _ \<Rightarrow> Inr first_addr))"

definition write_frame :: "transport \<Rightarrow> string \<Rightarrow> bytes \<Rightarrow> bytes res" where
  "write_frame net addr encoded =
     (case tr_write net addr (frame encoded) of
        TimedOut \<Rightarrow> Err (IoError ''Write timeout'')
      | Failed e \<Rightarrow> Err (IoError e)
      | Completed _ \<Rightarrow> Inr (frame encoded))"

text \<open>\<open>send_message\<close> returns the bytes that it wrote.\<close>

definition send_message :: "(p2p_message, bytes) codec \<Rightarrow> transport \<Rightarrow> string \<Rightarrow> p2p_message \<Rightarrow> bytes res" where
  "send_message mbin net peer msg =
     bindE (serialize_message mbin msg) (\<lambda>encoded.
     bindE (connect_peer net peer) (\<lambda>addr.
     write_frame net addr encoded))"

definition send_and_receive ::
  "(p2p_message, bytes) codec \<Rightarrow> transport \<Rightarrow> string \<Rightarrow> p2p_message \<Rightarrow> p2p_message res" where
  "send_and_receive mbin net peer msg =
     bindE (serialize_message mbin msg) (\<lambda>encoded.
     bindE (connect_peer net peer) (\<lambda>addr.
     bindE (write_frame net addr encoded) (\<lambda>sent.
     let (input, io) = tr_reply net addr sent
     in bindE (read_frame io ''Response'' input) (deserialize_message mbin))))"

definition broadcast_block ::
  "(p2p_message, bytes) codec \<Rightarrow> transport \<Rightarrow> 'db p2p_node \<Rightarrow> block \<Rightarrow> (string \<times> bytes res) list" where
  "broadcast_block mbin net node b =
     map (\<lambda>peer. (peer, send_message mbin net peer (NewBlock b))) (pn_peers node)"

text \<open>What one synchronisation task does with the answer of its peer.\<close>

definition sync_chain ::
  "'z node_env_scheme \<Rightarrow> (nat \<Rightarrow> i64) \<Rightarrow> string \<Rightarrow> p2p_message res \<Rightarrow> 'db p2p_node \<Rightarrow> 'db p2p_node" where
  "sync_chain env clk peer response node =
     (case response of
        Inr (ResponseChain cs) \<Rightarrow>
          (let (r, bc) = replace_chain env clk cs (pn_blockchain node);
               node = node\<lparr>pn_blockchain := bc\<rparr>
           in case r of Inr True \<Rightarrow> add_reputation peer REPUTATION_REWARD_VALID_BLOCK node | _ \<Rightarrow> node)
      | _ \<Rightarrow> node)"

text \<open>\<open>order\<close> is a permutation of the configured peers: the order in which their tasks take the lock.\<close>

fun sync_tasks ::
  "'z node_env_scheme \<Rightarrow> (p2p_message, bytes) codec \<Rightarrow> transport \<Rightarrow> (string \<Rightarrow> nat \<Rightarrow> i64) \<Rightarrow> string list
     \<Rightarrow> 'db p2p_node \<Rightarrow> 'db p2p_node" where
  "sync_tasks env mbin net clk [] node = node"
| "sync_tasks env mbin net clk (peer # order) node =
     sync_tasks env mbin net clk order
       (sync_chain env (clk peer) peer (send_and_receive mbin net peer RequestChain) node)"

definition request_chain_from_peers ::
  "'z node_env_scheme \<Rightarrow> (p2p_message, bytes) codec \<Rightarrow> transport \<Rightarrow> (string \<Rightarrow> nat \<Rightarrow> i64)
     \<Rightarrow> (string list \<Rightarrow> string list) \<Rightarrow> 'db p2p_node \<Rightarrow> 'db p2p_node" where
  "request_chain_from_peers env mbin net clk order node = sync_tasks env mbin net clk (order (pn_peers node)) node"

section \<open>What a block from the network is checked for\<close>

definition wire_links :: "'z node_env_scheme \<Rightarrow> block \<Rightarrow> block \<Rightarrow> bool" where
  "wire_links env p b \<longleftrightarrow>
     b_index b = b_index p + 1 \<and> b_previous_hash b = b_hash p \<and> b_hash b = calculate_hash env b
     \<and> b_merkle_root b = calculate_merkle_root env (b_encrypted_block_data b) (b_blind_indexes b)"

lemma add_reputation_sel [simp]:
  "pn_blockchain (add_reputation p d node) = pn_blockchain node" "pn_db (add_reputation p d node) = pn_db node"
  "pn_peers (add_reputation p d node) = pn_peers node" "pn_blacklist (add_reputation p d node) = pn_blacklist node"
  by (simp_all add: add_reputation_def)

text \<open>A block is appended exactly when it is new and linked, and nothing else changes chain or
  database.\<close>

lemma handle_new_block_append:
  assumes "chain (pn_blockchain node) \<noteq> []" and "wire_links env (last (chain (pn_blockchain node))) b"
    and "\<forall>x\<in>set (chain (pn_blockchain node)). b_hash x \<noteq> b_hash b"
  shows "handle_new_block env rdb bin peer b node =
    (Inr (), add_reputation peer 1
       (node\<lparr>pn_blockchain := (pn_blockchain node)\<lparr>chain := chain (pn_blockchain node) @ [b]\<rparr>,
             pn_db := persist_block rdb bin b (pn_db node)\<rparr>))"
  using assms by (simp add: handle_new_block_def get_latest_block_def wire_links_def)

lemma handle_new_block_cases:
  obtains (kept) "pn_blockchain (snd (handle_new_block env rdb bin peer b node)) = pn_blockchain node"
      "pn_db (snd (handle_new_block env rdb bin peer b node)) = pn_db node"
    | (added) "chain (pn_blockchain node) \<noteq> []" "wire_links env (last (chain (pn_blockchain node))) b"
      "pn_blockchain (snd (handle_new_block env rdb bin peer b node))
        = (pn_blockchain node)\<lparr>chain := chain (pn_blockchain node) @ [b]\<rparr>"
      "pn_db (snd (handle_new_block env rdb bin peer b node)) = persist_block rdb bin b (pn_db node)"
proof (cases "chain (pn_blockchain node) = []")
  case True
  then show thesis by (intro kept) (simp_all add: handle_new_block_def get_latest_block_def)
next
  case ne: False
  show thesis
  proof (cases "wire_links env (last (chain (pn_blockchain node))) b
      \<and> (\<forall>x\<in>set (chain (pn_blockchain node)). b_hash x \<noteq> b_hash b)")
    case True
    with handle_new_block_append [OF ne, of env b rdb bin peer] show thesis
      using ne by (intro added) simp_all
  next
    case False
    then show thesis using ne
      by (intro kept) (auto simp: handle_new_block_def get_latest_block_def wire_links_def)
  qed
qed

lemma handle_message_state:
  "snd (handle_message env rdb bin mbin io peer msg node) = node
   \<or> (\<exists>b. msg = NewBlock b \<and> snd (handle_message env rdb bin mbin io peer msg node)
        = snd (handle_new_block env rdb bin peer b node))"
  by (cases msg) (auto simp: handle_message_def bindS_def split: sum.splits prod.splits)

lemma admit_message_sel:
  "pn_blockchain (snd (admit_message now peer node)) = pn_blockchain node"
  "pn_db (snd (admit_message now peer node)) = pn_db node"
  by (simp_all add: admit_message_def Let_def split_beta)

text \<open>A connection changes chain and database at most as one block from it does.\<close>

lemma serve_connection_cases:
  obtains (kept) "pn_blockchain (serve_connection env rdb bin mbin now io peer input node) = pn_blockchain node"
      "pn_db (serve_connection env rdb bin mbin now io peer input node) = pn_db node"
    | (added) b where "chain (pn_blockchain node) \<noteq> []" "wire_links env (last (chain (pn_blockchain node))) b"
      "pn_blockchain (serve_connection env rdb bin mbin now io peer input node)
        = (pn_blockchain node)\<lparr>chain := chain (pn_blockchain node) @ [b]\<rparr>"
      "pn_db (serve_connection env rdb bin mbin now io peer input node) = persist_block rdb bin b (pn_db node)"
proof -
  let ?n1 = "snd (admit_message now peer node)"
  have "serve_connection env rdb bin mbin now io peer input node \<in> {node, ?n1}
      \<or> (\<exists>msg. serve_connection env rdb bin mbin now io peer input node
            = snd (handle_message env rdb bin mbin io peer msg ?n1))"
    by (auto simp: serve_connection_def handle_connection_def bindS_def split: sum.splits prod.splits)
  then consider "serve_connection env rdb bin mbin now io peer input node \<in> {node, ?n1}"
    | b where "serve_connection env rdb bin mbin now io peer input node = snd (handle_new_block env rdb bin peer b ?n1)"
    using handle_message_state [of env rdb bin mbin io peer _ ?n1] by (metis insertCI)
  then show thesis
  proof cases
    case 1
    then show thesis by (intro kept) (auto simp: admit_message_sel)
  next
    case (2 b)
    then show thesis
      using kept added [of b]
      by (cases rule: handle_new_block_cases [of env rdb bin peer b ?n1]) (simp_all add: admit_message_sel)
  qed
qed

lemma persist_holds:
  assumes "store_holds rdb healthy bin db bs" and "total_codec bin" and "unat (b_index b) = length bs"
    and "Suc (length bs) < 2 ^ 64"
  shows "store_holds rdb healthy bin (persist_block rdb bin b db) (bs @ [b])"
proof -
  obtain db1 where s: "save_block rdb bin b db = (Inr (), db1)" and h: "store_holds rdb healthy bin db1 (bs @ [b])"
    using store.save_next [OF assms(1) _ assms(3,4)] total_codecD [OF assms(2)] by blast
  have ok: "rocks_ok rdb healthy" "healthy db1" using h by (simp_all add: store_holds_def store_laws_def)
  obtain db2 where p: "db_put rdb db1 (checkpoint_key (b_index b)) (as_bytes (b_hash b)) = (Inr (), db2)"
    and "healthy db2" "contents rdb db2 = (contents rdb db1)(checkpoint_key (b_index b) \<mapsto> as_bytes (b_hash b))"
    by (rule rocks_put [OF ok])
  with h have "store_holds rdb healthy bin db2 (bs @ [b])" by (simp add: store_holds_def chain_held_def)
  with h s p show ?thesis by (simp add: persist_block_def save_checkpoint_def db_call_def)
qed

section \<open>Histories of connections\<close>

record connection =
  cn_now :: "nat \<Rightarrow> u64"
  cn_io :: "nat \<Rightarrow> string option"
  cn_peer :: string
  cn_input :: bytes

fun serve_all ::
  "'z node_env_scheme \<Rightarrow> 'db rocks \<Rightarrow> (block, bytes) codec \<Rightarrow> (p2p_message, bytes) codec
     \<Rightarrow> connection list \<Rightarrow> 'db p2p_node \<Rightarrow> 'db p2p_node" where
  "serve_all env rdb bin mbin [] node = node"
| "serve_all env rdb bin mbin (c # cs) node =
     serve_all env rdb bin mbin cs
       (serve_connection env rdb bin mbin (cn_now c) (cn_io c) (cn_peer c) (cn_input c) node)"

text \<open>The node's chain is linked, numbered from zero, and held by the store.\<close>

definition p2p_sound ::
  "'z node_env_scheme \<Rightarrow> 'db rocks \<Rightarrow> ('db \<Rightarrow> bool) \<Rightarrow> (block, bytes) codec \<Rightarrow> 'db p2p_node \<Rightarrow> bool" where
  "p2p_sound env rdb healthy bin node \<longleftrightarrow>
     chain (pn_blockchain node) \<noteq> [] \<and> well_indexed (chain (pn_blockchain node))
     \<and> successively (wire_links env) (chain (pn_blockchain node))
     \<and> store_holds rdb healthy bin (pn_db node) (chain (pn_blockchain node))"

lemma serve_connection_sound:
  assumes inv: "p2p_sound env rdb healthy bin node" and "total_codec bin"
    and len: "Suc (length (chain (pn_blockchain node))) < 2 ^ 64"
    and n': "node' = serve_connection env rdb bin mbin now io peer input node"
  shows "p2p_sound env rdb healthy bin node'"
    and "\<exists>bs. chain (pn_blockchain node') = chain (pn_blockchain node) @ bs \<and> length bs \<le> 1"
proof -
  let ?c = "chain (pn_blockchain node)"
  consider "pn_blockchain node' = pn_blockchain node" "pn_db node' = pn_db node"
    | b where "wire_links env (last ?c) b" "pn_blockchain node' = (pn_blockchain node)\<lparr>chain := ?c @ [b]\<rparr>"
      "pn_db node' = persist_block rdb bin b (pn_db node)"
    unfolding n' by (rule serve_connection_cases [of env rdb bin mbin now io peer input node])
  then have "p2p_sound env rdb healthy bin node' \<and> (\<exists>bs. chain (pn_blockchain node') = ?c @ bs \<and> length bs \<le> 1)"
  proof cases
    case 1
    with inv show ?thesis by (auto simp: p2p_sound_def)
  next
    case (2 b)
    from inv have ne: "?c \<noteq> []" and wi: "well_indexed ?c" by (auto simp: p2p_sound_def)
    then have "unat (b_index (last ?c)) = length ?c - 1" by (simp add: well_indexed_def last_conv_nth)
    then have idx: "unat (b_index b) = length ?c"
      using 2(1) ne len by (auto simp: wire_links_def unat_word_ariths)
    have "well_indexed (?c @ [b])" using wi idx by (auto simp: well_indexed_def nth_append less_Suc_eq)
    moreover have "successively (wire_links env) (?c @ [b])"
      using inv 2(1) ne by (auto simp: p2p_sound_def successively_append_iff)
    moreover have "store_holds rdb healthy bin (pn_db node') (?c @ [b])"
      unfolding 2(3) using inv assms(2) idx len by (intro persist_holds) (auto simp: p2p_sound_def)
    ultimately show ?thesis by (simp add: p2p_sound_def 2(2))
  qed
  then show "p2p_sound env rdb healthy bin node'"
    and "\<exists>bs. chain (pn_blockchain node') = chain (pn_blockchain node) @ bs \<and> length bs \<le> 1" by blast+
qed

lemma read_frame_frame:
  assumes "length encoded \<le> 100000000"
  shows "read_frame (\<lambda>_. None) what (frame encoded @ rest) = Inr encoded"
proof -
  have "unat (of_nat (length encoded) :: u32) = length encoded"
    using assms by (simp add: unat_of_nat)
  with assms show ?thesis by (simp add: read_frame_def read_exact_def frame_def)
qed

lemma serve_all_sound:
  assumes "p2p_sound env rdb healthy bin node" and "total_codec bin"
    and "length (chain (pn_blockchain node)) + length cs < 2 ^ 64 - 1"
  shows "p2p_sound env rdb healthy bin (serve_all env rdb bin mbin cs node)
    \<and> (\<exists>bs. chain (pn_blockchain (serve_all env rdb bin mbin cs node)) = chain (pn_blockchain node) @ bs)"
  using assms
proof (induction cs arbitrary: node)
  case Nil
  then show ?case by simp
next
  case (Cons c cs)
  let ?node = "serve_connection env rdb bin mbin (cn_now c) (cn_io c) (cn_peer c) (cn_input c) node"
  have "Suc (length (chain (pn_blockchain node))) < 2 ^ 64" using Cons.prems(3) by simp
  note step = serve_connection_sound [OF Cons.prems(1,2) this refl, of mbin "cn_now c" "cn_io c" "cn_peer c" "cn_input c"]
  from step(2) obtain bs where bs: "chain (pn_blockchain ?node) = chain (pn_blockchain node) @ bs" "length bs \<le> 1" by blast
  then have "length (chain (pn_blockchain ?node)) + length cs < 2 ^ 64 - 1" using Cons.prems(3) by simp
  from Cons.IH [OF step(1) Cons.prems(2) this] bs(1) show ?case by auto
qed

section \<open>Properties\<close>

text \<open>Peers can only extend the chain. After any sequence of incoming connections, whatever
  bytes they carry and however they fail, the chain of the node is the old chain with further blocks
  appended; it is hash-linked, consecutively numbered and correctly rooted throughout; and
  loading from the database returns exactly this chain.\<close>

theorem peers_only_append:
  assumes "p2p_sound env rdb healthy bin node" and "total_codec bin"
    and "length (chain (pn_blockchain node)) + length cs < 2 ^ 64 - 1"
  shows "\<exists>bs. let node' = serve_all env rdb bin mbin cs node
    in chain (pn_blockchain node') = chain (pn_blockchain node) @ bs
       \<and> p2p_sound env rdb healthy bin node'
       \<and> load_chain rdb bin (pn_db node') = Inr (chain (pn_blockchain node) @ bs)"
proof -
  obtain bs where "p2p_sound env rdb healthy bin (serve_all env rdb bin mbin cs node)"
    and "chain (pn_blockchain (serve_all env rdb bin mbin cs node)) = chain (pn_blockchain node) @ bs"
    using serve_all_sound [OF assms] by blast
  moreover from this have "load_chain rdb bin (pn_db (serve_all env rdb bin mbin cs node))
      = Inr (chain (pn_blockchain node) @ bs)"
    by (auto simp: p2p_sound_def dest: load_chain_held)
  ultimately show ?thesis by (auto simp: Let_def)
qed

text \<open>A connection that is admitted and carries a block.\<close>

lemma handle_connection_block:
  assumes "codec_ok mbin" and "enc mbin (NewBlock b) = Inr encoded" and "length encoded \<le> 100000000"
    and "- 10 \<le> peer_rep node peer" and "fst (admit_message now peer node) = Inr ()"
    and "node1 = snd (admit_message now peer node)"
  shows "handle_connection env rdb bin mbin now (\<lambda>_. None) peer (frame encoded) node
    = bindS (handle_new_block env rdb bin peer b) (\<lambda>_. retS []) node1"
proof -
  have a: "admit_message now peer node = (Inr (), node1)" using assms(5,6) by (metis prod.collapse)
  have "read_frame (\<lambda>_. None) ''Message'' (frame encoded) = Inr encoded"
    using read_frame_frame [OF assms(3), of "''Message''" "[]"] by simp
  moreover have "deserialize_message mbin encoded = Inr (NewBlock b)"
    using codec_okD [OF assms(1,2)] by (simp add: deserialize_message_def)
  ultimately show ?thesis
    using assms(4) by (simp add: handle_connection_def handle_message_def bindS_eq [where m = "admit_message now peer"] a bindS_def)
qed

lemma make_block_wire_links:
  "make_block env seed bc = Inr b \<Longrightarrow> wire_links env (last (chain bc)) b"
  by (elim make_block_cases) (auto simp: wire_links_def dest: block_new_fields(7,8))

lemma write_frame_iff: "write_frame net addr e = Inr s \<longleftrightarrow> tr_write net addr (frame e) = Completed () \<and> s = frame e"
  by (cases "tr_write net addr (frame e)") (auto simp: write_frame_def)

lemma peer_rep_after: "peer_rep (add_reputation peer d node) peer = wrap32 (peer_rep node peer + d)"
  by (simp add: peer_rep_def add_reputation_def)

lemma peer_rep_update [simp]: "peer_rep (node\<lparr>pn_blockchain := bc, pn_db := db\<rparr>) p = peer_rep node p"
  by (simp add: peer_rep_def)

lemma peer_rep_admit [simp]: "peer_rep (snd (admit_message now peer node)) p = peer_rep node p"
  by (simp add: admit_message_def Let_def split_beta peer_rep_def)

text \<open>C33. Blocks propagate. When a node has created a block and sent it with \<open>send_message\<close>, a peer
  with the same previous chain that admits the connection receives exactly this block: it ends
  with the same chain, saves the block as its creator does, and credits the sender.\<close>

theorem block_propagates:
  assumes "codec_ok mbin" and "send_message mbin net addr (NewBlock b) = Inr sent" and "length sent \<le> 100000004"
    and "add_block env seed bc = (Inr b, bc')" and "chain (pn_blockchain node) = chain bc"
    and "\<forall>x\<in>set (chain bc). b_hash x \<noteq> b_hash b"
    and "- 10 \<le> peer_rep node peer" and "fst (admit_message now peer node) = Inr ()"
  shows "\<exists>node'. handle_connection env rdb bin mbin now (\<lambda>_. None) peer sent node = (Inr [], node')
    \<and> chain (pn_blockchain node') = chain bc' \<and> pn_db node' = persist_block rdb bin b (pn_db node)
    \<and> peer_rep node' peer = wrap32 (peer_rep node peer + 1)"
proof -
  obtain encoded where e: "enc mbin (NewBlock b) = Inr encoded" and sent: "sent = frame encoded"
    using assms(2) by (auto simp: send_message_def serialize_message_def write_frame_iff res_iff)
  have len: "length encoded \<le> 100000000" using assms(3) by (simp add: sent frame_def)
  have make: "make_block env seed bc = Inr b" and chain': "chain bc' = chain bc @ [b]"
    using assms(4) by (auto simp: add_block_cases)
  let ?n1 = "snd (admit_message now peer node)"
  have ne: "chain (pn_blockchain ?n1) \<noteq> []"
    using make by (auto simp: admit_message_sel assms(5) elim: make_block_cases)
  have links: "wire_links env (last (chain (pn_blockchain ?n1))) b"
    using make_block_wire_links [OF make] by (simp add: admit_message_sel assms(5))
  have new: "\<forall>x\<in>set (chain (pn_blockchain ?n1)). b_hash x \<noteq> b_hash b"
    using assms(5,6) by (simp add: admit_message_sel)
  show ?thesis
    unfolding sent handle_connection_block [OF assms(1) e len assms(7,8) refl]
    by (simp add: bindS_def handle_new_block_append [OF ne links new] peer_rep_after admit_message_sel assms(5) chain')
qed

text \<open>C34. The network checks less than validation does. A block that is linked to the last block
  and new is appended whatever its validator, its timestamp and its data are; the node's own chain
  is then valid exactly when the block also carries signed data, names the scheduled validator,
  and has a timestamp in order and not in the future.\<close>

theorem network_checks_are_weaker:
  assumes "codec_ok mbin" and "enc mbin (NewBlock b) = Inr encoded" and "length encoded \<le> 100000000"
    and "- 10 \<le> peer_rep node peer" and "fst (admit_message now peer node) = Inr ()"
    and "chain (pn_blockchain node) = init @ [p]" and "wire_links env p b"
    and "\<forall>x\<in>set (chain (pn_blockchain node)). b_hash x \<noteq> b_hash b"
    and "is_valid env clk (pn_blockchain node) = Inr ()"
  shows "\<exists>node'. handle_connection env rdb bin mbin now (\<lambda>_. None) peer (frame encoded) node = (Inr [], node')
    \<and> chain (pn_blockchain node') = init @ [p, b]
    \<and> (is_valid env clk (pn_blockchain node') = Inr () \<longleftrightarrow>
        verify_data env (container_js env) b = Inr ()
        \<and> get_current_validator (validators (validator_cfg (pn_blockchain node))) (b_index b) = Inr (b_validator b)
        \<and> b_timestamp p \<le> b_timestamp b \<and> b_timestamp b \<le> clk (Suc (length init)) + 14400)"
proof -
  let ?bc = "pn_blockchain node" and ?n1 = "snd (admit_message now peer node)"
  have sel: "pn_blockchain ?n1 = ?bc" by (simp add: admit_message_sel)
  have ne: "chain (pn_blockchain ?n1) \<noteq> []" and links: "wire_links env (last (chain (pn_blockchain ?n1))) b"
    and new: "\<forall>x\<in>set (chain (pn_blockchain ?n1)). b_hash x \<noteq> b_hash b"
    using assms(6-8) by (simp_all add: sel)
  have "is_valid env clk (?bc\<lparr>chain := chain ?bc @ [b]\<rparr>)
      = check_block env (validators (validator_cfg ?bc)) (clk (length (chain ?bc))) (length (chain ?bc)) (last (chain ?bc)) b"
  proof (rule is_valid_snoc)
    have "?bc\<lparr>chain := chain ?bc\<rparr> = ?bc" by simp
    then show "is_valid env clk (?bc\<lparr>chain := chain ?bc\<rparr>) = Inr ()" using assms(9) by simp
  qed (simp add: assms(6))
  then have valid: "is_valid env clk (?bc\<lparr>chain := init @ [p, b]\<rparr>) = Inr () \<longleftrightarrow>
      block_links env (validators (validator_cfg ?bc)) p b \<and> b_timestamp p \<le> b_timestamp b
      \<and> b_timestamp b \<le> clk (Suc (length init)) + 14400"
    by (simp add: assms(6) check_block_iff)
  have "handle_connection env rdb bin mbin now (\<lambda>_. None) peer (frame encoded) node
      = (Inr [], add_reputation peer 1 (?n1\<lparr>pn_blockchain := ?bc\<lparr>chain := init @ [p, b]\<rparr>,
          pn_db := persist_block rdb bin b (pn_db node)\<rparr>))"
    unfolding handle_connection_block [OF assms(1-5) refl]
    by (simp add: bindS_def handle_new_block_append [OF ne links new] admit_message_sel assms(6))
  with valid assms(7) show ?thesis by (auto simp: block_links_def wire_links_def)
qed

section \<open>Witnesses\<close>

text \<open>A serializer for blocks: the number of blind indexes in unary, then all fields as strings.\<close>

definition block_strs :: "block \<Rightarrow> string list" where
  "block_strs b = [show_u64 (b_index b), show_int (b_timestamp b), b_encrypted_block_data b, b_block_salt b,
     b_validator b, b_previous_hash b, b_merkle_root b, b_hash b] @ b_blind_indexes b"

definition strs_block :: "string list \<Rightarrow> block" where
  "strs_block ss = \<lparr>b_index = of_nat (digits_val (ss ! 0)), b_timestamp = read_int (ss ! 1),
     b_encrypted_block_data = ss ! 2, b_blind_indexes = drop 8 ss, b_block_salt = ss ! 3, b_validator = ss ! 4,
     b_previous_hash = ss ! 5, b_merkle_root = ss ! 6, b_hash = ss ! 7\<rparr>"

definition demo_block_codec :: "(block, bytes) codec" where
  "demo_block_codec = \<lparr>
     enc = (\<lambda>b. Inr (replicate (length (b_blind_indexes b)) 1 @ 0 # put_strs (block_strs b))),
     dec = (\<lambda>bs. let n = length (takeWhile (\<lambda>x. x = 1) bs) in Inr (strs_block (get_strs (8 + n) (drop (Suc n) bs))))\<rparr>"

lemma demo_block_codec_ok: "total_codec demo_block_codec"
proof -
  have "strs_block (block_strs b) = b" for b
    by (simp add: strs_block_def block_strs_def read_int_show_int show_u64_def)
  moreover have "get_strs (8 + length (b_blind_indexes b)) (put_strs (block_strs b)) = block_strs b" for b
  proof -
    have "length (block_strs b) = 8 + length (b_blind_indexes b)" by (simp add: block_strs_def)
    then show ?thesis using get_put_strs [of "block_strs b"] by simp
  qed
  moreover have "takeWhile (\<lambda>x. x = 1) (replicate n 1 @ 0 # (r :: bytes)) = replicate n 1" for n r
    by (rule takeWhile_append_stop) simp_all
  ultimately show ?thesis
    by (auto simp: total_codec_def codec_ok_def demo_block_codec_def Let_def)
qed

definition demo_wire :: "p2p_message list \<Rightarrow> (p2p_message, bytes) codec" where
  "demo_wire ms = table_codec ms"

definition demo_net :: transport where
  "demo_net = \<lparr>tr_lookup = (\<lambda>p. Inr [p]), tr_connect = (\<lambda>_. Completed ()), tr_write = (\<lambda>_ _. Completed ()),
     tr_reply = (\<lambda>_ _. ([], \<lambda>_. None))\<rparr>"

definition demo_p2p :: "demo_db p2p_node" where
  "demo_p2p = p2p_new (demo_bc 0 [] []) (demo_store demo_block_codec SCHEMA_VERSION) []"

lemma demo_p2p_sel [simp]:
  "pn_blockchain demo_p2p = demo_bc 0 [] []" "pn_db demo_p2p = demo_store demo_block_codec SCHEMA_VERSION"
  "peer_rep demo_p2p p = 0"
  by (simp_all add: demo_p2p_def p2p_new_def peer_rep_def)

lemma demo_p2p_admits: "fst (admit_message now peer demo_p2p) = Inr ()"
  by (simp add: admit_message_def demo_p2p_def p2p_new_def tracker_new_def check_and_increment_def Let_def)

lemma demo_p2p_sound: "p2p_sound env demo_rocks demo_healthy demo_block_codec demo_p2p"
proof -
  obtain v where v: "enc demo_block_codec (demo_genesis 0) = Inr v" using total_codecD [OF demo_block_codec_ok] by blast
  have "codec_ok demo_block_codec" using demo_block_codec_ok by (simp add: total_codec_def)
  then show ?thesis
    using demo_store_held [OF v] demo_store_ok(1) [OF v] demo_rocks_ok
    by (simp add: p2p_sound_def well_indexed_def store_holds_def store_laws_def)
qed

theorem peers_only_append_witness:
  "\<exists>bs. let node' = serve_all (demo_node [] [] []) demo_rocks demo_block_codec (demo_wire [NewBlock (demo_genesis 5)])
        [\<lparr>cn_now = (\<lambda>_. 7), cn_io = (\<lambda>_. None), cn_peer = ''p'', cn_input = frame []\<rparr>] demo_p2p
    in chain (pn_blockchain node') = [demo_genesis 0] @ bs
       \<and> p2p_sound (demo_node [] [] []) demo_rocks demo_healthy demo_block_codec node'
       \<and> load_chain demo_rocks demo_block_codec (pn_db node') = Inr ([demo_genesis 0] @ bs)"
  using peers_only_append [OF demo_p2p_sound demo_block_codec_ok, of "[\<lparr>cn_now = (\<lambda>_. 7), cn_io = (\<lambda>_. None), cn_peer = ''p'', cn_input = frame []\<rparr>]"]
  by simp

text \<open>No short string hashes to the zero digest of the genesis block.\<close>

lemma demo_hex_zero: "demo_hex_encode (digest_bytes 0) = replicate 64 CHR ''0''"
proof -
  have "nat_to_le n 0 = replicate n 0" for n by (induction n) simp_all
  moreover have "demo_hex_encode (replicate n 0) = replicate (2 * n) CHR ''0''" for n
    by (induction n) (simp_all add: demo_hex_encode_def hexdigit_def char_of_def bit_0)
  ultimately show ?thesis by (simp add: digest_bytes_def)
qed

lemma demo_hash_not_zero: "length x \<le> 1000 \<Longrightarrow> hash_string (demo_node cs as js) x \<noteq> replicate 64 CHR ''0''"
proof
  assume "length x \<le> 1000" and eq: "hash_string (demo_node cs as js) x = replicate 64 CHR ''0''"
  then have pos: "unat (sum_hash (as_bytes x)) \<noteq> 0" by (simp add: sum_hash_nat)
  from eq have "demo_hex_encode (digest_bytes (sum_hash (as_bytes x))) = demo_hex_encode (digest_bytes 0)"
    unfolding demo_hex_zero by (simp add: hash_string_def demo_env_def)
  then have "demo_hex_decode (demo_hex_encode (digest_bytes (sum_hash (as_bytes x))))
      = demo_hex_decode (demo_hex_encode (digest_bytes 0))" by (rule arg_cong)
  then have "sum_hash (as_bytes x) = 0" by (simp only: demo_hex_roundtrip sum.inject digest_bytes_inject)
  with pos show False by simp
qed

abbreviation short_env :: node_env where "short_env \<equiv> demo_node [demo_container [] [demo_col ''o'']] [] []"

theorem block_propagates_witness:
  "\<exists>b bc' sent node'. add_block short_env (demo_seed 172800 0) (demo_bc 0 [] [demo_col ''o'']) = (Inr b, bc')
      \<and> send_message (demo_wire [NewBlock b]) demo_net ''q'' (NewBlock b) = Inr sent
      \<and> handle_connection short_env demo_rocks demo_block_codec (demo_wire [NewBlock b]) (\<lambda>_. 7) (\<lambda>_. None) ''p'' sent demo_p2p
        = (Inr [], node')
      \<and> chain (pn_blockchain node') = [demo_genesis 0, b]"
proof -
  let ?bc = "demo_bc 0 [] [demo_col ''o'']" and ?seed = "demo_seed 172800 0"
  have s: "enc (str_codec (table_codec [demo_container [] [demo_col ''o'']])) (demo_container [] [demo_col ''o'']) = Inr []"
    by (simp add: str_codec_def table_codec_def of_bytes_def)
  have t: "obfuscate_timestamp 0 172800 = 172800" by (simp add: obfuscate_timestamp_def)
  let ?b = "demo_block short_env 172800 []"
  obtain bc' where add: "add_block short_env ?seed ?bc = (Inr ?b, bc')" and chain': "chain bc' = [demo_genesis 0, ?b]"
    by (simp add: add_block_def demo_make_block_eq [OF s] t)
  have send: "send_message (demo_wire [NewBlock ?b]) demo_net ''q'' (NewBlock ?b) = Inr (frame [])"
    by (simp add: send_message_def serialize_message_def demo_wire_def table_codec_def demo_net_def connect_peer_def write_frame_def)
  have "b_hash ?b \<noteq> replicate 64 CHR ''0''"
    unfolding demo_block_hash by (rule demo_hash_not_zero)
      (simp add: calculate_merkle_root_def EMPTY_MERKLE_ROOT_def show_int_def show_nat.simps)
  then have new: "\<forall>x\<in>set (chain ?bc). b_hash x \<noteq> b_hash ?b" by (simp add: demo_genesis_def)
  have "codec_ok (demo_wire [NewBlock ?b])" by (simp add: demo_wire_def table_codec_ok)
  from block_propagates [OF this send _ add _ new, of demo_p2p "''p''" "\<lambda>_. 7" demo_rocks demo_block_codec]
  obtain node' where "handle_connection short_env demo_rocks demo_block_codec (demo_wire [NewBlock ?b]) (\<lambda>_. 7) (\<lambda>_. None) ''p'' (frame []) demo_p2p
      = (Inr [], node')" and "chain (pn_blockchain node') = chain bc'"
    by (auto simp: frame_def demo_p2p_admits)
  with add send chain' show ?thesis by metis
qed

text \<open>A linked block that names a validator who does not exist.\<close>

definition rogue_block :: block where
  "rogue_block = (let b = (demo_block short_env 172800 [])\<lparr>b_validator := ''X''\<rparr>
     in b\<lparr>b_hash := calculate_hash short_env b\<rparr>)"

lemma rogue_block_links: "wire_links short_env (demo_genesis 0) rogue_block" "b_validator rogue_block = ''X''"
  by (simp_all add: wire_links_def rogue_block_def Let_def demo_block_def demo_genesis_def calculate_hash_def hash_content_def)

theorem network_checks_are_weaker_witness:
  "\<exists>node'. handle_connection short_env demo_rocks demo_block_codec (demo_wire [NewBlock rogue_block]) (\<lambda>_. 7) (\<lambda>_. None)
        ''p'' (frame []) demo_p2p = (Inr [], node')
    \<and> chain (pn_blockchain node') = [demo_genesis 0, rogue_block]
    \<and> is_valid short_env (\<lambda>_. 200000) (pn_blockchain node') \<noteq> Inr ()"
proof -
  have e: "codec_ok (demo_wire [NewBlock rogue_block])" "enc (demo_wire [NewBlock rogue_block]) (NewBlock rogue_block) = Inr []"
    by (simp_all add: demo_wire_def table_codec_ok) (simp add: table_codec_def)
  have "b_hash rogue_block \<noteq> replicate 64 CHR ''0''"
    unfolding rogue_block_def Let_def
    by (simp add: calculate_hash_def, rule demo_hash_not_zero)
      (simp add: hash_content_def demo_block_def Let_def calculate_merkle_root_def EMPTY_MERKLE_ROOT_def show_int_def show_u64_def show_nat.simps)
  then have new: "\<forall>x\<in>set (chain (pn_blockchain demo_p2p)). b_hash x \<noteq> b_hash rogue_block"
    by (simp add: demo_genesis_def)
  have v: "is_valid short_env (\<lambda>_. 200000) (pn_blockchain demo_p2p) = Inr ()" by (simp add: is_valid_def)
  have c: "chain (pn_blockchain demo_p2p) = [] @ [demo_genesis 0]" by simp
  from network_checks_are_weaker [OF e _ _ demo_p2p_admits c rogue_block_links(1) new v, where peer = "''p''" and now = "\<lambda>_. 7" and rdb = demo_rocks and bin = demo_block_codec]
  show ?thesis by (simp add: rogue_block_links(2))
qed

end
