(* ===== verification/Goud_Shared_Db.thy ===== *)
theory Goud_Shared_Db
  imports Goud_Nonce Goud_Rate_Limiter Goud_Audit Goud_P2P
begin

text \<open>
  One database for all components. \<open>src/main.rs\<close> hands the same RocksDB instance to the chain store, the
  rate limiter, the nonce store and the audit logger; they are kept apart by the prefixes of their
  keys alone. The locale \<open>shared_db\<close> is what a component may rely on while others write: an invariant of
  the database that no write to a foreign key breaks. It is interpreted with the contents outside
  the foreign keys, and with the durability of the chain.
\<close>

section \<open>Actions that keep an invariant\<close>

definition keeps :: "('s \<Rightarrow> bool) \<Rightarrow> ('s, 'e, 'a) act \<Rightarrow> bool" where
  "keeps P m \<longleftrightarrow> (\<forall>s. P s \<longrightarrow> P (snd (m s)))"

named_theorems keep

lemma keepsD: "keeps P m \<Longrightarrow> P s \<Longrightarrow> P (snd (m s))"
  by (simp add: keeps_def)

lemma keepsI: "(\<And>s. P s \<Longrightarrow> P (snd (m s))) \<Longrightarrow> keeps P m"
  by (simp add: keeps_def)

lemma keeps_basic [keep]: "keeps P (retS x)" "keeps P (failS e)" "keeps P (liftS r)"
  by (auto simp: keeps_def retS_def failS_def liftS_def)

lemma keeps_read [keep]: "keeps P (\<lambda>s. (f s, s))"
  by (simp add: keeps_def)

lemma keeps_mapped [keep]: "keeps P m \<Longrightarrow> keeps P (\<lambda>s. let (r, s') = m s in (f r, s'))"
  by (simp add: keeps_def Let_def split_def)

lemma keeps_bindS [keep]: "keeps P m \<Longrightarrow> (\<And>x. keeps P (f x)) \<Longrightarrow> keeps P (bindS m f)"
  by (auto simp: keeps_def bindS_def split: sum.splits prod.splits)

lemma keeps_if [keep]: "(c \<Longrightarrow> keeps P m) \<Longrightarrow> (\<not> c \<Longrightarrow> keeps P n) \<Longrightarrow> keeps P (if c then m else n)"
  by simp

lemma keeps_option [keep]:
  "keeps P m \<Longrightarrow> (\<And>x. keeps P (f x)) \<Longrightarrow> keeps P (case r of None \<Rightarrow> m | Some x \<Rightarrow> f x)"
  by (simp split: option.splits)

lemma keeps_sum [keep]:
  "(\<And>x. keeps P (f x)) \<Longrightarrow> (\<And>y. keeps P (g y)) \<Longrightarrow> keeps P (case r of Inl x \<Rightarrow> f x | Inr y \<Rightarrow> g y)"
  by (simp split: sum.splits)

lemma keeps_pair [keep]: "(\<And>a b. keeps P (f a b)) \<Longrightarrow> keeps P (case r of (a, b) \<Rightarrow> f a b)"
  by (simp split: prod.splits)

section \<open>Keys\<close>

definition rate_key :: "bytes \<Rightarrow> bool" where
  "rate_key k \<longleftrightarrow> (\<exists>p\<in>{''ratelimit:'', ''violations:'', ''bans:'', ''ip_bans:''}. has_prefix (as_bytes p) k)"

definition nonce_db_key :: "bytes \<Rightarrow> bool" where
  "nonce_db_key k \<longleftrightarrow> has_prefix (as_bytes ''nonce:'') k"

definition audit_key :: "bytes \<Rightarrow> bool" where
  "audit_key k \<longleftrightarrow> has_prefix (as_bytes ''audit_index:'') k"

text \<open>The keys of the chain store.\<close>

definition chain_key :: "bytes \<Rightarrow> bool" where
  "chain_key k \<longleftrightarrow> (\<exists>p\<in>{''block:'', ''checkpoint:'', ''metadata:''}. has_prefix (as_bytes p) k)"

lemma has_prefix_Cons [simp]:
  "has_prefix [] k" "\<not> has_prefix (a # p) []" "has_prefix (a # p) (b # k) \<longleftrightarrow> a = b \<and> has_prefix p k"
  by (auto simp: has_prefix_def)

lemma tenant_keys [simp]:
  "rate_key (count_key h w)" "rate_key (violations_key h)" "rate_key (bans_key h)" "rate_key (ip_bans_key h)"
  "nonce_db_key (nonce_key n)" "audit_key (audit_index_key h)"
  "chain_key (block_key i)" "chain_key (checkpoint_key i)" "chain_key chain_length_key"
  "chain_key node_id_key" "chain_key schema_key"
  by (simp_all add: rate_key_def nonce_db_key_def audit_key_def chain_key_def count_key_def violations_key_def
      bans_key_def ip_bans_key_def nonce_key_def audit_index_key_def block_key_def checkpoint_key_def as_bytes_def)

text \<open>The prefixes exclude each other.\<close>

lemma tenant_keys_disjoint:
  "rate_key k \<Longrightarrow> \<not> nonce_db_key k" "rate_key k \<Longrightarrow> \<not> audit_key k" "rate_key k \<Longrightarrow> \<not> chain_key k"
  "nonce_db_key k \<Longrightarrow> \<not> audit_key k" "nonce_db_key k \<Longrightarrow> \<not> chain_key k" "audit_key k \<Longrightarrow> \<not> chain_key k"
  by (cases k; cases "tl k";
      force simp: rate_key_def nonce_db_key_def audit_key_def chain_key_def as_bytes_def)+

section \<open>Living with other writers\<close>

text \<open>\<open>mine k\<close>: a key that the component under consideration may write; \<open>inv\<close>: what must survive its writes.\<close>

locale shared_db =
  fixes rdb :: "'db rocks"
    and mine :: "bytes \<Rightarrow> bool"
    and inv :: "'db \<Rightarrow> bool"
  assumes put_keeps: "mine k \<Longrightarrow> inv db \<Longrightarrow> inv (snd (db_put rdb db k v))"
    and delete_keeps: "mine k \<Longrightarrow> inv db \<Longrightarrow> inv (snd (db_delete rdb db k))"
begin

text \<open>The rate limiter.\<close>

lemma rate_put_keeps: "rl_rocks L = rdb \<Longrightarrow> mine k \<Longrightarrow> keeps (\<lambda>s. inv (rs_db s)) (rate_put L what k v)"
  using put_keeps by (auto simp: keeps_def rate_put_def Let_def split_def)

lemma rate_delete_keeps: "rl_rocks L = rdb \<Longrightarrow> mine k \<Longrightarrow> keeps (\<lambda>s. inv (rs_db s)) (rate_delete L k)"
  using delete_keeps by (auto simp: keeps_def rate_delete_def Let_def split_def)

lemma rate_reads_keep:
  "keeps (\<lambda>s. inv (rs_db s)) (get_violations L h)"
  by (simp add: keeps_def get_violations_def)

lemma increment_keeps:
  assumes "rl_rocks L = rdb" and "\<And>k. rate_key k \<Longrightarrow> mine k"
  shows "keeps (\<lambda>s. inv (rs_db s)) (increment_request_count L now h w)"
  using put_keeps assms
  by (auto simp: keeps_def increment_request_count_def Let_def split_def split: sum.splits option.splits)

lemma is_ip_banned_keeps:
  assumes "rl_rocks L = rdb" and "\<And>k. rate_key k \<Longrightarrow> mine k"
  shows "keeps (\<lambda>s. inv (rs_db s)) (is_ip_banned L now ip)"
proof -
  have "keeps (\<lambda>s. inv (rs_db s)) (bindS (rate_delete L (ip_bans_key ip)) (\<lambda>_. retS False))"
    using assms by (intro keep rate_delete_keeps) simp_all
  then show ?thesis by (auto simp: keeps_def is_ip_banned_def split: sum.splits option.splits)
qed

lemma get_ban_status_keeps:
  assumes "rl_rocks L = rdb" and "\<And>k. rate_key k \<Longrightarrow> mine k"
  shows "keeps (\<lambda>s. inv (rs_db s)) (get_ban_status L now h)"
proof -
  have "keeps (\<lambda>s. inv (rs_db s)) (bindS (liftS r) (\<lambda>r.
      if ban_is_expired now r then bindS (rate_delete L (bans_key h)) (\<lambda>_. retS None) else retS (Some r)))" for r
    using assms by (intro keep rate_delete_keeps) simp_all
  then show ?thesis by (auto simp: keeps_def get_ban_status_def split: sum.splits option.splits)
qed

lemma check_limit_keeps:
  assumes "rl_rocks L = rdb" and "\<And>k. rate_key k \<Longrightarrow> mine k"
  shows "keeps (\<lambda>s. inv (rs_db s)) (check_limit env L bypass clk h ip w)"
proof -
  have violation: "keeps (\<lambda>s. inv (rs_db s)) (record_violation L now h)" for now
    unfolding record_violation_def Let_def using assms by (intro keep rate_reads_keep rate_put_keeps) simp_all
  have ban: "keeps (\<lambda>s. inv (rs_db s)) (apply_ban L now h level)"
    "keeps (\<lambda>s. inv (rs_db s)) (ban_ip L now i)" for now level i
    unfolding apply_ban_def ban_ip_def using assms by (intro keep rate_put_keeps; simp)+
  have punish: "keeps (\<lambda>s. inv (rs_db s)) (punish_with (rate_ops L) clk h i limit)" for i limit
    unfolding punish_with_def Let_def rate_ops_sel by (intro keep violation ban)
  have "keeps (\<lambda>s. inv (rs_db s)) (count_with (rate_ops L) clk h i w)" for i
    unfolding count_with_def Let_def rate_ops_sel by (intro keep punish increment_keeps assms)
  then show ?thesis
    unfolding check_limit_def check_with_def rate_ops_sel
    by (intro keep rate_reads_keep is_ip_banned_keeps get_ban_status_keeps assms)
qed

text \<open>The nonce store.\<close>

lemma is_nonce_used_keeps:
  assumes "\<And>k. nonce_db_key k \<Longrightarrow> mine k"
  shows "keeps (\<lambda>s. inv (ns_db s)) (is_nonce_used rdb l now n)"
  using delete_keeps assms
  by (auto simp: keeps_def is_nonce_used_def Let_def split_def split: sum.splits option.splits)

lemma record_nonce_keeps:
  assumes "\<And>k. nonce_db_key k \<Longrightarrow> mine k"
  shows "keeps (\<lambda>s. inv (ns_db s)) (record_nonce rdb l now n)"
  using put_keeps assms
  by (auto simp: keeps_def record_nonce_def Let_def split_def split: sum.splits)

lemma check_signed_keeps:
  assumes "\<And>k. nonce_db_key k \<Longrightarrow> mine k"
  shows "keeps (\<lambda>s. inv (ns_db s)) (check_signed_with (is_nonce_used rdb l) env js clk req)"
  unfolding check_signed_with_def by (intro keep is_nonce_used_keeps assms)

lemma validate_signed_keeps:
  assumes "\<And>k. nonce_db_key k \<Longrightarrow> mine k"
  shows "keeps (\<lambda>s. inv (ns_db s)) (validate_signed_request rdb l env js clk req)"
  unfolding validate_signed_request_def validate_with_def
  by (intro keep check_signed_keeps record_nonce_keeps assms)

lemma cleanup_loop_db_keeps:
  assumes "\<And>k. nonce_db_key k \<Longrightarrow> mine k" and "inv db"
  shows "inv (snd (cleanup_loop rdb now items n db))"
  using assms(2)
proof (induction items arbitrary: n db)
  case (Cons item items)
  show ?case
  proof (cases item)
    case (Inr kv)
    then show ?thesis using Cons delete_keeps [OF assms(1)]
      by (cases kv) (simp add: nonce_db_key_def)
  qed (use Cons in simp)
qed simp

lemma cleanup_keeps:
  assumes "\<And>k. nonce_db_key k \<Longrightarrow> mine k"
  shows "keeps (\<lambda>s. inv (ns_db s)) (cleanup_expired_nonces rdb now)"
  using cleanup_loop_db_keeps [OF assms] by (auto simp: keeps_def cleanup_expired_nonces_def Let_def split_def)

text \<open>The index of the audit log.\<close>

lemma update_audit_index_keeps:
  assumes "au_rocks lib = rdb" and "\<And>k. audit_key k \<Longrightarrow> mine k"
  shows "keeps inv (update_audit_index lib h i)"
proof -
  have "keeps inv (db_call RocksDbError (\<lambda>db. db_put (au_rocks lib) db (audit_index_key h) v))" for v
    using put_keeps assms by (auto simp: keeps_def db_call_def Let_def split_def)
  then have "keeps inv (bindS (liftS r) (\<lambda>v. db_call RocksDbError (\<lambda>db. db_put (au_rocks lib) db (audit_index_key h) v)))"
    for r by (intro keep)
  then show ?thesis by (auto simp: keeps_def update_audit_index_def split: sum.splits)
qed

end

section \<open>Isolation\<close>

text \<open>A database that differs from the contents \<open>m\<close> at most in the component's own keys.\<close>

definition only_changes ::
  "'db rocks \<Rightarrow> ('db \<Rightarrow> bool) \<Rightarrow> (bytes \<Rightarrow> bool) \<Rightarrow> (bytes \<rightharpoonup> bytes) \<Rightarrow> 'db \<Rightarrow> bool" where
  "only_changes rdb healthy mine m db \<longleftrightarrow>
     rocks_ok rdb healthy \<and> healthy db \<and> (\<forall>k. \<not> mine k \<longrightarrow> contents rdb db k = m k)"

interpretation isolation: shared_db rdb mine "only_changes rdb healthy mine m"
  for rdb :: "'db rocks" and mine healthy m
proof unfold_locales
  fix k db v assume k: "mine k" and o: "only_changes rdb healthy mine m db"
  then have ok: "rocks_ok rdb healthy" "healthy db" by (auto simp: only_changes_def)
  show "only_changes rdb healthy mine m (snd (db_put rdb db k v))"
    by (rule rocks_put [OF ok, of k v]) (use k o in \<open>auto simp: only_changes_def\<close>)
  show "only_changes rdb healthy mine m (snd (db_delete rdb db k))"
    by (rule rocks_delete [OF ok, of k]) (use k o in \<open>auto simp: only_changes_def\<close>)
qed

text \<open>C18. The components share the database without touching each other's entries. On a healthy database a
  check of the rate limiter changes at most entries under its four prefixes, the check of a signed request
  and the nonce cleanup at most entries of nonces, and an update of the audit index at most entries of that
  index, whatever API keys, addresses and nonces clients send; the database stays healthy. None of
  these keys belongs to the chain store.\<close>

theorem tenants_isolated:
  assumes "rocks_ok rdb healthy" and "healthy db" and "rl_rocks L = rdb" and "au_rocks lib = rdb"
  shows "let changed = (\<lambda>db'. {k. contents rdb db' k \<noteq> contents rdb db k});
       limited = rs_db (snd (check_limit env L bypass clk h ip w \<lparr>rs_db = db, rs_cache = c\<rparr>));
       signed = ns_db (snd (validate_signed_request rdb l env js clk req \<lparr>ns_db = db, ns_cache = nc\<rparr>));
       cleaned = ns_db (snd (cleanup_expired_nonces rdb now \<lparr>ns_db = db, ns_cache = nc\<rparr>));
       indexed = snd (update_audit_index lib account i db)
     in changed limited \<subseteq> Collect rate_key \<and> changed signed \<union> changed cleaned \<subseteq> Collect nonce_db_key
      \<and> changed indexed \<subseteq> Collect audit_key \<and> list_all healthy [limited, signed, cleaned, indexed]
      \<and> (\<forall>k. rate_key k \<or> nonce_db_key k \<or> audit_key k \<longrightarrow> \<not> chain_key k)"
proof -
  let ?m = "contents rdb db"
  have start: "only_changes rdb healthy mine ?m db" for mine using assms(1,2) by (simp add: only_changes_def)
  have "only_changes rdb healthy rate_key ?m (rs_db (snd (check_limit env L bypass clk h ip w \<lparr>rs_db = db, rs_cache = c\<rparr>)))"
    by (rule keepsD [OF isolation.check_limit_keeps [OF assms(3)]]) (simp_all add: start)
  moreover have "only_changes rdb healthy nonce_db_key ?m
      (ns_db (snd (validate_signed_request rdb l env js clk req \<lparr>ns_db = db, ns_cache = nc\<rparr>)))"
    by (rule keepsD [OF isolation.validate_signed_keeps]) (simp_all add: start)
  moreover have "only_changes rdb healthy nonce_db_key ?m
      (ns_db (snd (cleanup_expired_nonces rdb now \<lparr>ns_db = db, ns_cache = nc\<rparr>)))"
    by (rule keepsD [OF isolation.cleanup_keeps]) (simp_all add: start)
  moreover have "only_changes rdb healthy audit_key ?m (snd (update_audit_index lib account i db))"
    by (rule keepsD [OF isolation.update_audit_index_keeps [OF assms(4)]]) (simp_all add: start)
  ultimately show ?thesis
    using tenant_keys_disjoint unfolding Let_def only_changes_def by auto
qed

theorem tenants_isolated_witness:
  "let limited = rs_db (snd (check_limit demo_env demo_rate {} (\<lambda>_. 0) ''h'' ''10.0.0.1'' True
         \<lparr>rs_db = [(chain_length_key, [1])], rs_cache = lru_new demo_lru 10\<rparr>))
   in {k. map_of limited k \<noteq> map_of [(chain_length_key, [1])] k} \<subseteq> Collect rate_key
      \<and> map_of limited chain_length_key = Some [1] \<and> demo_healthy limited"
proof -
  let ?db = "[(chain_length_key, [1])]"
  have "demo_healthy ?db" "rl_rocks demo_rate = demo_rocks" by (simp_all add: demo_healthy_def demo_rate_def)
  note isolated = tenants_isolated [OF demo_rocks_ok this demo_audit_simps(1) [of "[]"], where env = demo_env and bypass = "{}"
      and clk = "\<lambda>_. 0" and h = "''h''" and ip = "''10.0.0.1''" and w = True and c = "lru_new demo_lru 10"
      and l = demo_lru and js = "str_codec (table_codec [])" and nc = "lru_new demo_lru 10" and now = 0 and i = 0
      and req = "\<lparr>sr_payload = ''p'', sr_nonce = ''n'', sr_timestamp = 0, sr_signature = [], sr_public_key = []\<rparr>"
      and account = "''h''", unfolded Let_def]
  let ?limited = "rs_db (snd (check_limit demo_env demo_rate {} (\<lambda>_. 0) ''h'' ''10.0.0.1'' True
         \<lparr>rs_db = ?db, rs_cache = lru_new demo_lru 10\<rparr>))"
  have "{k. map_of ?limited k \<noteq> map_of ?db k} \<subseteq> Collect rate_key" "demo_healthy ?limited"
    using isolated by (simp_all only: contents_demo list.pred_inject)
  moreover from this(1) have "map_of ?limited chain_length_key = map_of ?db chain_length_key"
    using tenant_keys_disjoint(3) [of chain_length_key] tenant_keys(9) by blast
  ultimately show ?thesis by (simp add: Let_def)
qed

section \<open>Durability\<close>

text \<open>The chain \<open>bs\<close> survives a restart: its blocks, the metadata, and only readable checkpoints of blocks on it.\<close>

definition durable ::
  "'db rocks \<Rightarrow> ('db \<Rightarrow> bool) \<Rightarrow> (block, bytes) codec \<Rightarrow> block list \<Rightarrow> 'db \<Rightarrow> bool" where
  "durable rdb healthy bin bs db \<longleftrightarrow>
     store_holds rdb healthy bin db bs \<and> bs \<noteq> []
     \<and> contents rdb db schema_key = Some (as_bytes SCHEMA_VERSION)
     \<and> (\<exists>s. contents rdb db node_id_key = Some (as_bytes s) \<and> utf8_valid (as_bytes s))
     \<and> (\<forall>i v. contents rdb db (checkpoint_key i) = Some v \<longrightarrow>
          unat i < length bs \<and> (\<exists>s. v = as_bytes s \<and> utf8_valid (as_bytes s)))"

lemma durable_laws: "durable rdb healthy bin bs db \<Longrightarrow> rocks_ok rdb healthy \<and> healthy db"
  by (simp add: durable_def store_holds_def store_laws_def)

text \<open>The keys that the chain store writes.\<close>

definition store_key :: "bytes \<Rightarrow> bool" where
  "store_key k \<longleftrightarrow> k \<in> range block_key \<union> range checkpoint_key \<union> {chain_length_key, node_id_key, schema_key}"

lemma store_key_chain: "store_key k \<Longrightarrow> chain_key k"
  by (auto simp: store_key_def)

lemma durable_elsewhere:
  assumes "durable rdb healthy bin bs db" and "healthy db'"
    and "\<And>k. store_key k \<Longrightarrow> contents rdb db' k = contents rdb db k"
  shows "durable rdb healthy bin bs db'"
  using assms by (simp add: durable_def store_holds_def chain_held_def store_key_def)

interpretation durability: shared_db rdb "\<lambda>k. \<not> chain_key k" "durable rdb healthy bin bs"
  for rdb :: "'db rocks" and healthy bin bs
proof unfold_locales
  note other = durable_elsewhere [where rdb = rdb and healthy = healthy and bin = bin and bs = bs]
  fix k db v assume k: "\<not> chain_key k" and d: "durable rdb healthy bin bs db"
  then have ok: "rocks_ok rdb healthy" "healthy db" by (auto dest: durable_laws)
  from k have ne: "k' \<noteq> k" if "store_key k'" for k' using store_key_chain [OF that] by auto
  show "durable rdb healthy bin bs (snd (db_put rdb db k v))"
    by (rule rocks_put [OF ok, of k v]) (auto intro!: other [OF d] simp: ne)
  show "durable rdb healthy bin bs (snd (db_delete rdb db k))"
    by (rule rocks_delete [OF ok, of k]) (auto intro!: other [OF d] simp: ne)
qed

text \<open>The scan ends: every checkpoint it meets belongs to a block of the chain.\<close>

lemma scan_checkpoints_ends:
  assumes get: "\<And>k. db_get rdb db k = Inr (m k)"
    and cps: "\<And>i v. m (checkpoint_key i) = Some v \<Longrightarrow> unat i < N \<and> (\<exists>s. v = as_bytes s \<and> utf8_valid (as_bytes s))"
    and N: "N < 2 ^ 63" and "unat w < N + 100"
  shows "\<exists>hs. scan_checkpoints rdb db w cs = Some (Inr hs)"
  using assms(4)
proof (induction "N + 100 - unat w" arbitrary: w cs rule: less_induct)
  case less
  show ?case
  proof (cases "m (checkpoint_key w)")
    case None
    then show ?thesis unfolding scan_checkpoints.simps [of rdb db w] get by simp
  next
    case (Some v)
    from cps [OF this] obtain s where w: "unat w < N" and s: "from_utf8 v = Inr s"
      by (auto simp: from_utf8_as_bytes)
    have next': "unat (w + 100) = unat w + 100" using w N by (simp add: unat_word_ariths)
    have "N + 100 - unat (w + 100) < N + 100 - unat w" "unat (w + 100) < N + 100" using next' w by linarith+
    from less.hyps [OF this] obtain hs where "scan_checkpoints rdb db (w + 100) (cs @ [s]) = Some (Inr hs)" by blast
    with Some s show ?thesis unfolding scan_checkpoints.simps [of rdb db w] get by simp
  qed
qed

lemma durable_restart:
  assumes "durable rdb healthy bin bs db" and "length bs < 2 ^ 63"
  shows "\<exists>bc. load_blockchain env rdb bin new_key nid cfg db = Some (Inr bc, db) \<and> chain bc = bs
    \<and> node_id bc = nid \<and> validator_cfg bc = cfg \<and> node_signing_key bc = Some new_key
    \<and> pending_collections bc = [] \<and> pending_accounts_with_keys bc = []"
proof -
  from assms(1) have ok: "rocks_ok rdb healthy" "healthy db" by (auto dest: durable_laws)
  note get = rocks_get [OF ok]
  have holds: "store_holds rdb healthy bin db bs" and ne: "bs \<noteq> []"
    and meta: "contents rdb db schema_key = Some (as_bytes SCHEMA_VERSION)"
    and cps: "\<And>i v. contents rdb db (checkpoint_key i) = Some v \<Longrightarrow>
      unat i < length bs \<and> (\<exists>s. v = as_bytes s \<and> utf8_valid (as_bytes s))"
    using assms(1) by (auto simp: durable_def)
  obtain nid' where "contents rdb db node_id_key = Some (as_bytes nid')" "utf8_valid (as_bytes nid')"
    using assms(1) by (auto simp: durable_def)
  then have "load_metadata rdb db = Inr (nid', SCHEMA_VERSION)"
    by (simp add: load_metadata_def load_text_def get meta schema_text from_utf8_as_bytes)
  moreover have "store_is_empty rdb db = Inr False"
    using holds ne by (simp add: store_is_empty_def get store_holds_def chain_held_def)
  moreover obtain hs where "load_checkpoints rdb db = Some (Inr hs)"
    using scan_checkpoints_ends [OF get cps assms(2), of 100 "[]"] ne by (auto simp: load_checkpoints_def)
  ultimately show ?thesis by (simp add: load_blockchain_def load_chain_held [OF holds])
qed

lemma durable_save:
  assumes "durable rdb healthy bin bs db" and "total_codec bin" and "unat (b_index b) = length bs"
    and "Suc (length bs) < 2 ^ 64"
  shows "durable rdb healthy bin (bs @ [b]) (snd (save_block rdb bin b db))"
proof -
  from assms(1) have ok: "rocks_ok rdb healthy" "healthy db" by (auto dest: durable_laws)
  obtain v where v: "enc bin b = Inr v" using total_codecD [OF assms(2)] by blast
  obtain db1 where save: "save_block rdb bin b db = (Inr (), db1)" and h: "healthy db1"
    and m: "contents rdb db1 = (contents rdb db)(block_key (b_index b) \<mapsto> v,
      chain_length_key \<mapsto> u64_to_le_bytes (b_index b + 1))"
    by (rule save_block_ok [OF ok v])
  have "chain_held bin (contents rdb db1) (bs @ [b])"
    unfolding m using assms(1) by (intro chain_held_append v assms) (simp add: durable_def store_holds_def)
  moreover have "unat i < length (bs @ [b]) \<and> (\<exists>s. w = as_bytes s \<and> utf8_valid (as_bytes s))"
    if "contents rdb db1 (checkpoint_key i) = Some w" for i w
    using that assms(1) by (fastforce simp: durable_def m)
  moreover have "contents rdb db1 schema_key = Some (as_bytes SCHEMA_VERSION)"
    "\<exists>s. contents rdb db1 node_id_key = Some (as_bytes s) \<and> utf8_valid (as_bytes s)"
    using assms(1) by (auto simp: durable_def m)
  ultimately show ?thesis
    using assms(1) h unfolding save by (simp add: durable_def store_holds_def)
qed

lemma durable_persist:
  assumes "durable rdb healthy bin bs db" and "total_codec bin" and "unat (b_index b) = length bs"
    and "Suc (length bs) < 2 ^ 64" and "utf8_valid (as_bytes (b_hash b))"
  shows "durable rdb healthy bin (bs @ [b]) (persist_block rdb bin b db)"
proof -
  let ?db = "snd (save_block rdb bin b db)"
  have d: "durable rdb healthy bin (bs @ [b]) ?db" by (rule durable_save [OF assms(1-4)])
  then have ok: "rocks_ok rdb healthy" "healthy ?db" by (auto dest: durable_laws)
  obtain db2 where put: "db_put rdb ?db (checkpoint_key (b_index b)) (as_bytes (b_hash b)) = (Inr (), db2)"
    and "healthy db2" and m: "contents rdb db2 = (contents rdb ?db)(checkpoint_key (b_index b) \<mapsto> as_bytes (b_hash b))"
    by (rule rocks_put [OF ok])
  with d have "durable rdb healthy bin (bs @ [b]) db2"
    unfolding durable_def store_holds_def chain_held_def using assms(3,5) by (auto split: if_splits)
  with d put show ?thesis by (simp add: persist_block_def save_checkpoint_def db_call_def Let_def)
qed

end
