(* ===== verification/Goud_Auth.thy ===== *)
theory Goud_Auth
  imports Goud_Collection Goud_Config Goud_Demo
begin

text \<open>
  Authentication (\<open>src/api/auth.rs\<close>): session tokens that carry the API key under the session secret,
  the \<open>Authorization\<close> header, and the comparison of key hashes. Signing and checking a JSON Web Token
  is an argument (jsonwebtoken), as is the lookup of a header (http).
\<close>

section \<open>Operations\<close>

record claims =
  cl_sub :: string
  cl_api_key_hash :: string
  cl_encrypted_api_key :: string
  cl_exp :: i64
  cl_iat :: i64

text \<open>Decoding checks the signature and compares the expiry with the clock.\<close>

record jwt_lib =
  jwt_encode :: "bytes \<Rightarrow> claims \<Rightarrow> string + string"
  jwt_decode :: "bytes \<Rightarrow> i64 \<Rightarrow> string \<Rightarrow> string + claims"

text \<open>A header that is present is text or not.\<close>

type_synonym header_map = "string \<Rightarrow> (unit + string) option"

definition encrypt_api_key_for_jwt :: "'z crypto_env_scheme \<Rightarrow> bytes \<Rightarrow> bytes \<Rightarrow> config \<Rightarrow> string res" where
  "encrypt_api_key_for_jwt env nonce_bytes api_key cfg =
     (let key_bytes = derive_session_encryption_key env (cfg_session_secret cfg)
      in bindE (map_err (\<lambda>e. Fail (Internal (''Failed to encrypt API key: '' @ e)))
                  (aes_encrypt env key_bytes nonce_bytes api_key)) (\<lambda>ciphertext.
         Inr (b64_encode env (nonce_bytes @ ciphertext))))"

definition decrypt_api_key_from_jwt :: "'z crypto_env_scheme \<Rightarrow> string \<Rightarrow> config \<Rightarrow> bytes res" where
  "decrypt_api_key_from_jwt env encrypted_api_key cfg =
     (let key_bytes = derive_session_encryption_key env (cfg_session_secret cfg)
      in bindE (map_err (\<lambda>_. Fail AuthenticationFailed) (b64_decode env encrypted_api_key)) (\<lambda>combined.
         if length combined < NONCE_SIZE_BYTES then Err AuthenticationFailed
         else map_err (\<lambda>_. Fail AuthenticationFailed)
                (aes_decrypt env key_bytes (take NONCE_SIZE_BYTES combined) (drop NONCE_SIZE_BYTES combined))))"

definition generate_session_token ::
  "'z crypto_env_scheme \<Rightarrow> jwt_lib \<Rightarrow> bytes \<Rightarrow> i64 \<Rightarrow> string \<Rightarrow> bytes \<Rightarrow> string \<Rightarrow> config \<Rightarrow> string res" where
  "generate_session_token env jwt nonce now aid api_key api_key_hash cfg =
     bindE (encrypt_api_key_for_jwt env nonce api_key cfg) (\<lambda>encrypted_api_key.
     map_err (\<lambda>e. Fail (Internal (''JWT encoding failed: '' @ e)))
       (jwt_encode jwt (cfg_jwt_secret cfg)
          \<lparr>cl_sub = aid, cl_api_key_hash = api_key_hash, cl_encrypted_api_key = encrypted_api_key,
           cl_exp = now + SESSION_EXPIRY_SECONDS, cl_iat = now\<rparr>))"

definition verify_session_token :: "jwt_lib \<Rightarrow> i64 \<Rightarrow> string \<Rightarrow> config \<Rightarrow> claims res" where
  "verify_session_token jwt now token cfg =
     map_err (\<lambda>e. Fail (Unauthorized (''Invalid token: '' @ e)))
       (jwt_decode jwt (cfg_jwt_secret cfg) now token)"

datatype auth_method = ApiKeyAuth bytes | SessionToken claims

definition strip_prefix :: "string \<Rightarrow> string \<Rightarrow> string option" where
  "strip_prefix p s = (if take (length p) s = p then Some (drop (length p) s) else None)"

definition extract_auth_from_headers ::
  "'z crypto_env_scheme \<Rightarrow> jwt_lib \<Rightarrow> i64 \<Rightarrow> header_map \<Rightarrow> config \<Rightarrow> auth_method res" where
  "extract_auth_from_headers env jwt now headers cfg =
     (case headers ''authorization'' of
        None \<Rightarrow> Err (Unauthorized ''Missing Authorization header'')
      | Some (Inl _) \<Rightarrow> Err (Unauthorized ''Invalid Authorization header encoding'')
      | Some (Inr auth_value) \<Rightarrow>
          (case strip_prefix ''Bearer '' auth_value of
             None \<Rightarrow> Err (Unauthorized ''Invalid Authorization header format. Expected: Bearer <token>'')
           | Some token \<Rightarrow>
               (case verify_session_token jwt now token cfg of
                  Inr claims \<Rightarrow> Inr (SessionToken claims)
                | Inl _ \<Rightarrow>
                    bindE (map_err (\<lambda>_. Fail (Unauthorized ''Invalid API key format'')) (decode_api_key env token))
                      (\<lambda>api_key.
                    if \<not> validate_api_key api_key then Err (Unauthorized ''Invalid API key length'')
                    else Inr (ApiKeyAuth api_key)))))"

definition verify_api_key_hash_precomputed ::
  "'z crypto_env_scheme \<Rightarrow> string option \<Rightarrow> bytes \<Rightarrow> string \<Rightarrow> unit res" where
  "verify_api_key_hash_precomputed env computed_hash_hex api_key expected_hash_hex =
     (let computed_hash_hex = (case computed_hash_hex of
            Some hash \<Rightarrow> hash | None \<Rightarrow> hex_encode env (hash_api_key env api_key))
      in bindE (map_err (\<lambda>_. Fail (Internal ''Invalid computed hash format''))
                  (hex_decode env computed_hash_hex)) (\<lambda>computed_hash.
         bindE (map_err (\<lambda>_. Fail (Unauthorized ''Invalid hash format''))
                  (hex_decode env expected_hash_hex)) (\<lambda>expected_hash.
         if \<not> constant_time_compare_bytes env computed_hash expected_hash
         then Err (Unauthorized ''API key does not match'')
         else Inr ())))"

section \<open>Lemmas\<close>

text \<open>The documented behaviour of the token library with its default validation: a token it signed
  decodes to its claims under the same secret until the expiry, and no longer once the leeway of a
  minute has passed.\<close>

definition jwt_ok :: "jwt_lib \<Rightarrow> bool" where
  "jwt_ok jwt \<longleftrightarrow> (\<forall>secret c token. jwt_encode jwt secret c = Inr token \<longrightarrow>
     (\<forall>now. now \<le> cl_exp c \<longrightarrow> jwt_decode jwt secret now token = Inr c)
     \<and> (\<forall>now. cl_exp c + 60 < now \<longrightarrow> \<not> is_ok (jwt_decode jwt secret now token)))"

lemma decrypt_encrypt_api_key:
  assumes "b64_ok env" and "aead_ok env" and "length nonce = 12"
    and "encrypt_api_key_for_jwt env nonce api_key cfg = Inr s"
  shows "decrypt_api_key_from_jwt env s cfg = Inr api_key"
proof -
  from assms(4) obtain c where
    c: "aes_encrypt env (derive_session_encryption_key env (cfg_session_secret cfg)) nonce api_key = Inr c"
    and s: "s = b64_encode env (nonce @ c)"
    by (auto simp: encrypt_api_key_for_jwt_def Let_def res_iff)
  show ?thesis
    using assms(1,3) aead_okD [OF assms(2) c] by (simp add: decrypt_api_key_from_jwt_def s Let_def)
qed

lemma generate_session_token_cases:
  assumes "generate_session_token env jwt nonce now aid api_key h cfg = Inr token"
  obtains s where "encrypt_api_key_for_jwt env nonce api_key cfg = Inr s"
    and "jwt_encode jwt (cfg_jwt_secret cfg)
          \<lparr>cl_sub = aid, cl_api_key_hash = h, cl_encrypted_api_key = s, cl_exp = now + 3600, cl_iat = now\<rparr> = Inr token"
  using assms by (auto simp: generate_session_token_def res_iff)

lemma bearer [simp]: "strip_prefix ''Bearer '' (''Bearer '' @ token) = Some token"
  by (simp add: strip_prefix_def)

text \<open>Session tokens stand for the API key. A token generated for an API key, sent as a bearer token
  before it expires, authenticates as the session of that account, and the key that handlers
  take out of it is the one it was generated for; an hour and a minute after its generation it no
  longer authenticates a session.\<close>

theorem session_token_roundtrip:
  assumes "b64_ok env" and "aead_ok env" and "jwt_ok jwt" and "length nonce = 12"
    and "generate_session_token env jwt nonce now aid api_key h cfg = Inr token"
    and "headers ''authorization'' = Some (Inr (''Bearer '' @ token))"
  shows "(now' \<le> now + 3600 \<longrightarrow>
           (\<exists>c. extract_auth_from_headers env jwt now' headers cfg = Inr (SessionToken c)
              \<and> cl_sub c = aid \<and> cl_api_key_hash c = h
              \<and> decrypt_api_key_from_jwt env (cl_encrypted_api_key c) cfg = Inr api_key))
       \<and> (now + 3660 < now' \<longrightarrow> (\<forall>c. extract_auth_from_headers env jwt now' headers cfg \<noteq> Inr (SessionToken c)))"
proof -
  from assms(5) obtain s where s: "encrypt_api_key_for_jwt env nonce api_key cfg = Inr s"
    and jwt: "jwt_encode jwt (cfg_jwt_secret cfg)
          \<lparr>cl_sub = aid, cl_api_key_hash = h, cl_encrypted_api_key = s, cl_exp = now + 3600, cl_iat = now\<rparr> = Inr token"
    by (rule generate_session_token_cases)
  let ?c = "\<lparr>cl_sub = aid, cl_api_key_hash = h, cl_encrypted_api_key = s, cl_exp = now + 3600, cl_iat = now\<rparr>"
  have decode: "now' \<le> now + 3600 \<Longrightarrow> jwt_decode jwt (cfg_jwt_secret cfg) now' token = Inr ?c"
    "now + 3660 < now' \<Longrightarrow> \<not> is_ok (jwt_decode jwt (cfg_jwt_secret cfg) now' token)"
    using assms(3) jwt unfolding jwt_ok_def by force+
  have "extract_auth_from_headers env jwt now' headers cfg = Inr (SessionToken ?c)" if "now' \<le> now + 3600"
    using decode(1) [OF that] unfolding extract_auth_from_headers_def assms(6)
    by (simp add: verify_session_token_def del: append.simps)
  moreover have "extract_auth_from_headers env jwt now' headers cfg \<noteq> Inr (SessionToken c)"
    if "now + 3660 < now'" for c
  proof -
    from decode(2) [OF that] obtain e where "jwt_decode jwt (cfg_jwt_secret cfg) now' token = Inl e"
      by (cases "jwt_decode jwt (cfg_jwt_secret cfg) now' token") auto
    then show ?thesis unfolding extract_auth_from_headers_def assms(6)
      by (auto simp: verify_session_token_def res_iff simp del: append.simps)
  qed
  ultimately show ?thesis
    using decrypt_encrypt_api_key [OF assms(1,2,4) s] by auto
qed

lemma hash_comparison:
  assumes "hex_ok env" and "ct_ok env"
  shows "verify_api_key_hash_precomputed env (Some (hash_api_key_hex env k)) k h = Inr u \<longleftrightarrow>
    hex_decode env h = Inr (hash_api_key env k)"
  using assms
  by (cases "hex_decode env h")
    (auto simp: verify_api_key_hash_precomputed_def hash_api_key_hex_def constant_time_compare_bytes_def
      Let_def res_iff split: if_splits)


text \<open>A token library that signs one set of claims.\<close>

definition demo_jwt :: "claims \<Rightarrow> jwt_lib" where
  "demo_jwt c0 = \<lparr>jwt_encode = (\<lambda>secret c. if c = c0 then Inr ''t'' else Inl ''unknown''),
     jwt_decode = (\<lambda>secret now t. if t = ''t'' \<and> now \<le> cl_exp c0 then Inr c0 else Inl ''invalid'')\<rparr>"

lemma demo_jwt_ok: "jwt_ok (demo_jwt c0)"
  by (simp add: jwt_ok_def demo_jwt_def)

definition demo_cfg :: config where
  "demo_cfg = \<lparr>cfg_node_id = ''n'', cfg_http_port = ''8080'', cfg_p2p_port = 9000, cfg_peers = [],
     cfg_jwt_secret = [1], cfg_session_secret = [2],
     cfg_validator_config = \<lparr>validators = [''V''], node_to_validator = [''n'' \<mapsto> ''V''],
       validator_to_address = [''V'' \<mapsto> ''n:8080'']\<rparr>\<rparr>"

theorem session_token_roundtrip_witness:
  "\<exists>s. let c = \<lparr>cl_sub = ''a'', cl_api_key_hash = ''h'', cl_encrypted_api_key = s, cl_exp = 3700, cl_iat = 100\<rparr>;
          headers = (\<lambda>name. if name = ''authorization'' then Some (Inr ''Bearer t'') else None)
     in generate_session_token demo_env (demo_jwt c) (replicate 12 1) 100 ''a'' [9] ''h'' demo_cfg = Inr ''t''
      \<and> extract_auth_from_headers demo_env (demo_jwt c) 200 headers demo_cfg = Inr (SessionToken c)
      \<and> decrypt_api_key_from_jwt demo_env s demo_cfg = Inr [9]
      \<and> (\<forall>c'. extract_auth_from_headers demo_env (demo_jwt c) 4000 headers demo_cfg \<noteq> Inr (SessionToken c'))"
proof -
  have "\<exists>s. encrypt_api_key_for_jwt demo_env (replicate 12 1) [9] demo_cfg = Inr s"
    by (simp add: encrypt_api_key_for_jwt_def Let_def)
  then obtain s where s: "encrypt_api_key_for_jwt demo_env (replicate 12 1) [9] demo_cfg = Inr s" by blast
  let ?c = "\<lparr>cl_sub = ''a'', cl_api_key_hash = ''h'', cl_encrypted_api_key = s, cl_exp = 3700, cl_iat = 100\<rparr>"
  let ?headers = "\<lambda>name. if name = ''authorization'' then Some (Inr ''Bearer t'') else None"
  have token: "generate_session_token demo_env (demo_jwt ?c) (replicate 12 1) 100 ''a'' [9] ''h'' demo_cfg = Inr ''t''"
    by (simp add: generate_session_token_def s demo_jwt_def)
  have auth: "?headers ''authorization'' = Some (Inr (''Bearer '' @ ''t''))" by simp
  note trip = session_token_roundtrip [where headers = ?headers, OF demo_env_ok(2,3) demo_jwt_ok _ token auth]
  from trip [of 200] obtain c where
    c: "extract_auth_from_headers demo_env (demo_jwt ?c) 200 ?headers demo_cfg = Inr (SessionToken c)"
    and d: "decrypt_api_key_from_jwt demo_env (cl_encrypted_api_key c) demo_cfg = Inr [9]" by auto
  have "extract_auth_from_headers demo_env (demo_jwt ?c) 200 ?headers demo_cfg = Inr (SessionToken ?c)"
    by (simp add: extract_auth_from_headers_def strip_prefix_def verify_session_token_def demo_jwt_def)
  with c d have "decrypt_api_key_from_jwt demo_env s demo_cfg = Inr [9]" by auto
  moreover have "\<forall>c'. extract_auth_from_headers demo_env (demo_jwt ?c) 4000 ?headers demo_cfg \<noteq> Inr (SessionToken c')"
    using trip [of 4000] by simp
  ultimately show ?thesis
    unfolding Let_def using token
      \<open>extract_auth_from_headers demo_env (demo_jwt ?c) 200 ?headers demo_cfg = Inr (SessionToken ?c)\<close>
    by (intro exI [of _ s] conjI)
qed

end
