(* ===== verification/Goud_Validation.thy ===== *)
theory Goud_Validation
  imports Goud_Env Goud_Demo
begin

text \<open>
  Validation of submitted data (\<open>src/types/validation.rs\<close> and \<open>SubmitDataRequest::validate\<close> of
  \<open>src/api/schemas.rs\<close>): the characters of a label, the nesting of a JSON document, and the size limits.
  Parsing JSON is the \<open>dec\<close> of the codec that is passed in.
\<close>

section \<open>Labels\<close>

definition MAX_JSON_DEPTH :: nat where [simp]: "MAX_JSON_DEPTH = 10"
definition MAX_COLLECTION_SIZE_BYTES :: nat where [simp]: "MAX_COLLECTION_SIZE_BYTES = 10000000"
definition MAX_LABEL_LENGTH :: nat where [simp]: "MAX_LABEL_LENGTH = 100"

text \<open>The character class of \<open>LABEL_REGEX\<close>. All its members are ASCII, so a label matches
  \<open>^[...]+$\<close> when its bytes are in the class and there is at least one.\<close>

definition label_char :: "char \<Rightarrow> bool" where
  "label_char c \<longleftrightarrow>
     (let n = of_char c :: nat
      in (97 \<le> n \<and> n \<le> 122) \<or> (65 \<le> n \<and> n \<le> 90) \<or> (48 \<le> n \<and> n \<le> 57) \<or> c \<in> set '' -_.,!?()'')"

definition LABEL_VALIDATOR :: "string \<Rightarrow> bool" where
  "LABEL_VALIDATOR s \<longleftrightarrow> s \<noteq> [] \<and> list_all label_char s"

definition validate_label :: "string \<Rightarrow> unit res" where
  "validate_label label =
     (if label = [] then Err (InvalidLabel ''Label cannot be empty'')
      else if \<not> LABEL_VALIDATOR label
        then Err (InvalidLabel ''Label contains invalid characters (only alphanumeric, spaces, and -.!?() allowed)'')
      else Inr ())"

section \<open>JSON depth\<close>

lemma check_all_cong [fundef_cong]:
  assumes "xs = ys" and "\<And>x. x \<in> set ys \<Longrightarrow> f x = g x"
  shows "check_all f xs = check_all g ys"
  using assms(2) unfolding assms(1) by (induction ys) auto

lemma size_json_array: "v \<in> set vs \<Longrightarrow> size v < size (JArray vs)"
  using size_list_estimation' [of v vs "size v" size] by simp

lemma size_json_object: "(k, v) \<in> set kvs \<Longrightarrow> size v < size (JObject kvs)"
proof -
  assume "(k, v) \<in> set kvs"
  then have "size_prod (\<lambda>_. 0) size (k, v) \<le> size_list (size_prod (\<lambda>_. 0) size) kvs"
    by (rule size_list_estimation') simp
  then show ?thesis by simp
qed

function check_json_depth :: "json \<Rightarrow> nat \<Rightarrow> unit res" where
  "check_json_depth value current_depth =
     (if current_depth > MAX_JSON_DEPTH then Err (JsonTooDeep MAX_JSON_DEPTH)
      else case value of
             JObject kvs \<Rightarrow> check_all (\<lambda>(_, v). check_json_depth v (current_depth + 1)) kvs
           | JArray vs \<Rightarrow> check_all (\<lambda>v. check_json_depth v (current_depth + 1)) vs
           | _ \<Rightarrow> Inr ())"
  by pat_completeness auto
termination
  by (relation "measure (\<lambda>(v, d). size v)") (auto simp: size_json_array size_json_object simp del: json.size)

declare check_json_depth.simps [simp del]

definition validate_json_structure :: "(json, string) codec \<Rightarrow> string \<Rightarrow> unit res" where
  "validate_json_structure js data =
     bindE (map_err (\<lambda>e. Fail (InvalidJson (''Failed to parse JSON: '' @ e))) (dec js data)) (\<lambda>parsed.
     bindE (check_json_depth parsed 0) (\<lambda>_. Inr ()))"

section \<open>Requests\<close>

record submit_data_request =
  sr_label :: string
  sr_data :: string

definition validate_request :: "(json, string) codec \<Rightarrow> submit_data_request \<Rightarrow> unit res" where
  "validate_request js r =
     bindE (validate_label (sr_label r)) (\<lambda>_.
     if length (sr_label r) > MAX_LABEL_LENGTH
     then Err (PayloadTooLarge (length (sr_label r)) MAX_LABEL_LENGTH)
     else
       bindE (validate_json_structure js (sr_data r)) (\<lambda>_.
       if length (sr_data r) > MAX_COLLECTION_SIZE_BYTES
       then Err (PayloadTooLarge (length (sr_data r)) MAX_COLLECTION_SIZE_BYTES)
       else Inr ()))"

section \<open>What is accepted\<close>

text \<open>The number of levels below a value.\<close>

function json_levels :: "json \<Rightarrow> nat" where
  "json_levels value =
     (case value of
        JObject kvs \<Rightarrow> fold max (map (\<lambda>(_, v). json_levels v + 1) kvs) 0
      | JArray vs \<Rightarrow> fold max (map (\<lambda>v. json_levels v + 1) vs) 0
      | _ \<Rightarrow> 0)"
  by pat_completeness auto
termination
  by (relation "measure size") (auto simp: size_json_array size_json_object simp del: json.size)

declare json_levels.simps [simp del]

lemma fold_max_le: "fold max ns m \<le> (b :: nat) \<longleftrightarrow> m \<le> b \<and> (\<forall>n\<in>set ns. n \<le> b)"
  by (induction ns arbitrary: m) auto

lemma check_json_depth_iff:
  "check_json_depth v d = Inr u \<longleftrightarrow> d + json_levels v \<le> 10"
proof (induction v d rule: check_json_depth.induct)
  case (1 v d)
  show ?case
  proof (cases "d > 10")
    case True
    then show ?thesis by (simp add: check_json_depth.simps [of v d])
  next
    case False
    then have d: "\<not> d > MAX_JSON_DEPTH" by simp
    show ?thesis
    proof (cases v)
      case (JObject kvs)
      have "check_json_depth v d = Inr u \<longleftrightarrow> (\<forall>(k, x)\<in>set kvs. check_json_depth x (d + 1) = Inr ())"
        using False unfolding JObject check_json_depth.simps [of "JObject kvs" d] by (auto simp: check_all_Inr_iff)
      also have "\<dots> \<longleftrightarrow> (\<forall>(k, x)\<in>set kvs. d + 1 + json_levels x \<le> 10)"
        using 1(2) [OF d JObject _ refl] by fastforce
      also have "\<dots> \<longleftrightarrow> d + json_levels v \<le> 10"
        using False fold_max_le [of "map (\<lambda>(_, v). json_levels v + 1) kvs" 0 "10 - d"]
        unfolding JObject json_levels.simps [of "JObject kvs"] by auto
      finally show ?thesis .
    next
      case (JArray vs)
      have "check_json_depth v d = Inr u \<longleftrightarrow> (\<forall>x\<in>set vs. check_json_depth x (d + 1) = Inr ())"
        using False unfolding JArray check_json_depth.simps [of "JArray vs" d] by (auto simp: check_all_Inr_iff)
      also have "\<dots> \<longleftrightarrow> (\<forall>x\<in>set vs. d + 1 + json_levels x \<le> 10)"
        using 1(1) [OF d JArray] by simp
      also have "\<dots> \<longleftrightarrow> d + json_levels v \<le> 10"
        using False fold_max_le [of "map (\<lambda>v. json_levels v + 1) vs" 0 "10 - d"]
        unfolding JArray json_levels.simps [of "JArray vs"] by auto
      finally show ?thesis .
    qed (use False in \<open>simp_all add: check_json_depth.simps [where current_depth = d] json_levels.simps\<close>)
  qed
qed

text \<open>C17. Validation accepts exactly the admissible submissions: a label of one to a hundred bytes from
  the allowed characters, and data of at most ten million bytes that parses as JSON nested at most ten
  levels deep.\<close>

theorem validate_request_exact:
  "validate_request js r = Inr () \<longleftrightarrow>
     0 < length (sr_label r) \<and> length (sr_label r) \<le> 100 \<and> list_all label_char (sr_label r)
     \<and> length (sr_data r) \<le> 10000000
     \<and> (\<exists>v. dec js (sr_data r) = Inr v \<and> json_levels v \<le> 10)"
  by (auto simp: validate_request_def validate_label_def LABEL_VALIDATOR_def validate_json_structure_def
      check_json_depth_iff res_iff)

end
