(* ===== verification/Goud_Client.thy ===== *)
theory Goud_Client
  imports Goud_P2P
begin

text \<open>
  Forwarding of requests to the scheduled validator (\<open>src/api/internal_client.rs\<close>): connecting with
  retries and exponential backoff, the text of the HTTP request, and the parsing of the response.
  The sockets are an argument.
\<close>

section \<open>HTTP text\<close>

definition CRLF :: string where "CRLF = [CHR 0x0D, CHR 0x0A]"

definition http_request ::
  "string \<Rightarrow> string \<Rightarrow> string \<Rightarrow> string \<Rightarrow> string \<Rightarrow> string option \<Rightarrow> string option \<Rightarrow> string" where
  "http_request meth path body content_type target_addr auth_header signature_header =
     meth @ '' '' @ path @ '' HTTP/1.1'' @ CRLF
     @ ''Host: '' @ hd (split_on CHR '':'' target_addr) @ CRLF
     @ ''Content-Type: '' @ content_type @ CRLF
     @ ''Content-Length: '' @ show_nat (length body) @ CRLF
     @ (case auth_header of Some h \<Rightarrow> ''Authorization: '' @ h @ CRLF | None \<Rightarrow> [])
     @ (case signature_header of Some h \<Rightarrow> ''X-Signature: '' @ h @ CRLF | None \<Rightarrow> [])
     @ ''Connection: close'' @ CRLF @ CRLF @ body"

text \<open>\<open>splitn(2, pat)\<close>: the text before the first occurrence of the pattern, and the text after it.\<close>

fun split_at :: "string \<Rightarrow> string \<Rightarrow> string \<times> string option" where
  "split_at pat [] = ([], if pat = [] then Some [] else None)"
| "split_at pat (c # s) =
     (if take (length pat) (c # s) = pat then ([], Some (drop (length pat) (c # s)))
      else (let (before, after) = split_at pat s in (c # before, after)))"

text \<open>\<open>lines().next()\<close>: the first line without its line end, if there is any text.\<close>

definition first_line :: "string \<Rightarrow> string option" where
  "first_line s =
     (if s = [] then None
      else let l = takeWhile (\<lambda>c. c \<noteq> CHR 0x0A) s
           in Some (if length l < length s \<and> l \<noteq> [] \<and> last l = CHR 0x0D then butlast l else l))"

text \<open>\<open>split_whitespace\<close>: the maximal pieces without whitespace.\<close>

function split_ws :: "string \<Rightarrow> string \<Rightarrow> string list" where
  "split_ws piece s =
     (case s of
        [] \<Rightarrow> if piece = [] then [] else [piece]
      | c # r \<Rightarrow>
          if lead whitespace s = 0 then split_ws (piece @ [c]) r
          else (if piece = [] then [] else [piece]) @ split_ws [] (drop (lead whitespace s) s))"
  by pat_completeness auto
termination
  by (relation "measure (\<lambda>(p, s). length s)") auto

declare split_ws.simps [simp del]

definition split_whitespace :: "string \<Rightarrow> string list" where
  "split_whitespace s = split_ws [] s"

text \<open>\<open>parse::<u16>\<close> with the message of its error: digits are read from the left, and the first
  one that is no digit or makes the number too large decides.\<close>

fun parse_digits :: "nat \<Rightarrow> nat \<Rightarrow> string \<Rightarrow> string + nat" where
  "parse_digits max' n [] = Inr n"
| "parse_digits max' n (c # s) =
     (if \<not> is_ascii_digit c then Inl ''invalid digit found in string''
      else if 10 * n + digit_val c > max' then Inl ''number too large to fit in target type''
      else parse_digits max' (10 * n + digit_val c) s)"

definition parse_u16 :: "string \<Rightarrow> string + nat" where
  "parse_u16 s =
     (if s = [] then Inl ''cannot parse integer from empty string''
      else if s = ''+'' \<or> s = ''-'' then Inl ''invalid digit found in string''
      else parse_digits 65535 0 (if hd s = CHR ''+'' then tl s else s))"

definition parse_http_response :: "string \<Rightarrow> (nat \<times> string) res" where
  "parse_http_response response =
     (let (headers, rest) = split_at (CRLF @ CRLF) response;
          body = (case rest of Some b \<Rightarrow> b | None \<Rightarrow> [])
      in case first_line headers of
           None \<Rightarrow> Err (Internal ''Invalid HTTP response: no status line'')
         | Some status_line \<Rightarrow>
             let status_parts = split_whitespace status_line
             in if length status_parts < 2 then Err (Internal (''Invalid HTTP status line: '' @ status_line))
                else bindE (map_err (\<lambda>e. Fail (Internal (''Invalid status code: '' @ e)))
                              (parse_u16 (status_parts ! 1))) (\<lambda>status_code.
                     Inr (status_code, body)))"

section \<open>Connections\<close>

text \<open>A failed connection attempt: would block or refused, or any other kind of error. Every attempt is
  answered here. In the code connecting has no timeout of its own (writing and reading have), so an attempt lasts as
  long as the operating system lets it.\<close>

datatype connect_error = Transient string | Fatal string

record http_net =
  hn_connect :: "nat \<Rightarrow> string \<Rightarrow> connect_error option"
  hn_write :: "string \<Rightarrow> string \<Rightarrow> unit timed"
  hn_read :: "string \<Rightarrow> string \<Rightarrow> string timed"

definition perform_http_request ::
  "http_net \<Rightarrow> string \<Rightarrow> string \<Rightarrow> string \<Rightarrow> string \<Rightarrow> string \<Rightarrow> string option \<Rightarrow> string option
     \<Rightarrow> (nat \<times> string) res" where
  "perform_http_request net meth path body content_type target_addr auth_header signature_header =
     (let request = http_request meth path body content_type target_addr auth_header signature_header
      in case hn_write net target_addr request of
           TimedOut \<Rightarrow> Err (Internal ''Write timeout'')
         | Failed e \<Rightarrow> Err (IoError e)
         | Completed _ \<Rightarrow>
             (case hn_read net target_addr request of
                TimedOut \<Rightarrow> Err (Internal ''Read timeout'')
              | Failed e \<Rightarrow> Err (IoError e)
              | Completed response \<Rightarrow> parse_http_response response))"

definition backoff_ms :: "nat \<Rightarrow> u64" where
  "backoff_ms attempt = min (HTTP_INITIAL_BACKOFF_MS * 2 ^ (attempt - 1)) HTTP_MAX_BACKOFF_MS"

text \<open>The attempts to connect, with the waiting times before them. Without any attempt the unwrap of the
  last error would panic.\<close>

fun connect_retries ::
  "http_net \<Rightarrow> string \<Rightarrow> nat list \<Rightarrow> string option \<Rightarrow> unit res \<times> u64 list" where
  "connect_retries net addr [] last_error =
     (case last_error of
        Some e \<Rightarrow> (Err (PeerConnectionFailed (''Failed to connect to '' @ addr @ '' after ''
                    @ show_nat HTTP_MAX_RETRIES @ '' retries: '' @ e)), [])
      | None \<Rightarrow> (panic, []))"
| "connect_retries net addr (attempt # attempts) last_error =
     (let wait = (if attempt > 0 then [backoff_ms attempt] else [])
      in case hn_connect net attempt addr of
           None \<Rightarrow> (Inr (), wait)
         | Some (Fatal e) \<Rightarrow> (Err (PeerConnectionFailed (''Failed to connect to '' @ addr @ '': '' @ e)), wait)
         | Some (Transient e) \<Rightarrow>
             (let (r, waits) = connect_retries net addr attempts (Some e) in (r, wait @ waits)))"

function trim_start_matches :: "string \<Rightarrow> string \<Rightarrow> string" where
  "trim_start_matches p s =
     (if p \<noteq> [] \<and> take (length p) s = p \<and> s \<noteq> [] then trim_start_matches p (drop (length p) s) else s)"
  by pat_completeness auto
termination
  by (relation "measure (\<lambda>(p, s). length s)") auto

declare trim_start_matches.simps [simp del]

definition forward_request_with_headers ::
  "http_net \<Rightarrow> string \<Rightarrow> string \<Rightarrow> string \<Rightarrow> string \<Rightarrow> string \<Rightarrow> string option \<Rightarrow> string option
     \<Rightarrow> (nat \<times> string) res" where
  "forward_request_with_headers net target_node meth path body content_type auth_header signature_header =
     (let target_addr = trim_start_matches ''http://'' target_node
      in bindE (fst (connect_retries net target_addr [0..<HTTP_MAX_RETRIES] None)) (\<lambda>_.
         perform_http_request net meth path body content_type target_addr auth_header signature_header))"

definition forward_request_to_node ::
  "http_net \<Rightarrow> string \<Rightarrow> string \<Rightarrow> string \<Rightarrow> string \<Rightarrow> string \<Rightarrow> (nat \<times> string) res" where
  "forward_request_to_node net target_node meth path body content_type =
     forward_request_with_headers net target_node meth path body content_type None None"

section \<open>Lemmas\<close>

lemma split_at_found:
  assumes "split_at pat s = (b, Some a)" and "pat \<noteq> []"
  shows "s = b @ pat @ a"
  using assms
proof (induction s arbitrary: b)
  case (Cons c s)
  show ?case
  proof (cases "take (length pat) (c # s) = pat")
    case True
    with Cons.prems(1) have "b = []" "a = drop (length pat) (c # s)" by simp_all
    then show ?thesis using True append_take_drop_id [of "length pat" "c # s"] by simp
  next
    case False
    then obtain b' where "split_at pat s = (b', Some a)" "b = c # b'"
      using Cons.prems(1) by (auto simp del: take_Suc_Cons drop_Suc_Cons split: prod.splits)
    with Cons.IH Cons.prems(2) show ?thesis by simp
  qed
qed simp

text \<open>Forwarding never panics: at least one attempt is made.\<close>

lemma connect_retries_no_panic:
  "attempts \<noteq> [] \<or> last_error \<noteq> None \<Longrightarrow> fst (connect_retries net addr attempts last_error) \<noteq> panic"
proof (induction attempts arbitrary: last_error)
  case (Cons a attempts)
  have "fst (connect_retries net addr attempts (Some e)) \<noteq> panic" for e by (rule Cons.IH) simp
  then show ?case
    by (auto simp: Let_def split_def split: option.splits connect_error.splits)
qed auto

lemma connect_waits:
  "set (snd (connect_retries net addr attempts last_error)) \<subseteq> backoff_ms ` set attempts"
proof (induction attempts arbitrary: last_error)
  case (Cons a attempts)
  have "set (snd (connect_retries net addr attempts (Some e))) \<subseteq> backoff_ms ` set attempts" for e
    by (rule Cons.IH)
  then show ?case
    by (cases "hn_connect net a addr" rule: option.exhaust; cases "the (hn_connect net a addr)")
      (auto simp: Let_def split_def)
qed (simp split: option.splits)

lemma backoff_values: "backoff_ms (Suc 0) = 50" "backoff_ms 2 = 100"
  by (simp_all add: backoff_ms_def min_def)

lemma parse_digits_show: "n \<le> max' \<Longrightarrow> parse_digits max' 0 (show_nat n) = Inr n"
proof -
  have step: "parse_digits max' m (s @ [c]) = bindE (parse_digits max' m s) (\<lambda>k. parse_digits max' k [c])" for m s c
    by (induction s arbitrary: m) auto
  show "n \<le> max' \<Longrightarrow> parse_digits max' 0 (show_nat n) = Inr n"
  proof (induction n rule: show_nat.induct)
    case (1 n)
    show ?case
    proof (cases "n < 10")
      case True
      then show ?thesis using 1(2) by (simp add: show_nat.simps [of n])
    next
      case False
      then have "parse_digits max' 0 (show_nat (n div 10)) = Inr (n div 10)" using 1 by simp
      then show ?thesis
        using False 1(2) by (simp add: show_nat.simps [of n] step)
    qed
  qed
qed

section \<open>Forwarding ends and delivers\<close>

lemma parse_http_response_no_panic: "parse_http_response r \<noteq> panic"
  by (auto simp: parse_http_response_def Let_def split_def bindE_Inl_iff map_err_def split: option.splits sum.splits)

lemma perform_http_request_no_panic:
  "perform_http_request net meth path body content_type addr auth sig \<noteq> panic"
  using parse_http_response_no_panic
  by (auto simp: perform_http_request_def Let_def split: timed.splits)

text \<open>At most three attempts to connect are made, with pauses of 50 and 100 milliseconds between them, and the outcome is an
  answer or an error, never a panic; in particular the unwrap of the last connection error is safe. That each
  attempt comes to an end is part of the model of the network.\<close>

lemma forwarding_attempts:
  "(\<exists>rest. snd (connect_retries net addr [0..<HTTP_MAX_RETRIES] None) @ rest = [50, 100])
   \<and> forward_request_with_headers net target meth path body content_type auth sig \<noteq> panic"
proof
  have "[0..<HTTP_MAX_RETRIES] = [0, 1, 2]" by (simp add: upt_rec)
  then show "\<exists>rest. snd (connect_retries net addr [0..<HTTP_MAX_RETRIES] None) @ rest = [50, 100]"
    by (auto simp: Let_def split_def backoff_values split: option.splits connect_error.splits)
  have "fst (connect_retries net a [0..<HTTP_MAX_RETRIES] None) \<noteq> panic" for a
    by (rule connect_retries_no_panic) simp
  then show "forward_request_with_headers net target meth path body content_type auth sig \<noteq> panic"
    using perform_http_request_no_panic
    by (auto simp: forward_request_with_headers_def Let_def bindE_Inl_iff)
qed

text \<open>Characters that begin no whitespace.\<close>

definition plain :: "char \<Rightarrow> bool" where
  "plain c \<longleftrightarrow> c \<notin> set (map hd whitespace)"

lemma lead_plain: "plain c \<Longrightarrow> lead whitespace (c # s) = 0"
  by (simp add: plain_def lead_def whitespace_def)

lemma lead_space: "lead whitespace (CHR '' '' # s) = 1"
  by (simp add: lead_def whitespace_def)

lemma split_ws_token:
  "list_all plain t \<Longrightarrow> piece @ t \<noteq> [] \<Longrightarrow> split_ws piece (t @ CHR '' '' # s) = (piece @ t) # split_ws [] s"
proof (induction t arbitrary: piece)
  case Nil
  then show ?case by (simp add: split_ws.simps [of piece "CHR '' '' # s"] lead_space)
next
  case (Cons c t)
  then show ?case by (simp add: split_ws.simps [of piece "c # t @ CHR '' '' # s"] lead_plain)
qed

lemma show_nat_plain: "list_all plain (show_nat n)"
proof (induction n rule: show_nat.induct)
  case (1 n)
  have "plain (digit m)" if "m < 10" for m
  proof -
    from that have "m \<in> {0, 1, 2, 3, 4, 5, 6, 7, 8, 9}" by auto
    then show ?thesis by (auto simp: plain_def whitespace_def digit_def char_of_def)
  qed
  with 1 show ?case by (simp add: show_nat.simps [of n])
qed

text \<open>A header line: not empty and without line ends.\<close>

definition header_line :: "string \<Rightarrow> bool" where
  "header_line l \<longleftrightarrow> l \<noteq> [] \<and> CHR 0x0D \<notin> set l \<and> CHR 0x0A \<notin> set l"

lemma split_at_skip:
  "CHR 0x0D \<notin> set l \<Longrightarrow> split_at (CRLF @ CRLF) (l @ s) = (let (b, a) = split_at (CRLF @ CRLF) s in (l @ b, a))"
  by (induction l) (auto simp: CRLF_def split_def Let_def)

lemma split_at_lines:
  assumes "header_line l" and "list_all header_line ls"
  shows "split_at (CRLF @ CRLF) (l @ CRLF @ concat (map (\<lambda>l. l @ CRLF) ls) @ CRLF @ body)
    = (l @ concat (map (\<lambda>l. CRLF @ l) ls), Some body)"
  using assms
proof (induction ls arbitrary: l)
  case Nil
  then show ?case by (simp add: split_at_skip header_line_def) (simp add: CRLF_def)
next
  case (Cons m ls)
  obtain c m' where m: "m = c # m'" "c \<noteq> CHR 0x0D" using Cons.prems(2) by (cases m) (auto simp: header_line_def)
  from Cons have IH: "split_at (CRLF @ CRLF) (m @ CRLF @ concat (map (\<lambda>l. l @ CRLF) ls) @ CRLF @ body)
    = (m @ concat (map (\<lambda>l. CRLF @ l) ls), Some body)" by simp
  have "split_at (CRLF @ CRLF) (CRLF @ m @ s) = (let (b, a) = split_at (CRLF @ CRLF) (m @ s) in (CRLF @ b, a))" for s
    using m by (simp add: CRLF_def split_def Let_def)
  with IH Cons.prems(1) show ?case by (simp add: split_at_skip header_line_def)
qed

lemma first_line_lines:
  assumes "header_line l" and "list_all header_line ls"
  shows "first_line (l @ concat (map (\<lambda>l. CRLF @ l) ls)) = Some l"
proof (cases ls)
  case Nil
  have tw: "takeWhile (\<lambda>c. c \<noteq> CHR 0x0A) l = l" using assms(1) by (auto simp: takeWhile_eq_all_conv header_line_def)
  show ?thesis using Nil assms(1) by (simp add: first_line_def header_line_def tw)
next
  case (Cons m ms)
  have "takeWhile (\<lambda>c. c \<noteq> CHR 0x0A) (l @ CRLF @ r) = l @ [CHR 0x0D]" for r
    using assms(1) by (subst takeWhile_append2) (auto simp: CRLF_def header_line_def)
  with Cons assms(1) show ?thesis by (simp add: first_line_def header_line_def CRLF_def Let_def)
qed

definition status_line :: "nat \<Rightarrow> string \<Rightarrow> string" where
  "status_line code reason = ''HTTP/1.1 '' @ show_nat code @ '' '' @ reason"

lemma parse_u16_show: "n \<le> 65535 \<Longrightarrow> parse_u16 (show_nat n) = Inr n"
proof -
  have sign: "CHR ''+'' \<notin> set (show_nat n)" "CHR ''-'' \<notin> set (show_nat n)"
    using show_nat_digits [of "CHR ''+''" n] show_nat_digits [of "CHR ''-''" n] by (auto simp: is_ascii_digit_def)
  then have "hd (show_nat n) \<noteq> CHR ''+''" by (metis hd_in_set show_nat_nonempty)
  moreover have "show_nat n \<noteq> ''+''" "show_nat n \<noteq> ''-''" using sign by auto
  ultimately show "n \<le> 65535 \<Longrightarrow> parse_u16 (show_nat n) = Inr n" by (simp add: parse_u16_def parse_digits_show)
qed

text \<open>An answer as an HTTP server writes it is read back.\<close>

lemma parse_http_response_ok:
  assumes "code \<le> 65535" and "CHR 0x0D \<notin> set reason" and "CHR 0x0A \<notin> set reason" and "list_all header_line ls"
  shows "parse_http_response (status_line code reason @ CRLF @ concat (map (\<lambda>l. l @ CRLF) ls) @ CRLF @ body)
    = Inr (code, body)"
proof -
  have plain: "list_all plain ''HTTP/1.1''" by (simp add: plain_def whitespace_def)
  have chars: "c \<in> set (show_nat code) \<Longrightarrow> plain c" for c using show_nat_plain by (auto simp: list_all_iff)
  have "header_line (status_line code reason)"
    using assms(2,3) chars [of "CHR 0x0D"] chars [of "CHR 0x0A"]
    by (auto simp: header_line_def status_line_def plain_def whitespace_def)
  note lines = split_at_lines [OF this assms(4)] first_line_lines [OF this assms(4)]
  have "status_line code reason = ''HTTP/1.1'' @ CHR '' '' # show_nat code @ CHR '' '' # reason"
    by (simp add: status_line_def)
  then have "split_whitespace (status_line code reason) = ''HTTP/1.1'' # show_nat code # split_ws [] reason"
    using split_ws_token [OF plain, of "[]" "show_nat code @ CHR '' '' # reason"]
      split_ws_token [OF show_nat_plain, of "[]" code reason]
    by (simp add: split_whitespace_def del: append.simps)
  with lines assms(1) show ?thesis
    by (simp add: parse_http_response_def Let_def parse_u16_show del: append.simps)
qed

lemma connect_retries_until:
  assumes "\<forall>j<i. \<exists>e. hn_connect net j addr = Some (Transient e)" and "hn_connect net i addr = None" and "i < n"
  shows "fst (connect_retries net addr [0..<n] None) = Inr ()"
proof -
  have "fst (connect_retries net addr [k..<n] l) = Inr ()" if "k \<le> i" for k l
    using that
  proof (induction "i - k" arbitrary: k l)
    case 0
    then show ?case using assms(2,3) by (simp add: upt_conv_Cons Let_def)
  next
    case (Suc d)
    then obtain e where e: "hn_connect net k addr = Some (Transient e)" using assms(1) by (metis diff_is_0_eq' linorder_not_le nat.distinct(1))
    have "fst (connect_retries net addr [Suc k..<n] (Some e)) = Inr ()" using Suc by simp
    with e Suc.prems assms(3) show ?case by (simp add: upt_rec [of k n] Let_def split_def)
  qed
  then show ?thesis by simp
qed

text \<open>C20. Forwarding delivers. When the validator can be reached at the first, second or third attempt, after nothing
  but refused connections, takes the request and answers with a well-formed HTTP response, then
  the node returns exactly the status code and the body of that response.\<close>

theorem forwarding_delivers:
  assumes "addr = trim_start_matches ''http://'' target"
    and "i < 3" and "hn_connect net i addr = None" and "\<forall>j<i. \<exists>e. hn_connect net j addr = Some (Transient e)"
    and "request = http_request meth path body content_type addr auth sig"
    and "hn_write net addr request = Completed ()"
    and "hn_read net addr request
      = Completed (status_line code reason @ CRLF @ concat (map (\<lambda>l. l @ CRLF) ls) @ CRLF @ answer)"
    and "code \<le> 65535" and "CHR 0x0D \<notin> set reason" and "CHR 0x0A \<notin> set reason" and "list_all header_line ls"
  shows "forward_request_with_headers net target meth path body content_type auth sig = Inr (code, answer)"
proof -
  have "fst (connect_retries net addr [0..<HTTP_MAX_RETRIES] None) = Inr ()"
    using connect_retries_until [OF assms(4,3), of 3] assms(2) by simp
  moreover have "perform_http_request net meth path body content_type addr auth sig = Inr (code, answer)"
    unfolding perform_http_request_def Let_def assms(5) [symmetric] assms(6,7)
    using parse_http_response_ok [OF assms(8-11)] by simp
  ultimately show ?thesis unfolding forward_request_with_headers_def Let_def assms(1) [symmetric] by simp
qed

theorem forwarding_delivers_witness:
  "let request = http_request ''POST'' ''/data/submit'' ''{}'' ''application/json'' ''n2:8080'' (Some ''Bearer k'') None;
       net = \<lparr>hn_connect = (\<lambda>i _. if i = 0 then Some (Transient ''refused'') else None), hn_write = (\<lambda>_ _. Completed ()),
              hn_read = (\<lambda>_ _. Completed (status_line 201 ''Created'' @ CRLF
                @ concat (map (\<lambda>l. l @ CRLF) [''Connection: close'']) @ CRLF @ ''ok''))\<rparr>
   in forward_request_with_headers net ''http://n2:8080'' ''POST'' ''/data/submit'' ''{}'' ''application/json''
        (Some ''Bearer k'') None = Inr (201, ''ok'')"
proof -
  have "''n2:8080'' = trim_start_matches ''http://'' ''http://n2:8080''"
    by (simp add: trim_start_matches.simps)
  then show ?thesis
    unfolding Let_def by (rule forwarding_delivers [where i = 1 and reason = "''Created''" and ls = "[''Connection: close'']", OF _ _ _ _ refl]) (simp_all add: header_line_def)
qed

end
