(* ===== verification/Goud_Routes.thy ===== *)
theory Goud_Routes
  imports Goud_Auth Goud_Validation Goud_Client Goud_Audit Goud_Rate_Limiter
begin

text \<open>
  The HTTP handlers that change or read user data (\<open>src/api/routes/account.rs\<close>, \<open>data.rs\<close>,
  \<open>audit.rs\<close>): account creation, login, submission, listing, decryption and audit queries. A handler is a
  state transformer that returns the response and the notifications it spawns. The blockchain and the database are
  those that the audit logger holds, which share them with every other component of the node. The clock readings of a
  request are \<open>clk 0\<close> to \<open>clk 8\<close> for the rate limiter, 9 for the token check, 10 for the reset time of the fallback, 11
  for the expiry in a ban response, 12 for the rate headers, 13 for the audit entry, 14 for the
  collection, the account or the session token.
\<close>

section \<open>Requests and responses\<close>

record collection_list_item =
  li_collection_id :: string
  li_label :: string
  li_created_at :: i64
  li_block_number :: u64

datatype api_body =
    ErrorBody string
  | RawBody string
  | CreateAccountBody (ca_account_id: string) (ca_api_key: string) (ca_warning: string)
  | LoginBody (lo_session_token: string) (lo_expires_in: i64) (lo_account_id: string)
  | SubmitBody (su_message: string) (su_collection_id: string) (su_block_number: u64)
  | ListBody (ls_collections: "collection_list_item list")
  | DecryptBody (de_collection_id: string) (de_label: string) (de_data: string) (de_created_at: i64)
  | AuditBody audit_log_response

record http_response =
  rsp_status :: nat
  rsp_headers :: "(string \<times> string) list"
  rsp_body :: api_body

text \<open>What a handler spawns: the broadcast of a block to the peers, and events for WebSocket clients.\<close>

datatype api_event =
    BroadcastBlock block
  | CollectionEvent string u64
  | BlockEvent u64 string
  | AuditEvent audit_event_type i64 "string option" json

record ('db, 'c) api_state =
  ap_logger :: "'db audit_logger"
  ap_rate_cache :: 'c

text \<open>The libraries, the configured bypass keys, and the JSON of forwarded requests.\<close>

record ('db, 'c) api_libs =
  lb_audit :: "'db audit_libs"
  lb_rate :: "('db, 'c) rate_libs"
  lb_jwt :: jwt_lib
  lb_net :: http_net
  lb_header_value_ok :: "string \<Rightarrow> bool"
  lb_submit_js :: "(submit_data_request, string) codec"
  lb_account_js :: "(json option, string) codec"
  lb_bypass :: "string set"

type_synonym ('db, 'c) handler = "(('db, 'c) api_state, fail, http_response \<times> api_event list) act"

abbreviation ap_chain :: "('db, 'c) api_state \<Rightarrow> blockchain" where
  "ap_chain st \<equiv> al_blockchain (ap_logger st)"

section \<open>Helpers\<close>

definition extract_client_ip :: "header_map \<Rightarrow> string" where
  "extract_client_ip headers =
     (case headers ''x-real-ip'' of
        Some (Inr ip) \<Rightarrow> ip
      | _ \<Rightarrow>
          (case headers ''x-forwarded-for'' of
             Some (Inr forwarded) \<Rightarrow> trim (hd (split_on CHR '','' forwarded))
           | _ \<Rightarrow> ''unknown''))"

definition header_text :: "header_map \<Rightarrow> string \<Rightarrow> string option" where
  "header_text headers name = (case headers name of Some (Inr s) \<Rightarrow> Some s | _ \<Rightarrow> None)"

definition extract_auth_header :: "header_map \<Rightarrow> string option" where
  "extract_auth_header headers = header_text headers ''authorization''"

definition extract_signature_header :: "header_map \<Rightarrow> string option" where
  "extract_signature_header headers = header_text headers ''x-signature''"

definition add_rate_limit_headers ::
  "(string \<Rightarrow> bool) \<Rightarrow> (string \<times> string) list \<Rightarrow> http_response \<Rightarrow> http_response" where
  "add_rate_limit_headers value_ok headers rsp =
     rsp\<lparr>rsp_headers := fold (\<lambda>(k, v) hs. if value_ok v then filter (\<lambda>h. fst h \<noteq> k) hs @ [(k, v)] else hs)
       headers (rsp_headers rsp)\<rparr>"

definition ok_response :: "nat \<Rightarrow> api_body \<Rightarrow> http_response" where
  "ok_response status body = \<lparr>rsp_status = status, rsp_headers = [], rsp_body = body\<rparr>"

definition error_response :: "goud_error \<Rightarrow> http_response" where
  "error_response e = ok_response (fst (into_response e)) (ErrorBody (snd (into_response e)))"

text \<open>The limiter works on the database of the node; a failing check lets the request pass.\<close>

definition rate_check ::
  "'z crypto_env_scheme \<Rightarrow> ('db, 'c) api_libs \<Rightarrow> (nat \<Rightarrow> i64) \<Rightarrow> u32 \<Rightarrow> string \<Rightarrow> string \<Rightarrow> bool
     \<Rightarrow> (('db, 'c) api_state, fail, rate_limit_result) act" where
  "rate_check env lib clk fallback h client_ip is_write st =
     (let (r, rs) = check_limit env (lb_rate lib) (lb_bypass lib) clk h client_ip is_write
            \<lparr>rs_db = al_db (ap_logger st), rs_cache = ap_rate_cache st\<rparr>;
          st = st\<lparr>ap_logger := (ap_logger st)\<lparr>al_db := rs_db rs\<rparr>, ap_rate_cache := rs_cache rs\<rparr>
      in case r of
           Inr result \<Rightarrow> (Inr result, st)
         | Inl (Fail e) \<Rightarrow> (Inr (Allowed fallback fallback (clk 10 + 60)), st)
         | Inl Panic \<Rightarrow> (Inl Panic, st))"

text \<open>The response to a blocked request of an API key.\<close>

definition banned_response :: "('db, 'c) api_libs \<Rightarrow> (nat \<Rightarrow> i64) \<Rightarrow> rate_limit_result \<Rightarrow> http_response option" where
  "banned_response lib clk result =
     (case result of
        Blocked ban_level retry_after violation_count \<Rightarrow>
          Some (add_rate_limit_headers (lb_header_value_ok lib) (create_headers (clk 12) result)
            (error_response (ApiKeyBanned (show_ban_level ban_level) (clk 11 + sint retry_after))))
      | _ \<Rightarrow> None)"

text \<open>The API key behind the credentials, and the hash the limiter gets.\<close>

definition resolve_auth ::
  "'z crypto_env_scheme \<Rightarrow> jwt_lib \<Rightarrow> i64 \<Rightarrow> header_map \<Rightarrow> config \<Rightarrow> (bytes \<times> string) res" where
  "resolve_auth env jwt now headers cfg =
     bindE (extract_auth_from_headers env jwt now headers cfg) (\<lambda>auth.
     case auth of
       ApiKeyAuth key \<Rightarrow> Inr (key, hash_api_key_hex env key)
     | SessionToken claims \<Rightarrow>
         (case decrypt_api_key_from_jwt env (cl_encrypted_api_key claims) cfg of
            Inr key \<Rightarrow> Inr (key, cl_api_key_hash claims)
          | Inl (Fail e) \<Rightarrow> Err (Unauthorized
              (''Failed to decrypt API key from session token: '' @ error_to_string e))
          | Inl Panic \<Rightarrow> panic))"

text \<open>The number of the next block, and whether it is this node's turn.\<close>

definition validator_turn :: "blockchain \<Rightarrow> (u64 \<times> bool) res" where
  "validator_turn bc =
     (let next_block_number = (if chain bc = [] then 1 else b_index (last (chain bc)) + 1)
      in bindE (is_authorized_validator (node_id bc) next_block_number (validator_cfg bc)) (\<lambda>mine.
         Inr (next_block_number, mine)))"

definition forward_to_validator ::
  "http_net \<Rightarrow> blockchain \<Rightarrow> u64 \<Rightarrow> string \<Rightarrow> string + string \<Rightarrow> string option \<Rightarrow> string option
     \<Rightarrow> http_response res" where
  "forward_to_validator net bc next_block_number path body auth_header signature_header =
     bindE (get_current_validator (validators (validator_cfg bc)) next_block_number) (\<lambda>expected_validator.
     case get_validator_address (validator_cfg bc) expected_validator of
       None \<Rightarrow> Err (Internal (''Unknown validator: '' @ expected_validator))
     | Some validator_addr \<Rightarrow>
         bindE (map_err (\<lambda>e. Fail (Internal (''Serialization failed: '' @ e))) body) (\<lambda>body.
         case forward_request_with_headers net validator_addr ''POST'' path body ''application/json''
                auth_header signature_header of
           Inr (code, response_body) \<Rightarrow>
             Inr (ok_response (if 100 \<le> code \<and> code \<le> 999 then code else 200)
                    (RawBody response_body))
         | Inl (Fail e) \<Rightarrow> Err (Internal (''Failed to forward to validator: '' @ error_to_string e))
         | Inl Panic \<Rightarrow> panic))"

text \<open>The block of the pending data, saved with its checkpoint; database errors are only logged.\<close>

definition commit_block ::
  "'z node_env_scheme \<Rightarrow> ('db, 'c) api_libs \<Rightarrow> block_seed \<Rightarrow> (('db, 'c) api_state, fail, block) act" where
  "commit_block env lib seed st =
     (case add_block env seed (ap_chain st) of
        (Inl e, bc) \<Rightarrow> (Inl e, st\<lparr>ap_logger := (ap_logger st)\<lparr>al_blockchain := bc\<rparr>\<rparr>)
      | (Inr block, bc) \<Rightarrow>
          (Inr block, st\<lparr>ap_logger := (ap_logger st)\<lparr>al_blockchain := bc,
             al_db := persist_block (au_rocks (lb_audit lib)) (au_block_bin (lb_audit lib)) block
               (al_db (ap_logger st))\<rparr>\<rparr>))"

text \<open>An audit entry, and the event of its callback.\<close>

definition audit ::
  "'z crypto_env_scheme \<Rightarrow> i64 \<Rightarrow> bytes \<Rightarrow> audit_event_type \<Rightarrow> string option \<Rightarrow> string \<Rightarrow> json
     \<Rightarrow> ('db, 'c) api_state \<Rightarrow> api_event list \<times> ('db, 'c) api_state" where
  "audit env now api_key t cid client_ip metadata st =
     (let (r, logger) = log_event env now api_key t cid client_ip metadata (ap_logger st)
      in (case r of
            Inr (Some (t', ts, cid', m)) \<Rightarrow> [AuditEvent t' ts cid' m]
          | _ \<Rightarrow> [], st\<lparr>ap_logger := logger\<rparr>))"

section \<open>Accounts\<close>

text \<open>The randomness of account creation.\<close>

record account_seed =
  as_api_key :: bytes
  as_signing_key :: bytes
  as_uuid :: string
  as_nonce :: bytes
  as_block :: block_seed

definition store_account ::
  "'z node_env_scheme \<Rightarrow> ('db, 'c) api_libs \<Rightarrow> account_seed \<Rightarrow> (nat \<Rightarrow> i64) \<Rightarrow> string \<Rightarrow> rate_limit_result
     \<Rightarrow> json option \<Rightarrow> ('db, 'c) handler" where
  "store_account env lib seed clk client_ip rate_limit_result metadata st =
     (case user_account_new env (value_js env) (as_uuid seed) (as_nonce seed) (clk 14) (as_api_key seed)
             (as_signing_key seed) metadata of
        Inl e \<Rightarrow> (Inl e, st)
      | Inr account \<Rightarrow>
          bindS (commit_block env lib (as_block seed)) (\<lambda>block st.
          let (events, st) = audit env (clk 13) (as_api_key seed) AccountCreated None client_ip
                (JObject [(''account_id'', JString (account_id account)),
                          (''block'', json_of_u64 (b_index block))]) st
          in (Inr (add_rate_limit_headers (lb_header_value_ok lib) (create_headers (clk 12) rate_limit_result)
                (ok_response 201 (CreateAccountBody (account_id account) (encode_api_key env (as_api_key seed))
                  ''SAVE THIS API KEY SECURELY. It cannot be recovered and provides full access to your data.'')),
              events @ [BroadcastBlock block, BlockEvent (b_index block) (b_hash block)]), st))
            (st\<lparr>ap_logger := (ap_logger st)\<lparr>al_blockchain :=
               snd (add_account_with_key account (as_api_key seed) (ap_chain st))\<rparr>\<rparr>))"

definition create_account ::
  "'z node_env_scheme \<Rightarrow> ('db, 'c) api_libs \<Rightarrow> account_seed \<Rightarrow> (nat \<Rightarrow> i64) \<Rightarrow> header_map \<Rightarrow> json option
     \<Rightarrow> ('db, 'c) handler" where
  "create_account env lib seed clk headers metadata =
     (let client_ip = extract_client_ip headers;
          ip_hash = hash_api_key_hex env (as_bytes client_ip)
      in bindS (rate_check env lib clk 10 ip_hash client_ip True) (\<lambda>result.
         case result of
           Blocked ban_level retry_after violation_count \<Rightarrow>
             retS (add_rate_limit_headers (lb_header_value_ok lib) (create_headers (clk 12) result)
                     (error_response (RateLimitExceeded retry_after violation_count)), [])
         | _ \<Rightarrow>
             (\<lambda>st. case validator_turn (ap_chain st) of
                Inl e \<Rightarrow> (Inl e, st)
              | Inr (next_block_number, True) \<Rightarrow> store_account env lib seed clk client_ip result metadata st
              | Inr (next_block_number, False) \<Rightarrow>
                  bindS (liftS (forward_to_validator (lb_net lib) (ap_chain st) next_block_number
                           ''/account/create'' (enc (lb_account_js lib) metadata) None None))
                    (\<lambda>rsp. retS (rsp, [])) st)))"

definition login ::
  "'z node_env_scheme \<Rightarrow> ('db, 'c) api_libs \<Rightarrow> config \<Rightarrow> bytes \<Rightarrow> (nat \<Rightarrow> i64) \<Rightarrow> header_map \<Rightarrow> string
     \<Rightarrow> ('db, 'c) handler" where
  "login env lib cfg nonce clk headers request_api_key st =
     (case decode_api_key env request_api_key of
        Inl _ \<Rightarrow> (Err AuthenticationFailed, st)
      | Inr api_key \<Rightarrow>
          let api_key_hash = hash_api_key_hex env api_key;
              account_option = find_account_with_hash env (ap_chain st) api_key (Some api_key_hash)
          in case account_option of
               None \<Rightarrow> (Err AuthenticationFailed, st)
             | Some account \<Rightarrow>
                 if \<not> is_ok (verify_api_key_hash_precomputed env (Some api_key_hash) api_key
                            (acc_api_key_hash account))
                 then (Err AuthenticationFailed, st)
                 else
                   (case generate_session_token env (lb_jwt lib) nonce (clk 14) (account_id account) api_key
                           api_key_hash cfg of
                      Inl e \<Rightarrow> (Inl e, st)
                    | Inr token \<Rightarrow>
                        let (events, st) = audit env (clk 13) api_key AccountLogin None
                              (extract_client_ip headers)
                              (JObject [(''account_id'', JString (account_id account))]) st
                        in (Inr (ok_response 200 (LoginBody token SESSION_EXPIRY_SECONDS (account_id account)),
                              events), st)))"

section \<open>Data\<close>

record submit_seed =
  ss_collection :: collection_seed
  ss_block :: block_seed

definition store_data ::
  "'z node_env_scheme \<Rightarrow> ('db, 'c) api_libs \<Rightarrow> submit_seed \<Rightarrow> (nat \<Rightarrow> i64) \<Rightarrow> string \<Rightarrow> rate_limit_result
     \<Rightarrow> bytes \<Rightarrow> string \<Rightarrow> submit_data_request \<Rightarrow> ('db, 'c) handler" where
  "store_data env lib seed clk client_ip rate_limit_result api_key api_key_hash request st =
     (case node_signing_key (ap_chain st) of
        None \<Rightarrow> (Err (Internal ''Node signing key not available''), st)
      | Some key \<Rightarrow>
          (case encrypted_collection_new env (value_js env) (ss_collection seed) (clk 14) (sr_label request)
                  (sr_data request) api_key api_key_hash key of
             Inl e \<Rightarrow> (Inl e, st)
           | Inr collection \<Rightarrow>
               bindS (commit_block env lib (ss_block seed)) (\<lambda>block st.
               let cid = collection_id collection;
                   (events, st) = audit env (clk 13) api_key DataSubmitted (Some cid) client_ip
                     (JObject [(''block'', json_of_u64 (b_index block)), (''label'', JString (sr_label request))]) st
               in (Inr (add_rate_limit_headers (lb_header_value_ok lib) (create_headers (clk 12) rate_limit_result)
                     (ok_response 201 (SubmitBody ''Data encrypted and stored successfully'' cid (b_index block))),
                   events @ [BroadcastBlock block, CollectionEvent cid (b_index block),
                             BlockEvent (b_index block) (b_hash block)]), st))
                 (st\<lparr>ap_logger := (ap_logger st)\<lparr>al_blockchain :=
                    snd (add_collection collection (ap_chain st))\<rparr>\<rparr>)))"

definition submit_data ::
  "'z node_env_scheme \<Rightarrow> ('db, 'c) api_libs \<Rightarrow> config \<Rightarrow> submit_seed \<Rightarrow> (nat \<Rightarrow> i64) \<Rightarrow> header_map
     \<Rightarrow> submit_data_request \<Rightarrow> ('db, 'c) handler" where
  "submit_data env lib cfg seed clk headers request =
     bindS (liftS (extract_auth_from_headers env (lb_jwt lib) (clk 9) headers cfg)) (\<lambda>auth.
     case auth of
       SessionToken _ \<Rightarrow> failS (Fail (Unauthorized ''Direct API key required for data submission''))
     | ApiKeyAuth api_key \<Rightarrow>
         let api_key_hash = hash_api_key_hex env api_key;
             client_ip = extract_client_ip headers
         in bindS (rate_check env lib clk 10 api_key_hash client_ip True) (\<lambda>result.
            case banned_response lib clk result of
              Some rsp \<Rightarrow> retS (rsp, [])
            | None \<Rightarrow>
                (\<lambda>st.
                   if find_account_with_hash env (ap_chain st) api_key (Some api_key_hash) = None
                   then (Err (Unauthorized ''Account not found''), st)
                   else
                     bindS (liftS (validate_request (value_js env) request)) (\<lambda>_ st.
                     case validator_turn (ap_chain st) of
                       Inl e \<Rightarrow> (Inl e, st)
                     | Inr (next_block_number, True) \<Rightarrow>
                         store_data env lib seed clk client_ip result api_key api_key_hash request st
                     | Inr (next_block_number, False) \<Rightarrow>
                         bindS (liftS (forward_to_validator (lb_net lib) (ap_chain st) next_block_number
                                  ''/data/submit'' (enc (lb_submit_js lib) request)
                                  (extract_auth_header headers) (extract_signature_header headers)))
                           (\<lambda>rsp. retS (rsp, [])) st) st)))"

definition list_item ::
  "'z node_env_scheme \<Rightarrow> bytes \<Rightarrow> encrypted_collection \<Rightarrow> collection_list_item" where
  "list_item env api_key c =
     \<lparr>li_collection_id = collection_id c,
      li_label = (case decrypt_metadata env (value_js env) c api_key of
          Inr metadata \<Rightarrow> (case as_str (json_index metadata ''label'') of
             Some l \<Rightarrow> l | None \<Rightarrow> ''[decryption failed]'')
        | Inl _ \<Rightarrow> ''[encrypted]''),
      li_created_at = (case decrypt_metadata env (value_js env) c api_key of
          Inr metadata \<Rightarrow> (case as_i64 (json_index metadata ''created_at'') of Some t \<Rightarrow> t | None \<Rightarrow> 0)
        | Inl _ \<Rightarrow> 0),
      li_block_number = 0\<rparr>"

definition list_data ::
  "'z node_env_scheme \<Rightarrow> ('db, 'c) api_libs \<Rightarrow> config \<Rightarrow> (nat \<Rightarrow> i64) \<Rightarrow> header_map \<Rightarrow> ('db, 'c) handler" where
  "list_data env lib cfg clk headers =
     bindS (liftS (resolve_auth env (lb_jwt lib) (clk 9) headers cfg)) (\<lambda>(api_key, api_key_hash).
     let client_ip = extract_client_ip headers
     in bindS (rate_check env lib clk 100 api_key_hash client_ip False) (\<lambda>result.
        case banned_response lib clk result of
          Some rsp \<Rightarrow> retS (rsp, [])
        | None \<Rightarrow>
            (\<lambda>st.
               if find_account env (ap_chain st) api_key = None then (Err (Unauthorized ''Account not found''), st)
               else
                 let items = map (list_item env api_key) (find_collections_by_owner env (ap_chain st) api_key);
                     (events, st) = audit env (clk 13) api_key DataListed None client_ip
                       (JObject [(''count'', json_of_u64 (of_nat (length items)))]) st
                 in (Inr (add_rate_limit_headers (lb_header_value_ok lib) (create_headers (clk 12) result)
                       (ok_response 200 (ListBody items)), events), st))))"

definition decrypt_data ::
  "'z node_env_scheme \<Rightarrow> ('db, 'c) api_libs \<Rightarrow> config \<Rightarrow> (nat \<Rightarrow> i64) \<Rightarrow> header_map \<Rightarrow> string
     \<Rightarrow> ('db, 'c) handler" where
  "decrypt_data env lib cfg clk headers cid =
     bindS (liftS (resolve_auth env (lb_jwt lib) (clk 9) headers cfg)) (\<lambda>(api_key, api_key_hash).
     let client_ip = extract_client_ip headers
     in bindS (rate_check env lib clk 10 api_key_hash client_ip True) (\<lambda>result.
        case banned_response lib clk result of
          Some rsp \<Rightarrow> retS (rsp, [])
        | None \<Rightarrow>
            (\<lambda>st. case find_collection env (ap_chain st) cid api_key of
               None \<Rightarrow> (Err (DataNotFound cid), st)
             | Some c \<Rightarrow>
                 (case (decrypt_metadata env (value_js env) c api_key, decrypt_payload env c api_key) of
                    (Inr metadata, Inr data) \<Rightarrow>
                      let (events, st) = audit env (clk 13) api_key DataDecrypted (Some (collection_id c)) client_ip
                            (JObject [(''success'', JBool True)]) st
                      in (Inr (add_rate_limit_headers (lb_header_value_ok lib) (create_headers (clk 12) result)
                            (ok_response 200 (DecryptBody (collection_id c)
                              (case as_str (json_index metadata ''label'') of Some l \<Rightarrow> l | None \<Rightarrow> ''unknown'')
                              data
                              (case as_i64 (json_index metadata ''created_at'') of Some t \<Rightarrow> t | None \<Rightarrow> 0))),
                          events), st)
                  | (Inl Panic, _) \<Rightarrow> (Inl Panic, st)
                  | (_, Inl Panic) \<Rightarrow> (Inl Panic, st)
                  | _ \<Rightarrow> (Err DecryptionFailed, st)))))"

section \<open>Audit queries\<close>

record audit_log_query =
  aq_event_type :: "string option"
  aq_collection_id :: "string option"
  aq_start_ts :: "i64 option"
  aq_end_ts :: "i64 option"
  aq_page :: "u64 option"
  aq_page_size :: "u64 option"

definition parse_event_type :: "string \<Rightarrow> audit_event_type option" where
  "parse_event_type s =
     (if s = ''AccountCreated'' then Some AccountCreated
      else if s = ''DataSubmitted'' then Some DataSubmitted
      else if s = ''DataDecrypted'' then Some DataDecrypted
      else if s = ''DataListed'' then Some DataListed
      else if s = ''AccountLogin'' then Some AccountLogin
      else None)"

definition handle_get_audit_logs ::
  "'z node_env_scheme \<Rightarrow> ('db, 'c) api_libs \<Rightarrow> config \<Rightarrow> (nat \<Rightarrow> i64) \<Rightarrow> header_map \<Rightarrow> audit_log_query
     \<Rightarrow> ('db, 'c) handler" where
  "handle_get_audit_logs env lib cfg clk headers params =
     bindS (liftS (resolve_auth env (lb_jwt lib) (clk 9) headers cfg)) (\<lambda>(api_key, _) st.
     let page = (case aq_page params of Some p \<Rightarrow> p | None \<Rightarrow> 0);
         page_size = min (case aq_page_size params of Some n \<Rightarrow> n | None \<Rightarrow> 50) 100;
         event_type = (case aq_event_type params of Some s \<Rightarrow> parse_event_type s | None \<Rightarrow> None);
         flt = \<lparr>af_event_type = event_type, af_start_ts = aq_start_ts params, af_end_ts = aq_end_ts params,
                af_include_invalidated = False\<rparr>
     in (bindE (query_logs env (lb_audit lib) api_key flt page page_size (ap_logger st)) (\<lambda>response.
           Inr (ok_response 200 (AuditBody response), [])), st))"

end
