(* ===== verification/Goud_Route_Laws.thy ===== *)
theory Goud_Route_Laws
  imports Goud_Routes
begin

text \<open>
  Properties of the HTTP handlers of \<open>Goud_Routes\<close>: what was submitted can be decrypted by its owner, and a
  login gives the session of the account.
\<close>

section \<open>Lemmas on the handlers\<close>

lemma rate_check_keeps:
  assumes "rate_check env lib clk n h ip w st = (r, st')"
  shows "ap_chain st' = ap_chain st" and "r = panic \<or> (\<exists>result. r = Inr result)"
  using assms by (auto simp: rate_check_def Let_def split: prod.splits sum.splits fail.splits)

lemma audit_keeps: "ap_chain (snd (audit env now k t cid ip m st)) = ap_chain st"
  by (simp add: audit_def log_event_def Let_def)

lemma banned_status: "banned_response lib clk result = Some rsp \<Longrightarrow> rsp_status rsp = 429"
  by (auto simp: banned_response_def add_rate_limit_headers_def error_response_def ok_response_def
      into_response_def split: rate_limit_result.splits)

lemma rate_headers_body [simp]:
  "rsp_body (add_rate_limit_headers ok hs rsp) = rsp_body rsp"
  "rsp_status (add_rate_limit_headers ok hs rsp) = rsp_status rsp"
  by (simp_all add: add_rate_limit_headers_def)

lemma ok_response_simps [simp]: "rsp_body (ok_response s b) = b" "rsp_status (ok_response s b) = s"
  by (simp_all add: ok_response_def)

lemma commit_block_cases:
  assumes "commit_block env lib seed st = (Inr b, st')"
  shows "add_block env seed (ap_chain st) = (Inr b, ap_chain st')"
  using assms by (auto simp: commit_block_def split: prod.splits sum.splits)

text \<open>A submission that stores its data here.\<close>

lemma store_data_cases:
  assumes "store_data env lib seed clk ip result k h request st = (Inr (rsp, events), st')"
  obtains key c b where "node_signing_key (ap_chain st) = Some key"
    and "encrypted_collection_new env (value_js env) (ss_collection seed) (clk 14) (sr_label request)
           (sr_data request) k h key = Inr c"
    and "add_block env (ss_block seed) (snd (add_collection c (ap_chain st))) = (Inr b, ap_chain st')"
    and "rsp_body rsp = SubmitBody ''Data encrypted and stored successfully'' (collection_id c) (b_index b)"
proof -
  from assms obtain key c where key: "node_signing_key (ap_chain st) = Some key"
    and c: "encrypted_collection_new env (value_js env) (ss_collection seed) (clk 14) (sr_label request)
           (sr_data request) k h key = Inr c"
    by (auto simp: store_data_def split: option.splits sum.splits)
  let ?st = "st\<lparr>ap_logger := (ap_logger st)\<lparr>al_blockchain := snd (add_collection c (ap_chain st))\<rparr>\<rparr>"
  let ?audit = "\<lambda>b t. audit env (clk 13) k DataSubmitted (Some (collection_id c)) ip
      (JObject [(''block'', json_of_u64 (b_index b)), (''label'', JString (sr_label request))]) t"
  from assms key c obtain b t where commit: "commit_block env lib (ss_block seed) ?st = (Inr b, t)"
    and st': "st' = snd (?audit b t)"
    and body: "rsp_body rsp = SubmitBody ''Data encrypted and stored successfully'' (collection_id c) (b_index b)"
    by (auto simp: store_data_def res_iff Let_def split_def)
  have "add_block env (ss_block seed) (snd (add_collection c (ap_chain st))) = (Inr b, ap_chain st')"
    using commit_block_cases [OF commit] by (simp add: st' audit_keeps)
  with key c body that show thesis by blast
qed

lemma forward_body:
  assumes "forward_to_validator net bc n p body a s = Inr rsp"
  shows "\<exists>t. rsp_body rsp = RawBody t"
proof -
  from assms obtain addr msg where
    r: "(case forward_request_with_headers net addr ''POST'' p msg ''application/json'' a s of
           Inr (code, response_body) \<Rightarrow>
             Inr (ok_response (if 100 \<le> code \<and> code \<le> 999 then code else 200) (RawBody response_body))
         | Inl (Fail e) \<Rightarrow> Err (Internal (''Failed to forward to validator: '' @ error_to_string e))
         | Inl Panic \<Rightarrow> panic) = Inr rsp"
    by (auto simp: forward_to_validator_def res_iff split: option.splits)
  show ?thesis
  proof (cases "forward_request_with_headers net addr ''POST'' p msg ''application/json'' a s")
    case (Inl e)
    with r show ?thesis by (cases e) simp_all
  next
    case (Inr x)
    with r show ?thesis by (cases x) auto
  qed
qed

lemma submit_data_stores:
  assumes "submit_data env lib cfg seed clk headers request st = (Inr (rsp, events), st')"
    and "rsp_body rsp = SubmitBody msg cid n"
  obtains k result t where
    "extract_auth_from_headers env (lb_jwt lib) (clk 9) headers cfg = Inr (ApiKeyAuth k)"
    and "ap_chain t = ap_chain st"
    and "validate_request (value_js env) request = Inr ()"
    and "store_data env lib seed clk (extract_client_ip headers) result k (hash_api_key_hex env k) request t
           = (Inr (rsp, events), st')"
proof -
  from assms(1) obtain auth where auth: "extract_auth_from_headers env (lb_jwt lib) (clk 9) headers cfg = Inr auth"
    by (auto simp: submit_data_def res_iff)
  with assms(1) obtain k where k: "auth = ApiKeyAuth k"
    by (cases auth) (auto simp: submit_data_def res_iff)
  let ?ip = "extract_client_ip headers" and ?h = "hash_api_key_hex env k"
  from assms(1) auth k obtain result t where
    rate: "rate_check env lib clk 10 ?h ?ip True st = (Inr result, t)"
    and rest: "(case banned_response lib clk result of
              Some rsp \<Rightarrow> retS (rsp, [])
            | None \<Rightarrow>
                (\<lambda>st.
                   if find_account_with_hash env (ap_chain st) k (Some ?h) = None
                   then (Err (Unauthorized ''Account not found''), st)
                   else
                     bindS (liftS (validate_request (value_js env) request)) (\<lambda>_ st.
                     case validator_turn (ap_chain st) of
                       Inl e \<Rightarrow> (Inl e, st)
                     | Inr (next_block_number, True) \<Rightarrow>
                         store_data env lib seed clk ?ip result k ?h request st
                     | Inr (next_block_number, False) \<Rightarrow>
                         bindS (liftS (forward_to_validator (lb_net lib) (ap_chain st) next_block_number
                                  ''/data/submit'' (enc (lb_submit_js lib) request)
                                  (extract_auth_header headers) (extract_signature_header headers)))
                           (\<lambda>rsp. retS (rsp, [])) st) st)) t = (Inr (rsp, events), st')"
    by (auto simp: submit_data_def res_iff Let_def)
  have "banned_response lib clk result = None"
  proof (cases "banned_response lib clk result")
    case (Some r)
    then show ?thesis using rest assms(2)
      by (auto simp: banned_response_def error_response_def split: rate_limit_result.splits)
  qed
  with rest have valid: "validate_request (value_js env) request = Inr ()"
    and turn: "(case validator_turn (ap_chain t) of
                       Inl e \<Rightarrow> (Inl e, t)
                     | Inr (next_block_number, True) \<Rightarrow>
                         store_data env lib seed clk ?ip result k ?h request t
                     | Inr (next_block_number, False) \<Rightarrow>
                         bindS (liftS (forward_to_validator (lb_net lib) (ap_chain t) next_block_number
                                  ''/data/submit'' (enc (lb_submit_js lib) request)
                                  (extract_auth_header headers) (extract_signature_header headers)))
                           (\<lambda>rsp. retS (rsp, [])) t) = (Inr (rsp, events), st')"
    by (simp_all add: res_iff split: if_splits)
  have "store_data env lib seed clk ?ip result k ?h request t = (Inr (rsp, events), st')"
    using turn assms(2)
    by (auto simp: res_iff split: sum.splits prod.splits bool.splits dest!: forward_body)
  then show thesis
    using that auth k rate_check_keeps(1) [OF rate] valid by blast
qed

text \<open>What a later lookup finds.\<close>

lemma find_last: "\<forall>x\<in>set xs. \<not> P x \<Longrightarrow> P y \<Longrightarrow> find P (filter Q xs @ [y]) = Some y"
  by (induction xs) auto

lemma stored_collection_found:
  assumes env: "node_env_ok env"
    and block: "add_block env seed (snd (add_collection c bc)) = (Inr b, bc')"
    and owner: "owner_api_key_hash c = hash_api_key_hex env k"
    and new: "find_collection env bc (collection_id c) k = None"
      "\<forall>c'\<in>set (pending_collections bc). collection_id c' \<noteq> collection_id c"
  shows "find_collection env bc' (collection_id c) k = Some c"
proof -
  let ?bc = "snd (add_collection c bc)"
  from block have make: "make_block env seed ?bc = Inr b" and bc': "chain bc' = chain ?bc @ [b]"
    by (auto simp: add_block_cases)
  have "find (\<lambda>x. collection_id x = collection_id c \<and> owner_api_key_hash x = hash_api_key_hex env k)
      (filter (\<lambda>x. owner_api_key_hash x = hash_api_key_hex env k) (pending_collections bc) @ [c]) = Some c"
    by (rule find_last) (use new(2) owner in auto)
  then show ?thesis
    using new(1) owner collections_after_block [OF env make, of k]
    by (simp add: find_collection_def bc' find_collection_in_append add_collection_def)
qed

text \<open>What the decryption of a stored collection answers is decided by the rate limiter alone.\<close>

lemma decrypt_data_found:
  assumes auth: "resolve_auth env (lb_jwt lib) (clk 9) headers cfg = Inr (k, h)"
    and found: "find_collection env (ap_chain st) cid k = Some c"
    and opens: "decrypt_metadata env (value_js env) c k = Inr (collection_metadata label created)"
      "decrypt_payload env c k = Inr data" "in_i64 created"
  shows "case rate_check env lib clk 10 h (extract_client_ip headers) True st of
      (Inr (Blocked level retry n), t) \<Rightarrow> \<exists>rsp. decrypt_data env lib cfg clk headers cid st = (Inr (rsp, []), t) \<and> rsp_status rsp = 429
    | (Inr result, t) \<Rightarrow> \<exists>rsp events st'. decrypt_data env lib cfg clk headers cid st = (Inr (rsp, events), st')
        \<and> rsp_status rsp = 200 \<and> rsp_body rsp = DecryptBody (collection_id c) label data created
    | (Inl e, t) \<Rightarrow> e = Panic \<and> decrypt_data env lib cfg clk headers cid st = (Inl Panic, t)"
proof -
  let ?ip = "extract_client_ip headers"
  obtain r t where rate: "rate_check env lib clk 10 h ?ip True st = (r, t)" by fastforce
  note kept = rate_check_keeps [OF rate]
  have c: "find_collection env (ap_chain t) cid k = Some c" using found kept(1) by simp
  show ?thesis
  proof (cases r)
    case (Inl e)
    with kept(2) rate auth show ?thesis by (auto simp: decrypt_data_def bindS_def Let_def)
  next
    case (Inr result)
    show ?thesis
    proof (cases result)
      case (Blocked level retry n)
      then obtain rsp where "banned_response lib clk result = Some rsp" by (simp add: banned_response_def)
      with Blocked Inr rate auth banned_status [OF this] show ?thesis by (simp add: decrypt_data_def bindS_def Let_def)
    qed (use Inr rate auth c opens in \<open>auto simp: decrypt_data_def bindS_def Let_def banned_response_def collection_metadata_def
        ok_response_def split_def\<close>)
  qed
qed

text \<open>C12. Submitted data can be decrypted by its owner. When a submission is answered with the identifier
  of a stored collection, and that identifier was new for the owner, take any later state of the node whose chain
  extends the one after the submission. A decryption request there that authenticates with the same API key,
  directly or by a session token, is answered as the rate limiter decides: with status 429 if it blocks the
  request, with a panic if it panics (on a malformed counter in the database), and otherwise with status 200, the
  submitted label and data and the time of submission. No other answer is possible.\<close>

theorem submitted_data_decrypts:
  assumes env: "node_env_ok env" "text_codec_ok (value_js env)"
    and nonces: "length (seed_meta_nonce (ss_collection seed)) = 12"
      "length (seed_payload_nonce (ss_collection seed)) = 12"
    and request: "utf8_valid (as_bytes (sr_data request))" "in_i64 (clk 14)"
    and submit: "submit_data env lib cfg seed clk headers request st = (Inr (rsp, events), st1)"
      "rsp_body rsp = SubmitBody msg cid n"
    and key: "extract_auth_from_headers env (lb_jwt lib) (clk 9) headers cfg = Inr (ApiKeyAuth k)"
      "resolve_auth env (lb_jwt lib) (clk' 9) headers' cfg = Inr (k, h)"
    and new: "find_collection env (ap_chain st) cid k = None"
      "\<forall>c\<in>set (pending_collections (ap_chain st)). collection_id c \<noteq> cid"
    and later: "chain (ap_chain st2) = chain (ap_chain st1) @ bs"
  shows "case rate_check env lib clk' 10 h (extract_client_ip headers') True st2 of
      (Inr (Blocked level retry n), t) \<Rightarrow> \<exists>rsp'. decrypt_data env lib cfg clk' headers' cid st2 = (Inr (rsp', []), t) \<and> rsp_status rsp' = 429
    | (Inr result, t) \<Rightarrow> \<exists>rsp' events' st3. decrypt_data env lib cfg clk' headers' cid st2 = (Inr (rsp', events'), st3)
        \<and> rsp_status rsp' = 200 \<and> rsp_body rsp' = DecryptBody cid (sr_label request) (sr_data request) (clk 14)
    | (Inl e, t) \<Rightarrow> e = Panic \<and> decrypt_data env lib cfg clk' headers' cid st2 = (Inl Panic, t)"
proof -
  from submit obtain k' result t where
    k': "extract_auth_from_headers env (lb_jwt lib) (clk 9) headers cfg = Inr (ApiKeyAuth k')"
    and t: "ap_chain t = ap_chain st"
    and store: "store_data env lib seed clk (extract_client_ip headers) result k' (hash_api_key_hex env k')
      request t = (Inr (rsp, events), st1)"
    by (rule submit_data_stores)
  have kk: "k' = k" using k' key(1) by simp
  from store [unfolded kk] obtain sk c b where
    c: "encrypted_collection_new env (value_js env) (ss_collection seed) (clk 14) (sr_label request)
           (sr_data request) k (hash_api_key_hex env k) sk = Inr c"
    and block: "add_block env (ss_block seed) (snd (add_collection c (ap_chain st))) = (Inr b, ap_chain st1)"
    and body: "rsp_body rsp = SubmitBody ''Data encrypted and stored successfully'' (collection_id c) (b_index b)"
    by (rule store_data_cases) (use t in simp)
  have cid: "collection_id c = cid" using body submit(2) by simp
  have ok: "b64_ok env" "aead_ok env" using env(1) by (auto simp: node_env_ok_def)
  note opens = new_collection_decrypts [OF ok env(2) request(1) nonces c]
  have "owner_api_key_hash c = hash_api_key_hex env k"
    using c by (rule encrypted_collection_new_fields)
  from stored_collection_found [OF env(1) block this] new
  have "find_collection env (ap_chain st2) cid k = Some c"
    by (simp add: cid find_collection_def later find_collection_in_append)
  from decrypt_data_found [where clk = clk', OF key(2) this opens(2,1) request(2)] show ?thesis unfolding cid .
qed

section \<open>Sessions\<close>

lemma login_cases:
  assumes "login env lib cfg nonce clk headers request_key st = (Inr (rsp, events), st')"
    and "rsp_body rsp = LoginBody token expires aid"
  obtains k account where "decode_api_key env request_key = Inr k"
    and "find_account env (ap_chain st) k = Some account" and "account_id account = aid"
    and "is_ok (verify_api_key_hash_precomputed env (Some (hash_api_key_hex env k)) k (acc_api_key_hash account))"
    and "generate_session_token env (lb_jwt lib) nonce (clk 14) aid k (hash_api_key_hex env k) cfg = Inr token"
    and "ap_chain st' = ap_chain st"
proof -
  from assms(1) obtain k where k: "decode_api_key env request_key = Inr k"
    by (auto simp: login_def split: sum.splits)
  with assms(1) obtain account where
    a: "find_account_with_hash env (ap_chain st) k (Some (hash_api_key_hex env k)) = Some account"
    by (auto simp: login_def Let_def split: option.splits)
  have ok: "is_ok (verify_api_key_hash_precomputed env (Some (hash_api_key_hex env k)) k (acc_api_key_hash account))"
    using assms(1) k a by (auto simp: login_def Let_def split: if_splits)
  obtain token' where tok: "generate_session_token env (lb_jwt lib) nonce (clk 14) (account_id account) k
      (hash_api_key_hex env k) cfg = Inr token'"
    using assms(1) k a ok by (auto simp: login_def Let_def split: sum.splits)
  from assms(1) k a ok tok have
    st': "st' = snd (audit env (clk 13) k AccountLogin None (extract_client_ip headers)
            (JObject [(''account_id'', JString (account_id account))]) st)"
    and "rsp_body rsp = LoginBody token' 3600 (account_id account)"
    by (auto simp: login_def Let_def split_def)
  then have "token' = token" "account_id account = aid" using assms(2) by simp_all
  moreover have "ap_chain st' = ap_chain st" by (simp add: st' audit_keeps)
  moreover have "find_account env (ap_chain st) k = Some account"
    using a by (simp add: find_account_def find_account_with_hash_def)
  ultimately show thesis using that k ok tok by blast
qed

text \<open>C13. A login gives the session of the account. When a login is answered with a token, the
  API key that was presented opens an account on the chain, filed under the key's hash, and the
  answer names it; for an hour, every handler resolves the token to exactly the pair of API key and
  key hash that it would get from the key itself.\<close>

theorem login_session:
  assumes "hex_ok env" and "ct_ok env" and "b64_ok env" and "aead_ok env" and "jwt_ok (lb_jwt lib)"
    and "length nonce = 12"
    and "login env lib cfg nonce clk headers request_key st = (Inr (rsp, events), st')"
    and "rsp_body rsp = LoginBody token expires aid"
    and "headers' ''authorization'' = Some (Inr (''Bearer '' @ token))" and "now \<le> clk 14 + 3600"
  shows "\<exists>k account. decode_api_key env request_key = Inr k
    \<and> resolve_auth env (lb_jwt lib) now headers' cfg = Inr (k, hash_api_key_hex env k)
    \<and> find_account env (ap_chain st') k = Some account \<and> account_id account = aid
    \<and> hex_decode env (acc_api_key_hash account) = Inr (hash_api_key env k)"
proof -
  from assms(7,8) obtain k account where k: "decode_api_key env request_key = Inr k"
    and account: "find_account env (ap_chain st) k = Some account" "account_id account = aid"
    and verified: "is_ok (verify_api_key_hash_precomputed env (Some (hash_api_key_hex env k)) k (acc_api_key_hash account))"
    and token: "generate_session_token env (lb_jwt lib) nonce (clk 14) aid k (hash_api_key_hex env k) cfg = Inr token"
    and chain: "ap_chain st' = ap_chain st"
    by (rule login_cases)
  from token obtain s where s: "encrypt_api_key_for_jwt env nonce k cfg = Inr s"
    and jwt: "jwt_encode (lb_jwt lib) (cfg_jwt_secret cfg)
          \<lparr>cl_sub = aid, cl_api_key_hash = hash_api_key_hex env k, cl_encrypted_api_key = s,
           cl_exp = clk 14 + 3600, cl_iat = clk 14\<rparr> = Inr token"
    by (rule generate_session_token_cases)
  have "jwt_decode (lb_jwt lib) (cfg_jwt_secret cfg) now token = Inr
          \<lparr>cl_sub = aid, cl_api_key_hash = hash_api_key_hex env k, cl_encrypted_api_key = s,
           cl_exp = clk 14 + 3600, cl_iat = clk 14\<rparr>"
    using assms(5,10) jwt unfolding jwt_ok_def by force
  then have "resolve_auth env (lb_jwt lib) now headers' cfg = Inr (k, hash_api_key_hex env k)"
    using decrypt_encrypt_api_key [OF assms(3,4,6) s]
    unfolding resolve_auth_def extract_auth_from_headers_def assms(9)
    by (simp add: verify_session_token_def del: append.simps)
  moreover have "hex_decode env (acc_api_key_hash account) = Inr (hash_api_key env k)"
    using verified hash_comparison [OF assms(1,2)] by (auto simp: is_ok_iff)
  ultimately show ?thesis using k account chain by auto
qed

section \<open>A concrete node\<close>

text \<open>A node with one account on its first block.\<close>

definition demo_key :: bytes where "demo_key = replicate 32 9"

definition demo_account :: user_account where
  "demo_account = \<lparr>account_id = ''a'', acc_api_key_hash = hash_api_key_hex demo_env demo_key,
     acc_public_key = ''p'', created_at = 5, metadata_encrypted = None, acc_signature = ''s''\<rparr>"

definition demo_api :: "claims \<Rightarrow> (demo_db, rate_limit_cache_entry demo_cache) api_libs" where
  "demo_api c = \<lparr>lb_audit = demo_audit [], lb_rate = demo_rate, lb_jwt = demo_jwt c,
     lb_net = \<lparr>hn_connect = (\<lambda>_ _. None), hn_write = (\<lambda>_ _. Completed ()), hn_read = (\<lambda>_ _. TimedOut)\<rparr>,
     lb_header_value_ok = (\<lambda>_. True), lb_submit_js = str_codec (table_codec []),
     lb_account_js = str_codec (table_codec []), lb_bypass = UNIV\<rparr>"

definition demo_api_state :: "(demo_db, rate_limit_cache_entry demo_cache) api_state" where
  "demo_api_state = \<lparr>ap_logger = audit_logger_new
       ((demo_bc 0 [] [])\<lparr>chain := [(demo_genesis 0)\<lparr>b_encrypted_block_data := []\<rparr>],
          node_signing_key := Some [2]\<rparr>) [] False False,
     ap_rate_cache = lru_new demo_lru 10\<rparr>"

definition bearer_headers :: "string \<Rightarrow> header_map" where
  "bearer_headers token name = (if name = ''authorization'' then Some (Inr (''Bearer '' @ token)) else None)"

lemma demo_api_simps [simp]:
  "lb_audit (demo_api c) = demo_audit []" "lb_jwt (demo_api c) = demo_jwt c" "lb_bypass (demo_api c) = UNIV"
  by (simp_all add: demo_api_def)

lemma demo_envelope:
  obtains e where "encrypt_account_envelope demo_env (str_codec (table_codec [demo_account])) (replicate 12 1)
    demo_account demo_key ''s'' = Inr e"
proof -
  have "enc (str_codec (table_codec [demo_account])) demo_account = Inr []"
    by (simp add: str_codec_def table_codec_def of_bytes_def)
  then have "\<exists>e. encrypt_account_envelope demo_env (str_codec (table_codec [demo_account])) (replicate 12 1)
    demo_account demo_key ''s'' = Inr e"
    by (simp add: encrypt_account_envelope_def encrypt_data_with_key_def encrypt_data_with_nonce_def Let_def)
  with that show thesis by blast
qed

lemma demo_account_found:
  assumes e: "encrypt_account_envelope demo_env (str_codec (table_codec [demo_account])) (replicate 12 1)
    demo_account demo_key ''s'' = Inr e"
  shows "find_account (demo_node (demo_container [e] [] # cs) [demo_account] js) (ap_chain demo_api_state) demo_key
    = Some demo_account"
proof -
  let ?env = "demo_node (demo_container [e] [] # cs) [demo_account] js"
  let ?g = "(demo_genesis 0)\<lparr>b_encrypted_block_data := []\<rparr>"
  have sealed: "encrypt_account_envelope ?env (str_codec (table_codec [demo_account])) (replicate 12 1)
    demo_account demo_key ''s'' = Inr e" using e by (simp add: demo_node_envelope)
  have opens: "decrypt_account_envelope ?env (str_codec (table_codec [demo_account])) e demo_key ''s'' = Inr demo_account
      \<and> env_api_key_hash e = hash_api_key_hex ?env demo_key"
    by (rule decrypt_encrypt_envelope [OF demo_node_ok(2,3) str_table_codec_ok _ sealed]) simp
  have "get_envelope_container ?env (container_js ?env) ?g = Inr (demo_container [e] [])"
    by (simp add: get_envelope_container_def demo_env_def str_codec_def table_codec_def)
  then have "get_account ?env (container_js ?env) (account_js ?env) ?g demo_key = Inr (Some demo_account)"
    using opens by (simp add: get_account_def Let_def demo_container_def demo_genesis_def)
  then show ?thesis
    by (simp add: find_account_def find_account_with_hash_def demo_api_state_def audit_logger_new_def
        should_search_block_def demo_genesis_def)
qed

lemma demo_rate_check: "\<exists>t. rate_check env (demo_api c) clk n h ip w st = (Inr (Allowed 9999 9999 (clk 0 + 60)), t)"
  by (simp add: rate_check_def check_limit_def check_with_def Let_def)

text \<open>A direct request with the API key: no token of the demo library is decoded.\<close>

lemma demo_direct_auth:
  "extract_auth_from_headers (demo_node cs as js) (demo_jwt c) now (bearer_headers (of_bytes demo_key)) cfg
     = Inr (ApiKeyAuth demo_key)"
proof -
  have "of_bytes demo_key \<noteq> ''t''"
  proof
    assume "of_bytes demo_key = ''t''"
    then have "length (of_bytes demo_key) = length ''t''" by (rule arg_cong)
    then show False by (simp add: demo_key_def)
  qed
  then show ?thesis
    by (simp add: extract_auth_from_headers_def bearer_headers_def verify_session_token_def demo_jwt_def
        decode_api_key_def demo_env_def validate_api_key_def del: append.simps)
      (simp add: demo_key_def)
qed

theorem login_session_witness:
  "\<exists>e s rsp events st'.
     let env = demo_node [demo_container [e] []] [demo_account] [];
         c = \<lparr>cl_sub = ''a'', cl_api_key_hash = hash_api_key_hex demo_env demo_key, cl_encrypted_api_key = s,
              cl_exp = 3700, cl_iat = 100\<rparr>
     in login env (demo_api c) demo_cfg (replicate 12 1) (\<lambda>_. 100) (\<lambda>_. None) (of_bytes demo_key) demo_api_state
          = (Inr (rsp, events), st')
        \<and> rsp_body rsp = LoginBody ''t'' 3600 ''a''
        \<and> resolve_auth env (demo_jwt c) 200 (bearer_headers ''t'') demo_cfg
            = Inr (demo_key, hash_api_key_hex env demo_key)"
proof -
  obtain e where e: "encrypt_account_envelope demo_env (str_codec (table_codec [demo_account])) (replicate 12 1)
    demo_account demo_key ''s'' = Inr e" by (rule demo_envelope)
  let ?env = "demo_node [demo_container [e] []] [demo_account] []"
  have "\<exists>s. encrypt_api_key_for_jwt ?env (replicate 12 1) demo_key demo_cfg = Inr s"
    by (simp add: encrypt_api_key_for_jwt_def Let_def)
  then obtain s where s: "encrypt_api_key_for_jwt ?env (replicate 12 1) demo_key demo_cfg = Inr s" by blast
  let ?c = "\<lparr>cl_sub = ''a'', cl_api_key_hash = hash_api_key_hex demo_env demo_key, cl_encrypted_api_key = s,
              cl_exp = 3700, cl_iat = 100\<rparr>"
  have found: "find_account_with_hash ?env (ap_chain demo_api_state) demo_key
      (Some (hash_api_key_hex ?env demo_key)) = Some demo_account"
    using demo_account_found [OF e, of "[]" "[]"] by (simp add: find_account_def find_account_with_hash_def)
  have "hex_decode ?env (acc_api_key_hash demo_account) = Inr (hash_api_key ?env demo_key)"
  proof -
    have "acc_api_key_hash demo_account = hash_api_key_hex ?env demo_key"
      by (simp only: demo_account_def demo_node_keys user_account.simps)
    then show ?thesis unfolding hash_api_key_hex_def by (simp only: hex_okD [OF demo_node_ok(1)])
  qed
  then have verified: "verify_api_key_hash_precomputed ?env (Some (hash_api_key_hex ?env demo_key)) demo_key
      (acc_api_key_hash demo_account) = Inr ()"
    using hash_comparison [OF demo_node_ok(1,5)] by blast
  have token: "generate_session_token ?env (demo_jwt ?c) (replicate 12 1) 100 ''a'' demo_key
      (hash_api_key_hex ?env demo_key) demo_cfg = Inr ''t''"
    by (simp add: generate_session_token_def s demo_jwt_def demo_node_keys)
  have decode: "decode_api_key ?env (of_bytes demo_key) = Inr demo_key"
    by (simp add: decode_api_key_def demo_env_def)
  have "\<exists>rsp events st'. login ?env (demo_api ?c) demo_cfg (replicate 12 1) (\<lambda>_. 100) (\<lambda>_. None)
        (of_bytes demo_key) demo_api_state = (Inr (rsp, events), st') \<and> rsp_body rsp = LoginBody ''t'' 3600 ''a''"
    using found verified token decode
    by (simp add: login_def Let_def split_def demo_account_def)
  then obtain rsp events st' where
    login: "login ?env (demo_api ?c) demo_cfg (replicate 12 1) (\<lambda>_. 100) (\<lambda>_. None)
        (of_bytes demo_key) demo_api_state = (Inr (rsp, events), st')"
    and body: "rsp_body rsp = LoginBody ''t'' 3600 ''a''" by blast
  have "bearer_headers ''t'' ''authorization'' = Some (Inr (''Bearer '' @ ''t''))"
    by (simp add: bearer_headers_def)
  from login_session [where headers' = "bearer_headers ''t''" and clk = "\<lambda>_. 100" and now = 200,
      OF demo_node_ok(1,5,2,3) _ _ login body this]
  have "resolve_auth ?env (demo_jwt ?c) 200 (bearer_headers ''t'') demo_cfg
      = Inr (demo_key, hash_api_key_hex ?env demo_key)"
    using decode by (auto simp: demo_jwt_ok)
  with login body show ?thesis unfolding Let_def by blast
qed

definition demo_submit :: submit_seed where
  "demo_submit = \<lparr>ss_collection = \<lparr>seed_uuid = ''id'', seed_salt = [3], seed_meta_nonce = replicate 12 1,
       seed_payload_nonce = replicate 12 2\<rparr>, ss_block = demo_seed 172800 0\<rparr>"

lemma demo_commit:
  assumes "demo_container [] [c] \<in> set cs"
  shows "\<exists>b. make_block (demo_node cs as js) (demo_seed 172800 0)
    (snd (add_collection c (ap_chain demo_api_state))) = Inr b"
proof -
  have "\<exists>s. enc (str_codec (table_codec cs)) (demo_container [] [c]) = Inr s"
    using assms by (simp add: str_codec_def table_codec_def)
  then show ?thesis
    by (auto simp: make_block_def get_latest_block_def is_authorized_validator_def Let_def
        demo_api_state_def audit_logger_new_def add_collection_def
        generate_block_salt_def demo_seed_def block_new_def demo_container_def)
qed

text \<open>The data is the JSON value \<open>null\<close> in the demo serializer.\<close>

lemma demo_submission:
  obtains e c rsp events st1 where
    "submit_data (demo_node [demo_container [e] [], demo_container [] [c]] [demo_account]
         [collection_metadata ''label'' 172800, JNull]) (demo_api cl) demo_cfg demo_submit (\<lambda>_. 172800)
       (bearer_headers (of_bytes demo_key)) \<lparr>sr_label = ''label'', sr_data = [CHR 0x01]\<rparr> demo_api_state
     = (Inr (rsp, events), st1)"
    and "rsp_body rsp = SubmitBody ''Data encrypted and stored successfully'' ''id'' 1"
    and "find_collection (demo_node [demo_container [e] [], demo_container [] [c]] [demo_account]
         [collection_metadata ''label'' 172800, JNull]) (ap_chain demo_api_state) ''id'' demo_key = None"
proof -
  obtain e where e: "encrypt_account_envelope demo_env (str_codec (table_codec [demo_account])) (replicate 12 1)
    demo_account demo_key ''s'' = Inr e" by (rule demo_envelope)
  let ?js = "[collection_metadata ''label'' 172800, JNull]"
  have "\<exists>c. encrypted_collection_new demo_env (str_codec (table_codec ?js)) (ss_collection demo_submit) 172800
      ''label'' [CHR 0x01] demo_key (hash_api_key_hex demo_env demo_key) [2] = Inr c"
    by (simp add: encrypted_collection_new_def Let_def str_codec_def table_codec_def of_bytes_def
        encrypt_data_with_key_def encrypt_data_with_nonce_def demo_submit_def)
  then obtain c where c: "encrypted_collection_new demo_env (str_codec (table_codec ?js)) (ss_collection demo_submit)
      172800 ''label'' [CHR 0x01] demo_key (hash_api_key_hex demo_env demo_key) [2] = Inr c" by blast
  let ?env = "demo_node [demo_container [e] [], demo_container [] [c]] [demo_account] ?js"
  let ?req = "\<lparr>sr_label = ''label'', sr_data = [CHR 0x01]\<rparr>" and ?h = "hash_api_key_hex ?env demo_key"
  obtain b where b: "make_block ?env (demo_seed 172800 0) (snd (add_collection c (ap_chain demo_api_state))) = Inr b"
    using demo_commit [of c "[demo_container [e] [], demo_container [] [c]]" "[demo_account]" ?js] by auto
  have cid: "collection_id c = ''id''"
    using c by (rule encrypted_collection_new_fields) (simp add: demo_submit_def)
  have index: "b_index b = 1"
    using b by (rule make_block_cases) (simp add: demo_api_state_def audit_logger_new_def add_collection_def)
  obtain t where rate: "rate_check ?env (demo_api cl) (\<lambda>_. 172800) 10 ?h
      (extract_client_ip (bearer_headers (of_bytes demo_key))) True demo_api_state = (Inr (Allowed 9999 9999 172860), t)"
    using demo_rate_check [of ?env cl "\<lambda>_. 172800" 10 ?h] by fastforce
  note t = rate_check_keeps(1) [OF rate]
  have account: "find_account_with_hash ?env (ap_chain t) demo_key (Some ?h) = Some demo_account"
    using demo_account_found [OF e, of "[demo_container [] [c]]" ?js]
    by (simp add: t find_account_def find_account_with_hash_def)
  have valid: "validate_request (value_js ?env) ?req = Inr ()"
    by (simp add: validate_request_def validate_label_def LABEL_VALIDATOR_def label_char_def
        validate_json_structure_def check_json_depth.simps str_codec_def table_codec_def)
  have turn: "validator_turn (ap_chain t) = Inr (1, True)"
    by (simp add: t validator_turn_def is_authorized_validator_def demo_api_state_def audit_logger_new_def)
  have "\<exists>rsp events st1. store_data ?env (demo_api cl) demo_submit (\<lambda>_. 172800)
      (extract_client_ip (bearer_headers (of_bytes demo_key))) (Allowed 9999 9999 172860) demo_key ?h ?req t
        = (Inr (rsp, events), st1)
      \<and> rsp_body rsp = SubmitBody ''Data encrypted and stored successfully'' ''id'' 1"
  proof -
    have "node_signing_key (ap_chain t) = Some [2]"
      by (simp add: t demo_api_state_def audit_logger_new_def)
    moreover have "encrypted_collection_new ?env (value_js ?env) (ss_collection demo_submit) 172800
        ''label'' [CHR 0x01] demo_key ?h [2] = Inr c"
      using c by (simp only: demo_node_collection demo_node_keys demo_node_simps)
    moreover have "\<exists>u. commit_block ?env (demo_api cl) (ss_block demo_submit)
        (t\<lparr>ap_logger := (ap_logger t)\<lparr>al_blockchain := snd (add_collection c (ap_chain t))\<rparr>\<rparr>) = (Inr b, u)"
      using b by (simp add: commit_block_def add_block_def demo_submit_def t)
    ultimately show ?thesis
      using cid index by (auto simp: store_data_def bindS_def Let_def split_def)
  qed
  then obtain rsp events st1 where
    store: "store_data ?env (demo_api cl) demo_submit (\<lambda>_. 172800)
      (extract_client_ip (bearer_headers (of_bytes demo_key))) (Allowed 9999 9999 172860) demo_key ?h ?req t
        = (Inr (rsp, events), st1)"
    and body: "rsp_body rsp = SubmitBody ''Data encrypted and stored successfully'' ''id'' 1" by blast
  have "submit_data ?env (demo_api cl) demo_cfg demo_submit (\<lambda>_. 172800)
      (bearer_headers (of_bytes demo_key)) ?req demo_api_state = (Inr (rsp, events), st1)"
    using demo_direct_auth rate account valid turn store
    by (simp add: submit_data_def bindS_def Let_def banned_response_def)
  moreover have "get_envelope_container ?env (container_js ?env) ((demo_genesis 0)\<lparr>b_encrypted_block_data := []\<rparr>)
      = Inr (demo_container [e] [])"
    by (simp add: get_envelope_container_def demo_env_def str_codec_def table_codec_def)
  then have "find_collection ?env (ap_chain demo_api_state) ''id'' demo_key = None"
    by (simp add: find_collection_def demo_api_state_def audit_logger_new_def get_collections_by_owner_def
        demo_container_def Let_def)
  ultimately show thesis using body that by blast
qed

theorem submitted_data_decrypts_witness:
  "\<exists>cl e c rsp events st1 rsp' events' st2.
     let env = demo_node [demo_container [e] [], demo_container [] [c]] [demo_account]
           [collection_metadata ''label'' 172800, JNull];
         headers = bearer_headers (of_bytes demo_key)
     in submit_data env (demo_api cl) demo_cfg demo_submit (\<lambda>_. 172800) headers
          \<lparr>sr_label = ''label'', sr_data = [CHR 0x01]\<rparr> demo_api_state = (Inr (rsp, events), st1)
        \<and> rsp_body rsp = SubmitBody ''Data encrypted and stored successfully'' ''id'' 1
        \<and> decrypt_data env (demo_api cl) demo_cfg (\<lambda>_. 172900) headers ''id'' st1 = (Inr (rsp', events'), st2)
        \<and> rsp_status rsp' = 200 \<and> rsp_body rsp' = DecryptBody ''id'' ''label'' [CHR 0x01] 172800"
proof -
  fix cl
  obtain e c rsp events st1 where
    submit: "submit_data (demo_node [demo_container [e] [], demo_container [] [c]] [demo_account]
         [collection_metadata ''label'' 172800, JNull]) (demo_api cl) demo_cfg demo_submit (\<lambda>_. 172800)
       (bearer_headers (of_bytes demo_key)) \<lparr>sr_label = ''label'', sr_data = [CHR 0x01]\<rparr> demo_api_state
     = (Inr (rsp, events), st1)"
    and body: "rsp_body rsp = SubmitBody ''Data encrypted and stored successfully'' ''id'' 1"
    and new: "find_collection (demo_node [demo_container [e] [], demo_container [] [c]] [demo_account]
         [collection_metadata ''label'' 172800, JNull]) (ap_chain demo_api_state) ''id'' demo_key = None"
    by (rule demo_submission [of cl])
  let ?env = "demo_node [demo_container [e] [], demo_container [] [c]] [demo_account]
         [collection_metadata ''label'' 172800, JNull]"
  obtain t where rate: "rate_check ?env (demo_api cl) (\<lambda>_. 172900) 10 (hash_api_key_hex ?env demo_key)
      (extract_client_ip (bearer_headers (of_bytes demo_key))) True st1 = (Inr (Allowed 9999 9999 172960), t)"
    using demo_rate_check [of ?env cl "\<lambda>_. 172900" 10 "hash_api_key_hex ?env demo_key"] by fastforce
  have ok: "node_env_ok ?env" unfolding node_env_ok_def by (intro conjI demo_node_ok)
  have nonces: "length (seed_meta_nonce (ss_collection demo_submit)) = 12"
    "length (seed_payload_nonce (ss_collection demo_submit)) = 12" by (simp_all add: demo_submit_def)
  have "utf8_valid (as_bytes (sr_data \<lparr>sr_label = ''label'', sr_data = [CHR 0x01]\<rparr>))"
    by (simp add: as_bytes_def)
  note trip = submitted_data_decrypts [OF ok demo_node_ok(9) nonces this, where clk = "\<lambda>_. 172800"
      and clk' = "\<lambda>_. 172900" and headers' = "bearer_headers (of_bytes demo_key)", OF _ submit body]
  have direct: "extract_auth_from_headers ?env (lb_jwt (demo_api cl)) now (bearer_headers (of_bytes demo_key)) demo_cfg
      = Inr (ApiKeyAuth demo_key)" for now by (simp add: demo_direct_auth del: demo_node_simps)
  then have "resolve_auth ?env (lb_jwt (demo_api cl)) 172900 (bearer_headers (of_bytes demo_key)) demo_cfg
      = Inr (demo_key, hash_api_key_hex ?env demo_key)" by (simp add: resolve_auth_def)
  moreover have "pending_collections (ap_chain demo_api_state) = []"
    by (simp add: demo_api_state_def audit_logger_new_def)
  ultimately obtain rsp' events' st2 where "decrypt_data ?env (demo_api cl) demo_cfg (\<lambda>_. 172900)
      (bearer_headers (of_bytes demo_key)) ''id'' st1 = (Inr (rsp', events'), st2)"
    and "rsp_status rsp' = 200" "rsp_body rsp' = DecryptBody ''id'' ''label'' [CHR 0x01] 172800"
    using trip [OF _ direct _ new _ append_Nil2 [symmetric]] rate by (auto simp: in_i64_def)
  with submit body show ?thesis unfolding Let_def by blast
qed

end
