(* ===== verification/Goud_WebSocket.thy ===== *)
theory Goud_WebSocket
  imports Goud_Audit
begin

text \<open>
  The WebSocket broadcaster (\<open>src/api/websocket.rs\<close>): connections with their subscriptions, client
  messages, and the events sent to subscribers. The messages put into the channel of a connection are
  kept in order; a send fails when the receiving task is gone. A client message and a broadcast take the lock of
  the connections twice, and several broadcasts can hold it at the same time to read; so the steps between which other
  tasks can run are the parts of these operations, and delivery is shown for every interleaving of them.
\<close>

section \<open>Messages and connections\<close>

datatype event_type = BlockchainUpdate | CollectionUpdate | PeerUpdate | MetricsUpdate | AuditLogUpdate

datatype client_message = Subscribe event_type | Unsubscribe event_type | Ping

datatype server_message =
    Event (se_event: event_type) (se_data: json)
  | Pong
  | ErrorMessage string
  | Subscribed event_type
  | Unsubscribed event_type

record ws_connection =
  wc_open :: bool
  wc_sent :: "server_message list"
  wc_subscriptions :: "event_type set"
  wc_api_key :: "bytes option"

type_synonym broadcaster = "string \<rightharpoonup> ws_connection"

section \<open>Operations\<close>

definition broadcaster_new :: broadcaster where
  "broadcaster_new = Map.empty"

definition add_connection :: "string \<Rightarrow> bytes option \<Rightarrow> broadcaster \<Rightarrow> broadcaster" where
  "add_connection conn api_key conns =
     conns(conn \<mapsto> \<lparr>wc_open = True, wc_sent = [], wc_subscriptions = {}, wc_api_key = api_key\<rparr>)"

definition remove_connection :: "string \<Rightarrow> broadcaster \<Rightarrow> broadcaster" where
  "remove_connection conn conns = conns(conn := None)"

definition ws_subscribe :: "string \<Rightarrow> event_type \<Rightarrow> (broadcaster, fail, unit) act" where
  "ws_subscribe conn event conns =
     (case conns conn of
        Some c \<Rightarrow> (Inr (), conns(conn \<mapsto> c\<lparr>wc_subscriptions := insert event (wc_subscriptions c)\<rparr>))
      | None \<Rightarrow> (Err (Internal ''Connection not found''), conns))"

definition ws_unsubscribe :: "string \<Rightarrow> event_type \<Rightarrow> (broadcaster, fail, unit) act" where
  "ws_unsubscribe conn event conns =
     (case conns conn of
        Some c \<Rightarrow> (Inr (), conns(conn \<mapsto> c\<lparr>wc_subscriptions := wc_subscriptions c - {event}\<rparr>))
      | None \<Rightarrow> (Err (Internal ''Connection not found''), conns))"

text \<open>\<open>tx.send\<close>: the message is dropped when the channel is closed.\<close>

definition ws_send :: "string \<Rightarrow> server_message \<Rightarrow> broadcaster \<Rightarrow> broadcaster" where
  "ws_send conn msg conns =
     (case conns conn of
        Some c \<Rightarrow> if wc_open c then conns(conn \<mapsto> c\<lparr>wc_sent := wc_sent c @ [msg]\<rparr>) else conns
      | None \<Rightarrow> conns)"

text \<open>The sending task is gone, and with it the receiving half of the channel; the connection is still registered.\<close>

definition close_channel :: "string \<Rightarrow> broadcaster \<Rightarrow> broadcaster" where
  "close_channel conn conns =
     (case conns conn of Some c \<Rightarrow> conns(conn \<mapsto> c\<lparr>wc_open := False\<rparr>) | None \<Rightarrow> conns)"

definition connection_count :: "broadcaster \<Rightarrow> nat" where
  "connection_count conns = card (dom conns)"

text \<open>A broadcast first sends, under the lock to read: one step of its loop for each connection. The identifiers of
  the subscribers whose channel is closed are collected and removed afterwards, under the lock to write.\<close>

definition deliver_event :: "event_type \<Rightarrow> json \<Rightarrow> ws_connection \<Rightarrow> ws_connection" where
  "deliver_event event data c =
     (if event \<in> wc_subscriptions c \<and> wc_open c then c\<lparr>wc_sent := wc_sent c @ [Event event data]\<rparr> else c)"

definition broadcast_sends :: "event_type \<Rightarrow> json \<Rightarrow> broadcaster \<Rightarrow> broadcaster" where
  "broadcast_sends event data conns conn = map_option (deliver_event event data) (conns conn)"

definition broadcast_failed :: "event_type \<Rightarrow> broadcaster \<Rightarrow> string \<Rightarrow> bool" where
  "broadcast_failed event conns conn \<longleftrightarrow>
     (case conns conn of Some c \<Rightarrow> event \<in> wc_subscriptions c \<and> \<not> wc_open c | None \<Rightarrow> False)"

definition remove_failed :: "(string \<Rightarrow> bool) \<Rightarrow> broadcaster \<Rightarrow> broadcaster" where
  "remove_failed failed conns conn = (if failed conn then None else conns conn)"

definition broadcast :: "event_type \<Rightarrow> json \<Rightarrow> broadcaster \<Rightarrow> broadcaster" where
  "broadcast event data conns = remove_failed (broadcast_failed event conns) (broadcast_sends event data conns)"

definition broadcast_blockchain_update :: "i64 \<Rightarrow> u64 \<Rightarrow> string \<Rightarrow> broadcaster \<Rightarrow> broadcaster" where
  "broadcast_blockchain_update now block_index block_hash =
     broadcast BlockchainUpdate (JObject [(''block_hash'', JString block_hash),
       (''block_index'', json_of_u64 block_index), (''timestamp'', json_of_i64 now)])"

definition broadcast_collection_update :: "i64 \<Rightarrow> string \<Rightarrow> u64 \<Rightarrow> broadcaster \<Rightarrow> broadcaster" where
  "broadcast_collection_update now cid block_index =
     broadcast CollectionUpdate (JObject [(''block_index'', json_of_u64 block_index),
       (''collection_id'', JString cid), (''timestamp'', json_of_i64 now)])"

definition broadcast_peer_update :: "i64 \<Rightarrow> u64 \<Rightarrow> broadcaster \<Rightarrow> broadcaster" where
  "broadcast_peer_update now peer_count =
     broadcast PeerUpdate (JObject [(''peer_count'', json_of_u64 peer_count), (''timestamp'', json_of_i64 now)])"

definition broadcast_audit_log_update ::
  "audit_event_type \<Rightarrow> i64 \<Rightarrow> string option \<Rightarrow> json \<Rightarrow> broadcaster \<Rightarrow> broadcaster" where
  "broadcast_audit_log_update t timestamp cid metadata =
     broadcast AuditLogUpdate (JObject
       [(''collection_id'', case cid of Some s \<Rightarrow> JString s | None \<Rightarrow> JNull), (''confirmed'', JBool False),
        (''event_type'', JString (show_event_type t)), (''metadata'', metadata),
        (''timestamp'', json_of_i64 timestamp)])"

text \<open>The identity of the client is the API key it sends, if it decodes; a connection without one is accepted.\<close>

definition upgrade_api_key :: "'z crypto_env_scheme \<Rightarrow> string option \<Rightarrow> bytes option" where
  "upgrade_api_key env token =
     (case token of
        Some t \<Rightarrow> (case decode_api_key env t of Inr key \<Rightarrow> Some key | Inl _ \<Rightarrow> None)
      | None \<Rightarrow> None)"

text \<open>The lock is released between the change of the subscription and the confirmation; this is the message handled
  without other tasks in between, \<open>message_steps\<close> below gives its parts.\<close>

definition handle_client_message :: "string \<Rightarrow> client_message \<Rightarrow> broadcaster \<Rightarrow> broadcaster" where
  "handle_client_message conn msg conns =
     (case msg of
        Subscribe event \<Rightarrow>
          (case ws_subscribe conn event conns of
             (Inr _, conns) \<Rightarrow> ws_send conn (Subscribed event) conns
           | (Inl _, conns) \<Rightarrow> conns)
      | Unsubscribe event \<Rightarrow>
          (case ws_unsubscribe conn event conns of
             (Inr _, conns) \<Rightarrow> ws_send conn (Unsubscribed event) conns
           | (Inl _, conns) \<Rightarrow> conns)
      | Ping \<Rightarrow> ws_send conn Pong conns)"

text \<open>The receiving task over the frames of the socket: it ends with a close frame, a transport error or the
  end of the stream, and ignores text that does not parse.\<close>

datatype ws_frame = TextFrame string | CloseFrame | TransportError | OtherFrame

fun recv_task ::
  "(client_message, string) codec \<Rightarrow> string \<Rightarrow> ws_frame list \<Rightarrow> broadcaster \<Rightarrow> broadcaster" where
  "recv_task js conn [] conns = conns"
| "recv_task js conn (TextFrame text # frames) conns =
     recv_task js conn frames
       (case dec js text of Inr msg \<Rightarrow> handle_client_message conn msg conns | Inl _ \<Rightarrow> conns)"
| "recv_task js conn (CloseFrame # frames) conns = conns"
| "recv_task js conn (TransportError # frames) conns = conns"
| "recv_task js conn (OtherFrame # frames) conns = recv_task js conn frames conns"

text \<open>The sending task over the messages of the channel: it skips a message that cannot be serialized and ends with
  the first failing write. \<open>writes\<close> are the outcomes of the writes that have happened so far.\<close>

fun send_task :: "(server_message, string) codec \<Rightarrow> bool list \<Rightarrow> server_message list \<Rightarrow> string list" where
  "send_task js writes [] = []"
| "send_task js writes (msg # msgs) =
     (case enc js msg of
        Inl _ \<Rightarrow> send_task js writes msgs
      | Inr text \<Rightarrow> (case writes of True # writes \<Rightarrow> text # send_task js writes msgs | _ \<Rightarrow> []))"

text \<open>What reaches the socket is a beginning of the serialized messages, in their order.\<close>

lemma send_task_prefix:
  "\<exists>rest. send_task js writes msgs @ rest = concat (map (\<lambda>m. case enc js m of Inr t \<Rightarrow> [t] | Inl _ \<Rightarrow> []) msgs)"
proof (induction js writes msgs rule: send_task.induct)
  case (2 js writes msg msgs)
  then show ?case by (cases "enc js msg"; cases writes) (auto split: bool.splits)
qed simp

section \<open>What a connection receives\<close>

text \<open>What can happen to the connections, in steps between which other tasks run: a connection is registered; the
  two halves of a client message; one step of the loop of a broadcast; the removal of failed connections at its
  end; a sending task ends; a connection is removed.\<close>

datatype ws_op =
    WsConnect string "bytes option"
  | WsSubscribes string event_type
  | WsUnsubscribes string event_type
  | WsAnswers string server_message
  | WsSends string event_type json
  | WsRemoves "string list"
  | WsGone string
  | WsDisconnect string

fun ws_step :: "ws_op \<Rightarrow> broadcaster \<Rightarrow> broadcaster" where
  "ws_step (WsConnect conn key) conns = add_connection conn key conns"
| "ws_step (WsSubscribes conn event) conns = snd (ws_subscribe conn event conns)"
| "ws_step (WsUnsubscribes conn event) conns = snd (ws_unsubscribe conn event conns)"
| "ws_step (WsAnswers conn msg) conns = ws_send conn msg conns"
| "ws_step (WsSends conn event data) conns = conns(conn := map_option (deliver_event event data) (conns conn))"
| "ws_step (WsRemoves ids) conns = remove_failed (\<lambda>i. i \<in> set ids) conns"
| "ws_step (WsGone conn) conns = close_channel conn conns"
| "ws_step (WsDisconnect conn) conns = remove_connection conn conns"

fun reply :: "client_message \<Rightarrow> server_message" where
  "reply (Subscribe event) = Subscribed event"
| "reply (Unsubscribe event) = Unsubscribed event"
| "reply Ping = Pong"

fun message_steps :: "string \<Rightarrow> client_message \<Rightarrow> ws_op list" where
  "message_steps conn (Subscribe event) = [WsSubscribes conn event, WsAnswers conn (Subscribed event)]"
| "message_steps conn (Unsubscribe event) = [WsUnsubscribes conn event, WsAnswers conn (Unsubscribed event)]"
| "message_steps conn Ping = [WsAnswers conn Pong]"

text \<open>The operations of the code are these steps, one after the other.\<close>

lemma handle_client_message_steps: "handle_client_message conn msg conns = fold ws_step (message_steps conn msg) conns"
  by (cases msg) (auto simp: handle_client_message_def ws_subscribe_def ws_unsubscribe_def ws_send_def split: option.splits)

lemma broadcast_steps:
  assumes "set ids = dom conns" and "distinct ids"
  shows "broadcast event data conns
    = fold ws_step (map (\<lambda>i. WsSends i event data) ids @ [WsRemoves (filter (broadcast_failed event conns) ids)]) conns"
proof -
  have "fold ws_step (map (\<lambda>i. WsSends i event data) ids) conns
      = (\<lambda>i. if i \<in> set ids then map_option (deliver_event event data) (conns i) else conns i)" for conns
    using assms(2) by (induction ids arbitrary: conns) (auto simp: fun_eq_iff)
  moreover have "broadcast_failed event conns i \<Longrightarrow> i \<in> set ids" for i
    using assms(1) by (auto simp: broadcast_failed_def split: option.splits)
  ultimately show ?thesis
    using assms(1) by (auto simp: broadcast_def broadcast_sends_def remove_failed_def fun_eq_iff domIff)
qed

text \<open>The specification: the answers to the client's own messages, and the events that are sent while it is subscribed
  to their kind.\<close>

fun received :: "string \<Rightarrow> event_type set \<Rightarrow> ws_op list \<Rightarrow> server_message list" where
  "received conn subs [] = []"
| "received conn subs (WsSubscribes i event # ops) = received conn (if i = conn then insert event subs else subs) ops"
| "received conn subs (WsUnsubscribes i event # ops) = received conn (if i = conn then subs - {event} else subs) ops"
| "received conn subs (WsAnswers i msg # ops) = (if i = conn then [msg] else []) @ received conn subs ops"
| "received conn subs (WsSends i event data # ops) =
     (if i = conn \<and> event \<in> subs then [Event event data] else []) @ received conn subs ops"
| "received conn subs (_ # ops) = received conn subs ops"

fun touches :: "string \<Rightarrow> ws_op \<Rightarrow> bool" where
  "touches conn (WsConnect i key) \<longleftrightarrow> i = conn"
| "touches conn (WsRemoves ids) \<longleftrightarrow> conn \<in> set ids"
| "touches conn (WsGone i) \<longleftrightarrow> i = conn"
| "touches conn (WsDisconnect i) \<longleftrightarrow> i = conn"
| "touches conn _ \<longleftrightarrow> False"

text \<open>The steps of the receiving task of a connection.\<close>

fun own :: "string \<Rightarrow> ws_op \<Rightarrow> bool" where
  "own conn (WsSubscribes i event) \<longleftrightarrow> i = conn"
| "own conn (WsUnsubscribes i event) \<longleftrightarrow> i = conn"
| "own conn (WsAnswers i msg) \<longleftrightarrow> i = conn"
| "own conn _ \<longleftrightarrow> False"

text \<open>One step, seen from a registered connection.\<close>

lemma ws_step_delivers:
  assumes "conns conn = Some c" and "wc_open c" and "\<not> touches conn x"
  shows "\<exists>c'. ws_step x conns conn = Some c' \<and> wc_open c' \<and> wc_api_key c' = wc_api_key c
    \<and> wc_sent c' @ received conn (wc_subscriptions c') ops = wc_sent c @ received conn (wc_subscriptions c) (x # ops)"
  using assms
  by (cases x) (auto simp: add_connection_def remove_connection_def close_channel_def remove_failed_def deliver_event_def
      ws_subscribe_def ws_unsubscribe_def ws_send_def split: option.splits)

lemma ws_run_delivers:
  assumes "conns conn = Some c" and "wc_open c" and "\<forall>x\<in>set ops. \<not> touches conn x"
  shows "\<exists>c'. fold ws_step ops conns conn = Some c' \<and> wc_open c' \<and> wc_api_key c' = wc_api_key c
    \<and> wc_sent c' = wc_sent c @ received conn (wc_subscriptions c) ops"
  using assms
proof (induction ops arbitrary: conns c)
  case (Cons x ops)
  from ws_step_delivers [where conns = conns and x = x and ops = ops, OF Cons.prems(1,2)] Cons.prems(3)
  obtain c' where step: "ws_step x conns conn = Some c'" "wc_open c'" and "wc_api_key c' = wc_api_key c"
    and "wc_sent c' @ received conn (wc_subscriptions c') ops = wc_sent c @ received conn (wc_subscriptions c) (x # ops)"
    by auto
  with Cons.IH [where conns = "ws_step x conns", OF step] Cons.prems(3) show ?case by auto
qed simp

text \<open>Without the events, what is received are the answers of the receiving task.\<close>

fun answer_of :: "ws_op \<Rightarrow> server_message list" where
  "answer_of (WsAnswers i msg) = [msg]"
| "answer_of _ = []"

abbreviation is_event :: "server_message \<Rightarrow> bool" where
  "is_event msg \<equiv> (case msg of Event event data \<Rightarrow> True | _ \<Rightarrow> False)"

lemma message_answers: "concat (map answer_of (concat (map (message_steps conn) msgs))) = map reply msgs"
  by (induction msgs) (simp, rename_tac m ms, case_tac m, simp_all)

lemma received_answers:
  "filter (\<lambda>m. \<not> is_event m) (received conn subs ops)
    = filter (\<lambda>m. \<not> is_event m) (concat (map answer_of (filter (own conn) ops)))"
  by (induction conn subs ops rule: received.induct) auto

lemma reply_no_event: "filter (\<lambda>m. \<not> is_event m) (map reply msgs) = map reply msgs"
  by (induction msgs) (simp, rename_tac m ms, case_tac m, simp_all)



end
