(* ===== verification/Goud_Node.thy ===== *)
theory Goud_Node
  imports Goud_Shared_Db Goud_Route_Laws Goud_WebSocket
begin

text \<open>
  The running node: the state that \<open>src/main.rs\<close> shares between the HTTP handlers, the peer-to-peer
  server, the background tasks and the WebSocket connections, and one step per thing that can happen to it.
  A step is a whole handler, or a part of one after which others may run: the handlers hold the lock of the
  blockchain while they add and save a block, but not between their checks and that, the audit flush saves its block
  after releasing the lock, and the replies of peers to a synchronisation come one by one. What a handler
  spawns becomes a task that runs at any later step, in any order. The locales \<open>node_invariant\<close> and
  \<open>synced_invariant\<close> say what an invariant of chain and database has to withstand; they are interpreted
  with the durability of the chain and with its links.
\<close>

section \<open>State and steps\<close>

record ('db, 'c, 'n) node_state =
  nd_api :: "('db, 'c) api_state"
  nd_nonce_cache :: 'n
  nd_peers :: "string list"
  nd_reputation :: "string \<rightharpoonup> i32"
  nd_limiters :: "string \<rightharpoonup> rate_limit_tracker"
  nd_blacklist :: "string list"
  nd_ws :: broadcaster
  nd_tasks :: "api_event list"
  nd_unsaved :: "block list"

record ('db, 'c, 'n) node_libs =
  nl_api :: "('db, 'c) api_libs"
  nl_nonces :: "('n, nonce_entry) lru"
  nl_p2p :: "(p2p_message, bytes) codec"
  nl_test_js :: "(string, string) codec"
  nl_ws_js :: "(client_message, string) codec"

abbreviation nd_chain :: "('db, 'c, 'n) node_state \<Rightarrow> blockchain" where
  "nd_chain nd \<equiv> ap_chain (nd_api nd)"

abbreviation nd_db :: "('db, 'c, 'n) node_state \<Rightarrow> 'db" where
  "nd_db nd \<equiv> al_db (ap_logger (nd_api nd))"

abbreviation node_rocks :: "('db, 'c, 'n) node_libs \<Rightarrow> 'db rocks" where
  "node_rocks lib \<equiv> au_rocks (lb_audit (nl_api lib))"

abbreviation node_bin :: "('db, 'c, 'n) node_libs \<Rightarrow> (block, bytes) codec" where
  "node_bin lib \<equiv> au_block_bin (lb_audit (nl_api lib))"

text \<open>The views of the peer-to-peer component and of the nonce store on the shared state.\<close>

definition p2p_view :: "('db, 'c, 'n) node_state \<Rightarrow> 'db p2p_node" where
  "p2p_view nd = \<lparr>pn_peers = nd_peers nd, pn_blockchain = nd_chain nd, pn_db = nd_db nd,
     pn_reputation = nd_reputation nd, pn_limiters = nd_limiters nd, pn_blacklist = nd_blacklist nd\<rparr>"

definition set_p2p :: "'db p2p_node \<Rightarrow> ('db, 'c, 'n) node_state \<Rightarrow> ('db, 'c, 'n) node_state" where
  "set_p2p p nd = nd\<lparr>nd_api := (nd_api nd)\<lparr>ap_logger := (ap_logger (nd_api nd))\<lparr>al_blockchain := pn_blockchain p,
       al_db := pn_db p\<rparr>\<rparr>, nd_peers := pn_peers p, nd_reputation := pn_reputation p,
     nd_limiters := pn_limiters p, nd_blacklist := pn_blacklist p\<rparr>"

definition on_nonces ::
  "(('db, 'n) nonce_store, fail, 'a) act \<Rightarrow> ('db, 'c, 'n) node_state \<Rightarrow> ('db, 'c, 'n) node_state" where
  "on_nonces act nd =
     (let st = snd (act \<lparr>ns_db = nd_db nd, ns_cache = nd_nonce_cache nd\<rparr>)
      in nd\<lparr>nd_api := (nd_api nd)\<lparr>ap_logger := (ap_logger (nd_api nd))\<lparr>al_db := ns_db st\<rparr>\<rparr>,
            nd_nonce_cache := ns_cache st\<rparr>)"

text \<open>A request: the handler runs on the state, and what it spawns is queued. A handler that panics
  leaves the state as far as it got.\<close>

definition serve_request :: "('db, 'c) handler \<Rightarrow> ('db, 'c, 'n) node_state \<Rightarrow> ('db, 'c, 'n) node_state" where
  "serve_request handler nd =
     (let (r, st) = handler (nd_api nd)
      in nd\<lparr>nd_api := st, nd_tasks := nd_tasks nd @ (case r of Inr (rsp, events) \<Rightarrow> events | Inl _ \<Rightarrow> [])\<rparr>)"

text \<open>The background flush of the audit log; its blocks go to the broadcast callback.\<close>

definition flush_audit ::
  "'z node_env_scheme \<Rightarrow> 'db audit_libs \<Rightarrow> string list \<Rightarrow> (nat \<Rightarrow> flush_seed) \<Rightarrow> ('db, 'c, 'n) node_state
     \<Rightarrow> ('db, 'c, 'n) node_state" where
  "flush_audit env lib order seeds nd =
     (let (r, logger) = flush_all_batches env lib order seeds (ap_logger (nd_api nd))
      in nd\<lparr>nd_api := (nd_api nd)\<lparr>ap_logger := logger\<rparr>,
            nd_tasks := nd_tasks nd @ (case r of Inr blocks \<Rightarrow> map BroadcastBlock blocks | Inl _ \<Rightarrow> [])\<rparr>)"

text \<open>The same in two parts: a batch goes into the chain under the lock, and the block waits for being saved.\<close>

definition flush_creates ::
  "'z node_env_scheme \<Rightarrow> encrypted_collection \<Rightarrow> block_seed \<Rightarrow> ('db, 'c, 'n) node_state \<Rightarrow> ('db, 'c, 'n) node_state" where
  "flush_creates env c seed nd =
     (let (r, logger) = flush_create env seed ((ap_logger (nd_api nd))\<lparr>al_blockchain := snd (add_collection c (nd_chain nd))\<rparr>)
      in nd\<lparr>nd_api := (nd_api nd)\<lparr>ap_logger := logger\<rparr>,
            nd_unsaved := nd_unsaved nd @ (case r of Inr (Some b) \<Rightarrow> [b] | _ \<Rightarrow> [])\<rparr>)"

definition flush_saves :: "'db audit_libs \<Rightarrow> nat \<Rightarrow> ('db, 'c, 'n) node_state \<Rightarrow> ('db, 'c, 'n) node_state" where
  "flush_saves lib i nd =
     (if i < length (nd_unsaved nd)
      then let (r, logger) = flush_save lib (nd_unsaved nd ! i) (ap_logger (nd_api nd))
           in nd\<lparr>nd_api := (nd_api nd)\<lparr>ap_logger := logger\<rparr>,
                 nd_tasks := nd_tasks nd @ (case r of Inr blocks \<Rightarrow> map BroadcastBlock blocks | Inl _ \<Rightarrow> []),
                 nd_unsaved := take i (nd_unsaved nd) @ drop (Suc i) (nd_unsaved nd)\<rparr>
      else nd)"

text \<open>A spawned task. The broadcast of a block to the peers changes nothing on this node.\<close>

fun run_task :: "i64 \<Rightarrow> api_event \<Rightarrow> broadcaster \<Rightarrow> broadcaster" where
  "run_task now (BroadcastBlock b) ws = ws"
| "run_task now (CollectionEvent cid n) ws = broadcast_collection_update now cid n ws"
| "run_task now (BlockEvent n h) ws = broadcast_blockchain_update now n h ws"
| "run_task now (AuditEvent t ts cid m) ws = broadcast_audit_log_update t ts cid m ws"

datatype node_op =
    CreateAccountRequest account_seed "nat \<Rightarrow> i64" header_map "json option"
  | LoginRequest bytes "nat \<Rightarrow> i64" header_map string
  | SubmitRequest submit_seed "nat \<Rightarrow> i64" header_map submit_data_request
  | ListRequest "nat \<Rightarrow> i64" header_map
  | DecryptRequest "nat \<Rightarrow> i64" header_map string
  | AuditRequest "nat \<Rightarrow> i64" header_map audit_log_query
  | SyncRequest transport "string \<Rightarrow> nat \<Rightarrow> i64" "string list \<Rightarrow> string list"
  | SignedTestRequest "nat \<Rightarrow> i64" "string signed_request"
  | FlushTimer "string list" "nat \<Rightarrow> flush_seed"
  | NonceTimer i64
  | PeerConnects connection
  | SocketOpens string "string option"
  | SocketReceives string "ws_frame list"
  | SocketBreaks string
  | SocketCloses string
  | TaskRuns nat i64
  | SocketStep ws_op
  | AccountStored account_seed "nat \<Rightarrow> i64" string rate_limit_result "json option"
  | DataStored submit_seed "nat \<Rightarrow> i64" string rate_limit_result bytes string submit_data_request
  | SignedChecked "nat \<Rightarrow> i64" "string signed_request"
  | NonceRecorded i64 string
  | SyncReply "nat \<Rightarrow> i64" string "p2p_message res"
  | FlushCreates encrypted_collection block_seed
  | FlushSaves nat

text \<open>The last group are parts of the operations above: the steps of socket messages and broadcasts (\<open>ws_step\<close>), the
  second half of a request whose checks passed in an earlier state, the two halves of replay protection, one reply to a synchronisation, and the two halves of a batch of
  the audit flush.\<close>

fun node_step ::
  "'z node_env_scheme \<Rightarrow> ('db, 'c, 'n) node_libs \<Rightarrow> config \<Rightarrow> node_op \<Rightarrow> ('db, 'c, 'n) node_state
     \<Rightarrow> ('db, 'c, 'n) node_state" where
  "node_step env lib cfg (CreateAccountRequest seed clk headers metadata) nd =
     serve_request (create_account env (nl_api lib) seed clk headers metadata) nd"
| "node_step env lib cfg (LoginRequest nonce clk headers key) nd =
     serve_request (login env (nl_api lib) cfg nonce clk headers key) nd"
| "node_step env lib cfg (SubmitRequest seed clk headers request) nd =
     serve_request (submit_data env (nl_api lib) cfg seed clk headers request) nd"
| "node_step env lib cfg (ListRequest clk headers) nd = serve_request (list_data env (nl_api lib) cfg clk headers) nd"
| "node_step env lib cfg (DecryptRequest clk headers cid) nd =
     serve_request (decrypt_data env (nl_api lib) cfg clk headers cid) nd"
| "node_step env lib cfg (AuditRequest clk headers params) nd =
     serve_request (handle_get_audit_logs env (nl_api lib) cfg clk headers params) nd"
| "node_step env lib cfg (SyncRequest net clk order) nd =
     set_p2p (request_chain_from_peers env (nl_p2p lib) net clk order (p2p_view nd)) nd"
| "node_step env lib cfg (SignedTestRequest clk req) nd =
     on_nonces (validate_signed_request (node_rocks lib) (nl_nonces lib) env (nl_test_js lib) clk req) nd"
| "node_step env lib cfg (FlushTimer order seeds) nd = flush_audit env (lb_audit (nl_api lib)) order seeds nd"
| "node_step env lib cfg (NonceTimer now) nd = on_nonces (cleanup_expired_nonces (node_rocks lib) now) nd"
| "node_step env lib cfg (PeerConnects c) nd =
     set_p2p (serve_connection env (node_rocks lib) (node_bin lib) (nl_p2p lib) (cn_now c) (cn_io c) (cn_peer c)
       (cn_input c) (p2p_view nd)) nd"
| "node_step env lib cfg (SocketOpens conn token) nd =
     nd\<lparr>nd_ws := add_connection conn (upgrade_api_key env token) (nd_ws nd)\<rparr>"
| "node_step env lib cfg (SocketReceives conn frames) nd =
     nd\<lparr>nd_ws := recv_task (nl_ws_js lib) conn frames (nd_ws nd)\<rparr>"
| "node_step env lib cfg (SocketBreaks conn) nd = nd\<lparr>nd_ws := close_channel conn (nd_ws nd)\<rparr>"
| "node_step env lib cfg (SocketCloses conn) nd = nd\<lparr>nd_ws := remove_connection conn (nd_ws nd)\<rparr>"
| "node_step env lib cfg (TaskRuns i now) nd =
     (if i < length (nd_tasks nd)
      then nd\<lparr>nd_ws := run_task now (nd_tasks nd ! i) (nd_ws nd),
              nd_tasks := take i (nd_tasks nd) @ drop (Suc i) (nd_tasks nd)\<rparr>
      else nd)"
| "node_step env lib cfg (SocketStep x) nd = nd\<lparr>nd_ws := ws_step x (nd_ws nd)\<rparr>"
| "node_step env lib cfg (AccountStored seed clk ip rate metadata) nd =
     serve_request (store_account env (nl_api lib) seed clk ip rate metadata) nd"
| "node_step env lib cfg (DataStored seed clk ip rate key h request) nd =
     serve_request (store_data env (nl_api lib) seed clk ip rate key h request) nd"
| "node_step env lib cfg (SignedChecked clk req) nd =
     on_nonces (check_signed_with (is_nonce_used (node_rocks lib) (nl_nonces lib)) env (nl_test_js lib) clk req) nd"
| "node_step env lib cfg (NonceRecorded now nonce) nd =
     on_nonces (record_nonce (node_rocks lib) (nl_nonces lib) now nonce) nd"
| "node_step env lib cfg (SyncReply clk peer response) nd = set_p2p (sync_chain env clk peer response (p2p_view nd)) nd"
| "node_step env lib cfg (FlushCreates c seed) nd = flush_creates env c seed nd"
| "node_step env lib cfg (FlushSaves i) nd = flush_saves (lb_audit (nl_api lib)) i nd"

text \<open>The steps after which the database still follows the chain: all but a synchronisation, which does not save the
  chain it takes over, and an interrupted flush, which saves its block late.\<close>

fun orderly :: "node_op \<Rightarrow> bool" where
  "orderly (SyncRequest net clk order) \<longleftrightarrow> False"
| "orderly (SyncReply clk peer response) \<longleftrightarrow> False"
| "orderly (FlushCreates c seed) \<longleftrightarrow> False"
| "orderly (FlushSaves i) \<longleftrightarrow> False"
| "orderly _ \<longleftrightarrow> True"

lemma view_sel [simp]:
  "pn_blockchain (p2p_view nd) = nd_chain nd" "pn_db (p2p_view nd) = nd_db nd"
  "nd_chain (set_p2p p nd) = pn_blockchain p" "nd_db (set_p2p p nd) = pn_db p"
  by (simp_all add: p2p_view_def set_p2p_def)

text \<open>The node that \<open>main\<close> puts together from the configuration, the loaded blockchain and the database.\<close>

definition start_node ::
  "('db, 'c, 'n) node_libs \<Rightarrow> config \<Rightarrow> blockchain \<Rightarrow> 'db \<Rightarrow> ('db, 'c, 'n) node_state" where
  "start_node lib cfg bc db =
     (let p2p = p2p_new bc db (cfg_peers cfg)
      in \<lparr>nd_api = \<lparr>ap_logger = audit_logger_new bc db True True,
            ap_rate_cache = rs_cache (rate_limit_store_new (lb_rate (nl_api lib)) db)\<rparr>,
          nd_nonce_cache = ns_cache (nonce_store_new (nl_nonces lib) db),
          nd_peers = pn_peers p2p, nd_reputation = pn_reputation p2p, nd_limiters = pn_limiters p2p,
          nd_blacklist = pn_blacklist p2p, nd_ws = broadcaster_new, nd_tasks = [], nd_unsaved = []\<rparr>)"

lemma start_node_sel [simp]: "nd_chain (start_node lib cfg bc db) = bc" "nd_db (start_node lib cfg bc db) = db"
  by (simp_all add: start_node_def audit_logger_new_def Let_def)

section \<open>Invariants of chain and database\<close>

text \<open>What can happen to the chain and the database of a node in \<open>orderly\<close> steps: data is queued, other
  components write their keys, a block is created and saved, a linked block arrives and is saved.\<close>

locale node_invariant =
  fixes env :: "'z node_env_scheme"
    and rdb :: "'db rocks"
    and bin :: "(block, bytes) codec"
    and inv :: "blockchain \<Rightarrow> 'db \<Rightarrow> bool"
  assumes same_chain: "inv bc db \<Longrightarrow> chain bc' = chain bc \<Longrightarrow> inv bc' db"
    and foreign_put: "\<not> chain_key k \<Longrightarrow> inv bc db \<Longrightarrow> inv bc (snd (db_put rdb db k v))"
    and foreign_delete: "\<not> chain_key k \<Longrightarrow> inv bc db \<Longrightarrow> inv bc (snd (db_delete rdb db k))"
    and created: "inv bc db \<Longrightarrow> add_block env seed bc = (Inr b, bc') \<Longrightarrow>
      inv bc' (snd (save_block rdb bin b db)) \<and> inv bc' (persist_block rdb bin b db)"
    and received: "inv bc db \<Longrightarrow> chain bc \<noteq> [] \<Longrightarrow> wire_links env (last (chain bc)) b \<Longrightarrow>
      inv (bc\<lparr>chain := chain bc @ [b]\<rparr>) (persist_block rdb bin b db)"

sublocale node_invariant \<subseteq> db: shared_db rdb "\<lambda>k. \<not> chain_key k" "inv bc" for bc
  by unfold_locales (auto intro: foreign_put foreign_delete)

context node_invariant
begin

abbreviation held :: "('db, 'c) api_state \<Rightarrow> bool" where
  "held st \<equiv> inv (ap_chain st) (al_db (ap_logger st))"

lemma rate_check_held:
  fixes lib :: "('db, 'c) api_libs"
  assumes "rl_rocks (lb_rate lib) = rdb"
  shows "keeps held (rate_check env lib clk n h ip w)"
proof -
  have k: "keeps (\<lambda>s. inv bc (rs_db s)) (check_limit env (lb_rate lib) (lb_bypass lib) clk h ip w)" for bc
    by (rule db.check_limit_keeps [OF assms]) (rule tenant_keys_disjoint)
  show ?thesis
    unfolding keeps_def
  proof (intro allI impI)
    fix st :: "('db, 'c) api_state" assume "held st"
    with k [of "ap_chain st", unfolded keeps_def] have "inv (ap_chain st) (rs_db (snd (check_limit env (lb_rate lib)
        (lb_bypass lib) clk h ip w \<lparr>rs_db = al_db (ap_logger st), rs_cache = ap_rate_cache st\<rparr>)))" by simp
    then show "held (snd (rate_check env lib clk n h ip w st))"
      by (simp add: rate_check_def Let_def split_def split: sum.splits fail.splits)
  qed
qed

lemma audit_held: "held st \<Longrightarrow> held (snd (audit env now k t cid ip m st))"
  by (auto simp: audit_def log_event_def Let_def split_def split: sum.splits option.splits)

lemma commit_block_held:
  fixes lib :: "('db, 'c) api_libs"
  assumes "au_rocks (lb_audit lib) = rdb" and "au_block_bin (lb_audit lib) = bin"
  shows "keeps held (commit_block env lib seed)"
  unfolding keeps_def
proof (intro allI impI)
  fix st :: "('db, 'c) api_state" assume h: "held st"
  show "held (snd (commit_block env lib seed st))"
  proof (cases "add_block env seed (ap_chain st)")
    case (Pair r bc)
    show ?thesis
    proof (cases r)
      case (Inl e)
      with Pair have "bc = ap_chain st" by (auto simp: add_block_def split: sum.splits)
      with Pair Inl h show ?thesis by (simp add: commit_block_def)
    next
      case (Inr b)
      with Pair created [OF h, of seed b bc] assms show ?thesis by (simp add: commit_block_def)
    qed
  qed
qed

text \<open>An answer that is composed after an audit entry.\<close>

lemma audited_held:
  "keeps held (\<lambda>st. let (events, st) = audit env now k t cid ip m st in (f events, st))"
  using audit_held by (auto intro!: keepsI simp: Let_def split_def)

lemma store_account_held:
  fixes lib :: "('db, 'c) api_libs"
  assumes "au_rocks (lb_audit lib) = rdb" and "au_block_bin (lb_audit lib) = bin"
  shows "keeps held (store_account env lib seed clk ip rate metadata)"
proof (rule keepsI)
  fix st :: "('db, 'c) api_state" assume h: "held st"
  have queued: "held (st\<lparr>ap_logger := (ap_logger st)\<lparr>al_blockchain := snd (add_account_with_key a k (ap_chain st))\<rparr>\<rparr>)" for a k
    using same_chain [OF h] by (simp add: add_account_with_key_def)
  have k: "keeps held (bindS (commit_block env lib (as_block seed)) (\<lambda>block st. let (events, st) = audit env now k t cid ip (m block) st
      in (f block events, st)))" for now k t cid m f
    by (intro keep commit_block_held assms audited_held)
  show "held (snd (store_account env lib seed clk ip rate metadata st))"
    using h keepsD [OF k queued] by (auto simp: store_account_def split: sum.splits)
qed

lemma store_data_held:
  fixes lib :: "('db, 'c) api_libs"
  assumes "au_rocks (lb_audit lib) = rdb" and "au_block_bin (lb_audit lib) = bin"
  shows "keeps held (store_data env lib seed clk ip rate k h request)"
proof (rule keepsI)
  fix st :: "('db, 'c) api_state" assume h: "held st"
  have queued: "held (st\<lparr>ap_logger := (ap_logger st)\<lparr>al_blockchain := snd (add_collection c (ap_chain st))\<rparr>\<rparr>)" for c
    using same_chain [OF h] by (simp add: add_collection_def)
  have k: "keeps held (bindS (commit_block env lib (ss_block seed)) (\<lambda>block st. let (events, st) = audit env now k t cid ip (m block) st
      in (f block events, st)))" for now k t cid m f
    by (intro keep commit_block_held assms audited_held)
  show "held (snd (store_data env lib seed clk ip rate k h request st))"
    using h keepsD [OF k queued] by (auto simp: store_data_def Let_def split: option.splits sum.splits)
qed

text \<open>A validator stores, any other node forwards.\<close>

lemma stored_or_forwarded_held:
  assumes "keeps held store"
  shows "keeps held (\<lambda>st. case validator_turn (ap_chain st) of
      Inl e \<Rightarrow> (Inl e, st)
    | Inr (n, True) \<Rightarrow> store st
    | Inr (n, False) \<Rightarrow> bindS (liftS (forward (ap_chain st) n)) (\<lambda>rsp. retS (rsp, [])) st)"
  using assms by (auto simp: keeps_def bindS_def liftS_def retS_def split: sum.splits bool.splits)

lemma create_account_held:
  fixes lib :: "('db, 'c) api_libs"
  assumes "au_rocks (lb_audit lib) = rdb" and "au_block_bin (lb_audit lib) = bin" and "rl_rocks (lb_rate lib) = rdb"
  shows "keeps held (create_account env lib seed clk headers metadata)"
proof -
  note go = stored_or_forwarded_held [OF store_account_held [OF assms(1,2)]]
  have "keeps held (case result of
        Blocked l r v \<Rightarrow> retS (f result l r v, [])
      | _ \<Rightarrow> (\<lambda>st. case validator_turn (ap_chain st) of
                Inl e \<Rightarrow> (Inl e, st)
              | Inr (n, True) \<Rightarrow> store_account env lib seed clk ip result metadata st
              | Inr (n, False) \<Rightarrow> bindS (liftS (fwd (ap_chain st) n)) (\<lambda>rsp. retS (rsp, [])) st))"
    for result f ip fwd
    using go by (cases result) (auto intro: keep)
  then show ?thesis
    unfolding create_account_def Let_def by (intro keeps_bindS rate_check_held assms)
qed

lemma login_held:
  fixes lib :: "('db, 'c) api_libs"
  shows "keeps held (login env lib cfg nonce clk headers key)"
proof (rule keepsI)
  fix st :: "('db, 'c) api_state" assume "held st"
  with audit_held [OF this] show "held (snd (login env lib cfg nonce clk headers key st))"
    by (auto simp: login_def Let_def split_def split: sum.splits option.splits)
qed

lemma submit_data_held:
  fixes lib :: "('db, 'c) api_libs"
  assumes "au_rocks (lb_audit lib) = rdb" and "au_block_bin (lb_audit lib) = bin" and "rl_rocks (lb_rate lib) = rdb"
  shows "keeps held (submit_data env lib cfg seed clk headers request)"
proof -
  note go = stored_or_forwarded_held [OF store_data_held [OF assms(1,2)]]
  have "keeps held (\<lambda>st. if c st then (e, st) else bindS (liftS v) (\<lambda>_ st. case validator_turn (ap_chain st) of
                Inl e \<Rightarrow> (Inl e, st)
              | Inr (n, True) \<Rightarrow> store_data env lib seed clk ip result k h request st
              | Inr (n, False) \<Rightarrow> bindS (liftS (fwd (ap_chain st) n)) (\<lambda>rsp. retS (rsp, [])) st) st)"
    for c :: "('db, 'c) api_state \<Rightarrow> bool" and e v ip result k h fwd
  proof -
    have "keeps held (bindS (liftS v) (\<lambda>_ st. case validator_turn (ap_chain st) of
                Inl e \<Rightarrow> (Inl e, st)
              | Inr (n, True) \<Rightarrow> store_data env lib seed clk ip result k h request st
              | Inr (n, False) \<Rightarrow> bindS (liftS (fwd (ap_chain st) n)) (\<lambda>rsp. retS (rsp, [])) st))"
      by (intro keeps_bindS go keeps_basic)
    then show ?thesis by (simp add: keeps_def)
  qed
  then have "keeps held (case auth of SessionToken t \<Rightarrow> failS e
      | ApiKeyAuth k \<Rightarrow> bindS (rate_check env lib clk 10 (hash_api_key_hex env k) ip True) (\<lambda>result.
          case banned_response lib clk result of Some rsp \<Rightarrow> retS (rsp, []) | None \<Rightarrow>
          (\<lambda>st. if find_account_with_hash env (ap_chain st) k (Some (hash_api_key_hex env k)) = None then (e', st)
              else bindS (liftS v) (\<lambda>_ st. case validator_turn (ap_chain st) of
                Inl e \<Rightarrow> (Inl e, st)
              | Inr (n, True) \<Rightarrow> store_data env lib seed clk ip result k (hash_api_key_hex env k) request st
              | Inr (n, False) \<Rightarrow> bindS (liftS (fwd (ap_chain st) n)) (\<lambda>rsp. retS (rsp, [])) st) st)))"
    for auth e e' ip v fwd
    by (cases auth) (auto intro!: keeps_bindS keeps_option keeps_basic rate_check_held assms)
  then show ?thesis
    unfolding submit_data_def Let_def by (intro keeps_bindS keeps_basic)
qed

lemma list_data_held:
  fixes lib :: "('db, 'c) api_libs"
  assumes "rl_rocks (lb_rate lib) = rdb"
  shows "keeps held (list_data env lib cfg clk headers)"
proof -
  have "keeps held (\<lambda>st. if find_account env (ap_chain st) k = None then (e, st)
      else let items = f st; (events, st) = audit env now k t cid ip (m items) st in (g items events, st))"
    for k e f now t cid ip m g
    using audit_held by (auto intro!: keepsI simp: Let_def split_def)
  then show ?thesis
    unfolding list_data_def Let_def
    by (intro keeps_bindS keeps_pair keeps_option keeps_basic rate_check_held assms)
qed

lemma decrypt_data_held:
  fixes lib :: "('db, 'c) api_libs"
  assumes "rl_rocks (lb_rate lib) = rdb"
  shows "keeps held (decrypt_data env lib cfg clk headers cid)"
  unfolding decrypt_data_def Let_def
  by (intro keeps_bindS keeps_pair keeps_option keeps_basic rate_check_held assms keepsI)
    (auto simp: split_def dest: audit_held split: option.splits sum.splits fail.splits)

lemma audit_logs_held: "keeps held (handle_get_audit_logs env lib cfg clk headers params)"
  unfolding handle_get_audit_logs_def Let_def
  by (intro keeps_bindS keeps_pair keeps_basic keepsI) simp

lemma flush_block_held:
  assumes "au_rocks lib = rdb" and "au_block_bin lib = bin"
  shows "keeps (\<lambda>l. inv (al_blockchain l) (al_db l)) (flush_block env lib seed)"
proof (rule keepsI)
  fix l :: "'db audit_logger" assume h: "inv (al_blockchain l) (al_db l)"
  have kept: "bc = al_blockchain l" if "add_block env seed (al_blockchain l) = (Inl e, bc)" for e bc
    using that by (auto simp: add_block_def split: sum.splits)
  show "inv (al_blockchain (snd (flush_block env lib seed l))) (al_db (snd (flush_block env lib seed l)))"
    using h created [OF h, of seed] assms
    by (auto simp: flush_block_eq Let_def dest: kept split: sum.splits bool.splits prod.splits fail.splits)
qed

lemma flush_batch_held:
  assumes "au_rocks lib = rdb" and "au_block_bin lib = bin"
  shows "keeps (\<lambda>l. inv (al_blockchain l) (al_db l)) (flush_batch env lib seed batch)"
proof (rule keepsI)
  fix l :: "'db audit_logger" assume h: "inv (al_blockchain l) (al_db l)"
  then have "inv (snd (add_collection c (al_blockchain l))) (al_db l)" for c
    by (rule same_chain) (simp add: add_collection_def)
  with h keepsD [OF flush_block_held [OF assms]] show
    "inv (al_blockchain (snd (flush_batch env lib seed batch l))) (al_db (snd (flush_batch env lib seed batch l)))"
    by (auto simp: flush_batch_def Let_def split_def split: sum.splits)
qed

lemma flush_loop_held:
  assumes "au_rocks lib = rdb" and "au_block_bin lib = bin"
  shows "keeps (\<lambda>l. inv (al_blockchain l) (al_db l)) (flush_loop env lib seeds i batches)"
proof (induction batches arbitrary: i)
  case (Cons batch batches)
  then have "keeps (\<lambda>l. inv (al_blockchain l) (al_db l)) (bindS (flush_batch env lib (seeds i) batch) (\<lambda>sent.
     bindS (flush_loop env lib seeds (Suc i) batches) (\<lambda>more. retS (sent @ more))))"
    by (intro keeps_bindS flush_batch_held assms keeps_basic)
  then show ?case by (simp add: keeps_def)
qed (simp add: keeps_def)

lemma serve_connection_held:
  assumes "inv (pn_blockchain node) (pn_db node)"
    and "node' = serve_connection env rdb bin mbin now io peer input node"
  shows "inv (pn_blockchain node') (pn_db node')"
  unfolding assms(2)
  by (rule serve_connection_cases [of env rdb bin mbin now io peer input node])
    (use assms(1) received in auto)

lemma on_nonces_held:
  assumes "keeps (\<lambda>s. inv (nd_chain nd) (ns_db s)) act" and "inv (nd_chain nd) (nd_db nd)"
  shows "inv (nd_chain (on_nonces act nd)) (nd_db (on_nonces act nd))"
  using keepsD [OF assms(1), of "\<lparr>ns_db = nd_db nd, ns_cache = nd_nonce_cache nd\<rparr>"] assms(2)
  by (simp add: on_nonces_def Let_def)

lemma serve_held:
  assumes "keeps held handler" and "inv (nd_chain nd) (nd_db nd)"
  shows "inv (nd_chain (serve_request handler nd)) (nd_db (serve_request handler nd))"
  using keepsD [OF assms(1,2)] by (simp add: serve_request_def split_def Let_def)

lemmas handlers_held = store_account_held store_data_held create_account_held login_held submit_data_held list_data_held decrypt_data_held audit_logs_held

lemma node_step_held:
  assumes lib: "node_rocks lib = rdb" "node_bin lib = bin" "rl_rocks (lb_rate (nl_api lib)) = rdb"
    and h: "inv (nd_chain nd) (nd_db nd)" and "orderly x"
  shows "inv (nd_chain (node_step env lib cfg x nd)) (nd_db (node_step env lib cfg x nd))"
proof (cases x)
  case (SignedTestRequest clk req)
  have "keeps (\<lambda>s. inv (nd_chain nd) (ns_db s)) (validate_signed_request rdb (nl_nonces lib) env (nl_test_js lib) clk req)"
    by (rule db.validate_signed_keeps) (rule tenant_keys_disjoint)
  from on_nonces_held [OF this h] SignedTestRequest lib show ?thesis by simp
next
  case (NonceTimer now)
  have "keeps (\<lambda>s. inv (nd_chain nd) (ns_db s)) (cleanup_expired_nonces rdb now)"
    by (rule db.cleanup_keeps) (rule tenant_keys_disjoint)
  from on_nonces_held [OF this h] NonceTimer lib show ?thesis by simp
next
  case (FlushTimer order seeds)
  have "inv (al_blockchain (snd (flush_all_batches env (lb_audit (nl_api lib)) order seeds (ap_logger (nd_api nd)))))
      (al_db (snd (flush_all_batches env (lb_audit (nl_api lib)) order seeds (ap_logger (nd_api nd)))))"
    unfolding flush_all_batches_def by (rule keepsD [OF flush_loop_held [OF lib(1,2)]]) (use h in simp)
  with FlushTimer show ?thesis by (simp add: flush_audit_def Let_def split_def)
next
  case (PeerConnects c)
  with serve_connection_held [OF _ refl, of "p2p_view nd"] h lib show ?thesis by simp
next
  case (SignedChecked clk req)
  have "keeps (\<lambda>s. inv (nd_chain nd) (ns_db s)) (check_signed_with (is_nonce_used rdb (nl_nonces lib)) env (nl_test_js lib) clk req)"
    by (rule db.check_signed_keeps) (rule tenant_keys_disjoint)
  from on_nonces_held [OF this h] SignedChecked lib show ?thesis by simp
next
  case (NonceRecorded now nonce)
  have "keeps (\<lambda>s. inv (nd_chain nd) (ns_db s)) (record_nonce rdb (nl_nonces lib) now nonce)"
    by (rule db.record_nonce_keeps) (rule tenant_keys_disjoint)
  from on_nonces_held [OF this h] NonceRecorded lib show ?thesis by simp
qed (use h assms(5) in \<open>auto intro!: serve_held handlers_held lib\<close>)

end

text \<open>An invariant that also withstands what is not orderly: a peer's chain may take the place of the node's, as far as
  \<open>replace_chain\<close> allows it, and is not saved; a block is created without being saved, and saved at any time.\<close>

locale synced_invariant = node_invariant +
  assumes replaced: "inv bc db \<Longrightarrow> inv (snd (replace_chain env clk cs bc)) db"
    and unsaved: "inv bc db \<Longrightarrow> add_block env seed bc = (Inr b, bc') \<Longrightarrow> inv bc' db"
    and saved: "inv bc db \<Longrightarrow> inv bc (snd (save_block rdb bin b db))"
begin

lemma flush_create_held:
  assumes "inv (al_blockchain l) (al_db l)"
  shows "inv (al_blockchain (snd (flush_create env seed l))) (al_db (snd (flush_create env seed l)))"
proof -
  have kept: "bc = al_blockchain l" if "add_block env seed (al_blockchain l) = (Inl e, bc)" for e bc
    using that by (auto simp: add_block_def split: sum.splits)
  show ?thesis
    using assms unsaved [OF assms, of seed]
    by (auto simp: flush_create_def Let_def dest: kept split: sum.splits bool.splits prod.splits fail.splits)
qed

lemma flush_creates_held:
  assumes "inv (nd_chain nd) (nd_db nd)"
  shows "inv (nd_chain (flush_creates env c seed nd)) (nd_db (flush_creates env c seed nd))"
proof -
  have "inv (snd (add_collection c (nd_chain nd))) (nd_db nd)"
    by (rule same_chain [OF assms]) (simp add: add_collection_def)
  with flush_create_held [of "(ap_logger (nd_api nd))\<lparr>al_blockchain := snd (add_collection c (nd_chain nd))\<rparr>"]
  show ?thesis by (simp add: flush_creates_def Let_def split_def)
qed

lemma flush_saves_held:
  assumes "au_rocks lib = rdb" and "au_block_bin lib = bin" and "inv (nd_chain nd) (nd_db nd)"
  shows "inv (nd_chain (flush_saves lib i nd)) (nd_db (flush_saves lib i nd))"
  using assms saved by (simp add: flush_saves_def flush_save_def Let_def)

lemma sync_chain_held:
  "inv (pn_blockchain node) (pn_db node) \<Longrightarrow>
   inv (pn_blockchain (sync_chain env clk peer response node)) (pn_db (sync_chain env clk peer response node))"
  using replaced by (auto simp: sync_chain_def Let_def split_def split: sum.splits p2p_message.splits bool.splits)

lemma sync_tasks_held:
  "inv (pn_blockchain node) (pn_db node) \<Longrightarrow>
   inv (pn_blockchain (sync_tasks env mbin net clk order node)) (pn_db (sync_tasks env mbin net clk order node))"
  by (induction order arbitrary: node) (simp_all add: sync_chain_held)

lemma node_step_synced:
  assumes lib: "node_rocks lib = rdb" "node_bin lib = bin" "rl_rocks (lb_rate (nl_api lib)) = rdb"
    and h: "inv (nd_chain nd) (nd_db nd)"
  shows "inv (nd_chain (node_step env lib cfg x nd)) (nd_db (node_step env lib cfg x nd))"
proof (cases "orderly x")
  case False
  then show ?thesis
    using sync_tasks_held [of "p2p_view nd"] sync_chain_held [of "p2p_view nd"]
      flush_creates_held [OF h] flush_saves_held [OF lib(1,2) h] h
    by (cases x) (auto simp: request_chain_from_peers_def)
qed (use node_step_held [OF assms] in simp)

end

section \<open>The chain of a node survives\<close>

text \<open>The node extends the chain \<open>c\<close>; as long as the numbering has room, all of it is numbered, linked and durable.\<close>

definition extends_durably ::
  "'z node_env_scheme \<Rightarrow> 'db rocks \<Rightarrow> ('db \<Rightarrow> bool) \<Rightarrow> (block, bytes) codec \<Rightarrow> block list \<Rightarrow> blockchain \<Rightarrow> 'db \<Rightarrow> bool" where
  "extends_durably env rdb healthy bin c bc db \<longleftrightarrow>
     blake3_ok env \<and> total_codec bin \<and> c \<noteq> [] \<and> (\<exists>bs. chain bc = c @ bs)
     \<and> (length (chain bc) < 2 ^ 63 \<longrightarrow>
          durable rdb healthy bin (chain bc) db \<and> well_indexed (chain bc) \<and> successively (wire_links env) (chain bc))"

lemma wire_block_utf8: "blake3_ok env \<Longrightarrow> wire_links env p b \<Longrightarrow> utf8_valid (as_bytes (b_hash b))"
  by (simp add: wire_links_def calculate_hash_def hash_string_def blake3_ok_def)

lemma extends_durably_append:
  assumes "extends_durably env rdb healthy bin c bc db" and "wire_links env (last (chain bc)) b"
    and "chain bc' = chain bc @ [b]"
  shows "extends_durably env rdb healthy bin c bc' (snd (save_block rdb bin b db))"
    and "extends_durably env rdb healthy bin c bc' (persist_block rdb bin b db)"
proof -
  let ?c = "chain bc"
  from assms(1) have ok: "blake3_ok env" "total_codec bin" and ne: "?c \<noteq> []" and "\<exists>bs. chain bc' = c @ bs"
    by (auto simp: extends_durably_def assms(3))
  note utf8 = wire_block_utf8 [OF ok(1) assms(2)]
  have "durable rdb healthy bin (?c @ [b]) (snd (save_block rdb bin b db))
      \<and> durable rdb healthy bin (?c @ [b]) (persist_block rdb bin b db)
      \<and> well_indexed (?c @ [b]) \<and> successively (wire_links env) (?c @ [b])" if len: "length (?c @ [b]) < 2 ^ 63"
  proof -
    from len assms(1) have d: "durable rdb healthy bin ?c db" and wi: "well_indexed ?c"
      and links: "successively (wire_links env) ?c" by (auto simp: extends_durably_def)
    have "unat (b_index (last ?c)) = length ?c - 1" using wi ne by (simp add: well_indexed_def last_conv_nth)
    then have idx: "unat (b_index b) = length ?c"
      using assms(2) ne len by (auto simp: wire_links_def unat_word_ariths)
    moreover have "Suc (length ?c) < 2 ^ 64" using len by simp
    ultimately have "durable rdb healthy bin (?c @ [b]) (snd (save_block rdb bin b db))"
      "durable rdb healthy bin (?c @ [b]) (persist_block rdb bin b db)"
      using d ok(2) utf8 by (auto intro: durable_save durable_persist)
    moreover have "well_indexed (?c @ [b])" using wi idx by (auto simp: well_indexed_def nth_append less_Suc_eq)
    moreover have "successively (wire_links env) (?c @ [b])"
      using links assms(2) ne by (auto simp: successively_append_iff)
    ultimately show ?thesis by simp
  qed
  then show "extends_durably env rdb healthy bin c bc' (snd (save_block rdb bin b db))"
    and "extends_durably env rdb healthy bin c bc' (persist_block rdb bin b db)"
    using assms(1) by (auto simp: extends_durably_def assms(3))
qed

interpretation durable_node: node_invariant env rdb bin "extends_durably env rdb healthy bin c"
  for env :: "'z node_env_scheme" and rdb :: "'db rocks" and bin healthy c
proof unfold_locales
  fix bc :: blockchain and db :: 'db and k v seed b bc'
  assume inv: "extends_durably env rdb healthy bin c bc db"
  then show "chain bc' = chain bc \<Longrightarrow> extends_durably env rdb healthy bin c bc' db" by (simp add: extends_durably_def)
  show "\<not> chain_key k \<Longrightarrow> extends_durably env rdb healthy bin c bc (snd (db_put rdb db k v))"
    "\<not> chain_key k \<Longrightarrow> extends_durably env rdb healthy bin c bc (snd (db_delete rdb db k))"
    using inv durability.put_keeps durability.delete_keeps by (auto simp: extends_durably_def)
  show "chain bc \<noteq> [] \<Longrightarrow> wire_links env (last (chain bc)) b \<Longrightarrow>
      extends_durably env rdb healthy bin c (bc\<lparr>chain := chain bc @ [b]\<rparr>) (persist_block rdb bin b db)"
    using extends_durably_append(2) [OF inv] by simp
  assume "add_block env seed bc = (Inr b, bc')"
  then have "make_block env seed bc = Inr b" "chain bc' = chain bc @ [b]" by (auto simp: add_block_cases)
  with extends_durably_append [OF inv make_block_wire_links] show
    "extends_durably env rdb healthy bin c bc' (snd (save_block rdb bin b db))
     \<and> extends_durably env rdb healthy bin c bc' (persist_block rdb bin b db)" by blast
qed

text \<open>The links that every chain of a node has, also one taken over from a peer.\<close>

definition hash_links :: "'z node_env_scheme \<Rightarrow> block \<Rightarrow> block \<Rightarrow> bool" where
  "hash_links env p b \<longleftrightarrow>
     b_previous_hash b = b_hash p \<and> b_hash b = calculate_hash env b
     \<and> b_merkle_root b = calculate_merkle_root env (b_encrypted_block_data b) (b_blind_indexes b)"

definition grows_linked :: "'z node_env_scheme \<Rightarrow> nat \<Rightarrow> blockchain \<Rightarrow> 'db \<Rightarrow> bool" where
  "grows_linked env n bc db \<longleftrightarrow> n \<le> length (chain bc) \<and> chain bc \<noteq> [] \<and> successively (hash_links env) (chain bc)"

lemma hash_links_weaker: "wire_links env p b \<Longrightarrow> hash_links env p b" "block_links env vs p b \<Longrightarrow> hash_links env p b"
  by (simp_all add: wire_links_def block_links_def hash_links_def)

interpretation linked_node: synced_invariant env rdb bin "grows_linked env n"
  for env :: "'z node_env_scheme" and rdb :: "'db rocks" and bin n
proof unfold_locales
  fix bc :: blockchain and db :: 'db and k v seed b bc' clk cs
  assume inv: "grows_linked env n bc db"
  then show "chain bc' = chain bc \<Longrightarrow> grows_linked env n bc' db" by (simp add: grows_linked_def)
  from inv show "grows_linked env n bc (snd (db_put rdb db k v))" "grows_linked env n bc (snd (db_delete rdb db k))"
    by (simp_all add: grows_linked_def)
  have append: "grows_linked env n bc'' db''" if "wire_links env (last (chain bc)) b" "chain bc'' = chain bc @ [b]" for bc'' and db'' :: 'db
    using inv that by (auto simp: grows_linked_def successively_append_iff hash_links_weaker)
  then show "wire_links env (last (chain bc)) b \<Longrightarrow>
      grows_linked env n (bc\<lparr>chain := chain bc @ [b]\<rparr>) (persist_block rdb bin b db)" by simp
  show "add_block env seed bc = (Inr b, bc') \<Longrightarrow>
      grows_linked env n bc' (snd (save_block rdb bin b db)) \<and> grows_linked env n bc' (persist_block rdb bin b db)"
    "add_block env seed bc = (Inr b, bc') \<Longrightarrow> grows_linked env n bc' db"
    by (auto simp: add_block_cases intro!: append make_block_wire_links)
  from inv show "grows_linked env n bc (snd (save_block rdb bin b db))" by (simp add: grows_linked_def)
  from replace_chain_cases [of env clk cs bc] show "grows_linked env n (snd (replace_chain env clk cs bc)) db"
    using inv by (auto simp: grows_linked_def is_valid_iff linked_chain_def successively_mono hash_links_weaker
        intro: successively_mono [where P = "block_links env (validators (validator_cfg bc))"])
qed

section \<open>Properties\<close>

definition node_run ::
  "'z node_env_scheme \<Rightarrow> ('db, 'c, 'n) node_libs \<Rightarrow> config \<Rightarrow> node_op list \<Rightarrow> ('db, 'c, 'n) node_state
     \<Rightarrow> ('db, 'c, 'n) node_state" where
  "node_run env lib cfg ops nd = fold (node_step env lib cfg) ops nd"

text \<open>All components work on one database.\<close>

definition one_database :: "('db, 'c, 'n) node_libs \<Rightarrow> bool" where
  "one_database lib \<longleftrightarrow> rl_rocks (lb_rate (nl_api lib)) = node_rocks lib"

text \<open>A node in good order: its chain is numbered, linked and durable.\<close>

definition node_ready ::
  "'z node_env_scheme \<Rightarrow> ('db, 'c, 'n) node_libs \<Rightarrow> ('db \<Rightarrow> bool) \<Rightarrow> ('db, 'c, 'n) node_state \<Rightarrow> bool" where
  "node_ready env lib healthy nd \<longleftrightarrow>
     durable (node_rocks lib) healthy (node_bin lib) (chain (nd_chain nd)) (nd_db nd)
     \<and> well_indexed (chain (nd_chain nd)) \<and> successively (wire_links env) (chain (nd_chain nd))"

text \<open>Whatever \<open>orderly\<close> step a node in good order takes, it stays in good order and its chain only gets longer.\<close>

lemma node_step_ready:
  assumes "blake3_ok env" and "total_codec (node_bin lib)" and "one_database lib"
    and "node_ready env lib healthy nd" and "orderly x"
    and "length (chain (nd_chain (node_step env lib cfg x nd))) < 2 ^ 63"
  shows "node_ready env lib healthy (node_step env lib cfg x nd)
    \<and> (\<exists>bs. chain (nd_chain (node_step env lib cfg x nd)) = chain (nd_chain nd) @ bs)"
proof -
  have rate: "rl_rocks (lb_rate (nl_api lib)) = node_rocks lib" using assms(3) by (simp add: one_database_def)
  have "extends_durably env (node_rocks lib) healthy (node_bin lib) (chain (nd_chain nd)) (nd_chain nd) (nd_db nd)"
    using assms(1,2,4) by (auto simp: extends_durably_def node_ready_def durable_def)
  from durable_node.node_step_held [OF refl refl rate this assms(5), where cfg = cfg] assms(6) show ?thesis
    by (auto simp: extends_durably_def node_ready_def)
qed

text \<open>C3. While a process runs, its chain stays well formed. Let a node serve with a chain whose blocks after the first
  carry the hash of their content, the Merkle root of their data and the hash of the block before them. Then this
  holds after every sequence of steps of this process, also with synchronisation, whatever chains peers send, and the
  chain never gets shorter. Restarts are not covered: loading does not validate the chain (for nodes that never
  synchronise see \<open>restart_keeps_chain\<close>).\<close>

theorem node_stays_linked:
  assumes "one_database lib" and "chain (nd_chain nd) \<noteq> []"
    and "successively (hash_links env) (chain (nd_chain nd))"
  shows "let c = chain (nd_chain (node_run env lib cfg ops nd)); c' = chain (nd_chain (node_run env lib cfg (ops @ ops') nd))
    in successively (hash_links env) c \<and> c \<noteq> [] \<and> length c \<le> length c'"
proof -
  have rate: "rl_rocks (lb_rate (nl_api lib)) = node_rocks lib" using assms(1) by (simp add: one_database_def)
  have run: "grows_linked env n (nd_chain (fold (node_step env lib cfg) ops nd)) (nd_db (fold (node_step env lib cfg) ops nd))"
    if "grows_linked env n (nd_chain nd) (nd_db nd)" for n ops nd
    using that by (induction ops arbitrary: nd) (simp_all add: linked_node.node_step_synced [OF refl refl rate])
  have "grows_linked env 0 (nd_chain nd) (nd_db nd)" using assms(2,3) by (simp add: grows_linked_def)
  from run [OF this] have mid: "successively (hash_links env) (chain (nd_chain (node_run env lib cfg ops nd)))"
    "chain (nd_chain (node_run env lib cfg ops nd)) \<noteq> []"
    by (auto simp: grows_linked_def node_run_def)
  then have "grows_linked env (length (chain (nd_chain (node_run env lib cfg ops nd))))
      (nd_chain (node_run env lib cfg ops nd)) (nd_db (node_run env lib cfg ops nd))" by (simp add: grows_linked_def)
  from run [OF this, of ops'] mid show ?thesis by (simp add: grows_linked_def node_run_def Let_def)
qed

text \<open>The first start on a database without a chain gives a node in good order.\<close>

lemma first_start_ready:
  assumes "rocks_ok (node_rocks lib) healthy" and "healthy db" and "total_codec (node_bin lib)"
    and "\<And>k. chain_key k \<Longrightarrow> contents (node_rocks lib) db k = None" and "utf8_valid (as_bytes nid)"
    and load: "load_blockchain env (node_rocks lib) (node_bin lib) new_key nid vc db = Some (Inr bc, db')"
  shows "node_ready env lib healthy (start_node lib cfg bc db')"
proof -
  let ?rdb = "node_rocks lib" and ?bin = "node_bin lib"
  have "store_is_empty ?rdb db = Inr True" using assms(4) by (simp add: store_is_empty_def rocks_get [OF assms(1,2)])
  with load have "create_and_save env ?rdb ?bin new_key nid vc db = (Inr bc, db')" by (simp add: load_blockchain_def)
  then obtain seed bc0 db1 where new: "blockchain_new env new_key seed nid vc = Inr bc0"
    and save: "(case chain bc0 of genesis # _ \<Rightarrow> save_block ?rdb ?bin genesis | [] \<Rightarrow> retS ()) db = (Inr (), db1)"
    and meta: "save_metadata ?rdb nid SCHEMA_VERSION db1 = (Inr (), db')" and "bc0 = bc"
    unfolding create_and_save_def bindS_Inr_iff by (auto simp: liftS_def retS_def)
  then have new: "blockchain_new env new_key seed nid vc = Inr bc" by simp
  then obtain g where g: "chain bc = [g]" "b_index g = 0"
    by (auto simp: blockchain_new_def res_iff dest: block_new_fields)
  have saved: "save_block ?rdb ?bin g db = (Inr (), db1)" using save g(1) \<open>bc0 = bc\<close> by simp
  let ?m = "contents ?rdb db"
  have empty: "chain_held ?bin ?m []" using assms(4) by (simp add: chain_held_def)
  obtain v where v: "enc ?bin g = Inr v" using total_codecD [OF assms(3)] by blast
  obtain m1: "contents ?rdb db1 = ?m(block_key (b_index g) \<mapsto> v, chain_length_key \<mapsto> u64_to_le_bytes (b_index g + 1))"
    and h1: "healthy db1" by (rule save_block_ok [OF assms(1,2) v]) (use saved in simp)
  have held: "chain_held ?bin (contents ?rdb db1) [g]"
    using chain_held_append [OF empty v] g(2) by (simp add: m1)
  obtain db2 where put: "db_put ?rdb db1 node_id_key (as_bytes nid) = (Inr (), db2)" and h2: "healthy db2"
    and m2: "contents ?rdb db2 = (contents ?rdb db1)(node_id_key \<mapsto> as_bytes nid)" by (rule rocks_put [OF assms(1) h1])
  obtain db3 where put': "db_put ?rdb db2 schema_key (as_bytes SCHEMA_VERSION) = (Inr (), db3)" and h3: "healthy db3"
    and m3: "contents ?rdb db3 = (contents ?rdb db2)(schema_key \<mapsto> as_bytes SCHEMA_VERSION)"
    by (rule rocks_put [OF assms(1) h2])
  have db': "db' = db3" using meta put put' by (simp add: save_metadata_def db_call_def bindS_def)
  have "chain_held ?bin (contents ?rdb db3) [g]" using held by (simp add: chain_held_def m2 m3)
  moreover have "contents ?rdb db3 (checkpoint_key i) = None" for i using assms(4) by (simp add: m1 m2 m3)
  ultimately have "durable ?rdb healthy ?bin [g] db3"
    using assms(1,3,5) h3 by (auto simp: durable_def store_holds_def store_laws_def total_codec_def m2 m3)
  then show ?thesis by (simp add: node_ready_def g db' well_indexed_def)
qed

section \<open>A concrete node\<close>

definition demo_libs :: "(demo_db, rate_limit_cache_entry demo_cache, nonce_entry demo_cache) node_libs" where
  "demo_libs = \<lparr>nl_api = (demo_api \<lparr>cl_sub = [], cl_api_key_hash = [], cl_encrypted_api_key = [], cl_exp = 0, cl_iat = 0\<rparr>)
       \<lparr>lb_audit := (demo_audit [])\<lparr>au_block_bin := demo_block_codec\<rparr>\<rparr>,
     nl_nonces = demo_lru, nl_p2p = demo_wire [], nl_test_js = str_codec (table_codec []),
     nl_ws_js = str_codec (table_codec [Subscribe BlockchainUpdate])\<rparr>"

definition demo_run :: "node_op list" where
  "demo_run = [SocketOpens ''c'' None, NonceTimer 5, SocketReceives ''c'' [OtherFrame, TextFrame []],
     PeerConnects \<lparr>cn_now = (\<lambda>_. 7), cn_io = (\<lambda>_. None), cn_peer = ''p'', cn_input = [1]\<rparr>]"

abbreviation demo_start :: "(demo_db, rate_limit_cache_entry demo_cache, nonce_entry demo_cache) node_state" where
  "demo_start \<equiv> start_node demo_libs demo_cfg (demo_bc 0 [] []) (demo_store demo_block_codec SCHEMA_VERSION)"

lemma demo_libs_sel [simp]:
  "node_rocks demo_libs = demo_rocks" "node_bin demo_libs = demo_block_codec" "one_database demo_libs"
  by (simp_all add: demo_libs_def one_database_def demo_api_def demo_rate_def)

lemma demo_start_ready: "node_ready env demo_libs demo_healthy demo_start"
proof -
  obtain v where v: "enc demo_block_codec (demo_genesis 0) = Inr v" using total_codecD [OF demo_block_codec_ok] by blast
  note store = demo_store_ok [OF v, of SCHEMA_VERSION]
  have "utf8_valid (as_bytes ''n'')" by (simp add: as_bytes_def)
  with store have "\<exists>s. map_of (demo_store demo_block_codec SCHEMA_VERSION) node_id_key = Some (as_bytes s) \<and> utf8_valid (as_bytes s)"
    by blast
  then show ?thesis
    using store demo_p2p_sound [of env] by (simp add: node_ready_def p2p_sound_def durable_def)
qed

lemma demo_run_chain: "chain (nd_chain (node_run env lib demo_cfg demo_run demo_start)) = [demo_genesis 0]"
  by (simp add: node_run_def demo_run_def on_nonces_def Let_def serve_connection_def handle_connection_def
      read_frame_def read_exact_def bindS_def admit_message_def split_def)

text \<open>A peer that sends a block which follows the last one.\<close>

lemma peer_block_arrives:
  assumes "codec_ok (nl_p2p lib)" and "enc (nl_p2p lib) (NewBlock b) = Inr encoded" and "length encoded \<le> 100000000"
    and "- 10 \<le> peer_rep (p2p_view nd) peer" and "fst (admit_message now peer (p2p_view nd)) = Inr ()"
    and "chain (nd_chain nd) \<noteq> []" and "wire_links env (last (chain (nd_chain nd))) b"
    and "\<forall>x\<in>set (chain (nd_chain nd)). b_hash x \<noteq> b_hash b" and "peer \<notin> set (nd_blacklist nd)"
  shows "chain (nd_chain (node_step env lib cfg (PeerConnects \<lparr>cn_now = now, cn_io = (\<lambda>_. None), cn_peer = peer,
    cn_input = frame encoded\<rparr>) nd)) = chain (nd_chain nd) @ [b]"
proof -
  have "peer \<notin> set (pn_blacklist (p2p_view nd))" using assms(9) by (simp add: p2p_view_def)
  then show ?thesis
    using assms(6-8) by (simp add: serve_connection_def handle_connection_block [OF assms(1-5) refl] bindS_def
        handle_new_block_append admit_message_sel)
qed

text \<open>A third block, by a validator with a long name, so that its hash is new.\<close>

abbreviation second_block :: block where "second_block \<equiv> demo_block short_env 172800 []"

definition third_block :: block where
  "third_block = (let b = second_block\<lparr>b_index := 2, b_previous_hash := b_hash second_block, b_validator := replicate 500 CHR ''X''\<rparr>
     in b\<lparr>b_hash := calculate_hash short_env b\<rparr>)"

lemma third_block_links: "wire_links short_env second_block third_block"
  by (simp add: wire_links_def third_block_def Let_def demo_block_def calculate_hash_def hash_content_def)

lemma demo_hash_length: "length (hash_string (demo_node cs as js) x) = 64"
proof -
  have "length (demo_hex_encode bs) = 2 * length bs" for bs by (induction bs) (simp_all add: demo_hex_encode_def)
  then show ?thesis by (simp add: hash_string_def demo_env_def)
qed

lemma third_block_hash: "b_hash third_block = hash_string short_env
    (''2'' @ show_int 172800 @ EMPTY_MERKLE_ROOT @ b_hash second_block @ replicate 500 CHR ''X'')"
  by (simp add: third_block_def Let_def calculate_hash_def hash_content_def show_u64_def show_nat.simps
     calculate_merkle_root_def demo_block_def)

lemma third_block_new: "b_hash third_block \<notin> {b_hash second_block, b_hash (demo_genesis 0)}"
proof -
  let ?s = "''2'' @ show_int 172800 @ EMPTY_MERKLE_ROOT @ b_hash second_block @ replicate 500 CHR ''X''"
  let ?t = "''1'' @ show_int 172800 @ EMPTY_MERKLE_ROOT @ replicate 64 CHR ''0'' @ ''V''"
  have s: "length ?s \<le> 1000" and t: "length ?t \<le> 1000"
    by (simp_all add: demo_block_hash demo_hash_length EMPTY_MERKLE_ROOT_def show_int_def show_nat.simps)
  have second: "b_hash second_block = hash_string short_env ?t" by (simp add: demo_block_hash calculate_merkle_root_def)
  have "sum_list (map (\<lambda>b. unat b + 1) (as_bytes ?t)) < 40000"
    by (simp add: EMPTY_MERKLE_ROOT_def show_int_def show_nat.simps as_bytes_def sum_list_replicate)
  moreover have "44500 \<le> sum_list (map (\<lambda>b. unat b + 1) (as_bytes ?s))"
    by (simp add: as_bytes_def sum_list_replicate)
  ultimately have "hash_string short_env ?s \<noteq> hash_string short_env ?t"
    by (subst demo_hash_inject [OF s t]) simp
  moreover have "hash_string short_env ?s \<noteq> replicate 64 CHR ''0''" by (rule demo_hash_not_zero [OF s])
  ultimately show ?thesis by (simp add: third_block_hash second demo_genesis_def)
qed

text \<open>The wire format of these nodes knows one message, the announcement of the block \<open>b\<close>.\<close>

definition peer_libs :: "block \<Rightarrow> (demo_db, rate_limit_cache_entry demo_cache, nonce_entry demo_cache) node_libs" where
  "peer_libs b = demo_libs\<lparr>nl_p2p := demo_wire [NewBlock b]\<rparr>"

abbreviation race_libs :: "(demo_db, rate_limit_cache_entry demo_cache, nonce_entry demo_cache) node_libs" where
  "race_libs \<equiv> peer_libs third_block"

definition block_arrives :: node_op where
  "block_arrives = PeerConnects \<lparr>cn_now = (\<lambda>_. 7), cn_io = (\<lambda>_. None), cn_peer = ''p'', cn_input = frame []\<rparr>"

lemma race_libs_sel [simp]:
  "node_rocks (peer_libs b) = demo_rocks" "node_bin (peer_libs b) = demo_block_codec" "one_database (peer_libs b)"
  "nl_p2p (peer_libs b) = demo_wire [NewBlock b]"
  using demo_libs_sel by (simp_all add: peer_libs_def one_database_def)

lemma race_start_ready: "node_ready env (peer_libs b) demo_healthy demo_start"
  using demo_start_ready [of env] by (simp add: node_ready_def)

lemma demo_block_arrives:
  assumes "nl_p2p lib = demo_wire [NewBlock b]"
    and "chain (nd_chain nd) \<noteq> []" "wire_links env (last (chain (nd_chain nd))) b" "\<forall>x\<in>set (chain (nd_chain nd)). b_hash x \<noteq> b_hash b"
    and "nd_reputation nd ''p'' = None" "nd_limiters nd = Map.empty" "nd_blacklist nd = []"
  shows "chain (nd_chain (node_step env lib cfg block_arrives nd)) = chain (nd_chain nd) @ [b]"
  unfolding block_arrives_def
proof (rule peer_block_arrives)
  show "fst (admit_message (\<lambda>_. 7) ''p'' (p2p_view nd)) = Inr ()"
    using assms(6,7) by (simp add: admit_message_def p2p_view_def tracker_new_def check_and_increment_def Let_def)
  show "codec_ok (nl_p2p lib)" "enc (nl_p2p lib) (NewBlock b) = Inr []"
    unfolding assms(1) by (simp_all add: demo_wire_def table_codec_ok) (simp add: table_codec_def)
qed (use assms in \<open>simp_all add: peer_rep_def p2p_view_def\<close>)

lemma third_block_arrives:
  assumes "chain (nd_chain nd) = [demo_genesis 0, second_block]"
    and "nd_reputation nd ''p'' = None" "nd_limiters nd = Map.empty" "nd_blacklist nd = []"
  shows "chain (nd_chain (node_step short_env race_libs cfg block_arrives nd)) = chain (nd_chain nd) @ [third_block]"
  by (rule demo_block_arrives) (use assms third_block_links third_block_new in auto)

lemma demo_start_sel: "nd_reputation demo_start = Map.empty" "nd_limiters demo_start = Map.empty"
    "nd_blacklist demo_start = []" "nd_unsaved demo_start = []"
  by (simp_all add: start_node_def p2p_new_def Let_def)

lemma demo_flush_creates:
  defines "nd \<equiv> flush_creates short_env (demo_col ''o'') (demo_seed 172800 0) demo_start"
  shows "nd_unsaved nd = [second_block]" "chain (nd_chain nd) = [demo_genesis 0, second_block]"
    "nd_reputation nd = Map.empty" "nd_limiters nd = Map.empty" "nd_blacklist nd = []"
proof -
  have col: "snd (add_collection (demo_col ''o'') (demo_bc 0 [] [])) = demo_bc 0 [] [demo_col ''o'']"
    by (simp add: add_collection_def demo_bc_def)
  have "enc (str_codec (table_codec [demo_container [] [demo_col ''o'']])) (demo_container [] [demo_col ''o'']) = Inr []"
    by (simp add: str_codec_def table_codec_def of_bytes_def)
  then have make: "make_block short_env (demo_seed 172800 0) (demo_bc 0 [] [demo_col ''o'']) = Inr second_block"
    by (simp add: demo_make_block_eq obfuscate_timestamp_def)
  show "nd_unsaved nd = [second_block]" "chain (nd_chain nd) = [demo_genesis 0, second_block]"
    "nd_reputation nd = Map.empty" "nd_limiters nd = Map.empty" "nd_blacklist nd = []"
    by (simp_all add: nd_def flush_creates_def flush_create_def col make add_block_def is_authorized_validator_def
        demo_start_sel Let_def split_def)
qed

text \<open>The demo node gets a second block from a peer.\<close>

lemma second_block_arrives:
  assumes "nl_p2p lib = demo_wire [NewBlock second_block]"
  shows "chain (nd_chain (node_step short_env lib cfg block_arrives demo_start)) = [demo_genesis 0, second_block]"
proof -
  have "b_hash second_block \<noteq> b_hash (demo_genesis 0)"
    unfolding demo_block_hash demo_genesis_def block.simps
    by (rule demo_hash_not_zero) (simp add: calculate_merkle_root_def EMPTY_MERKLE_ROOT_def show_int_def show_nat.simps)
  moreover have "wire_links short_env (demo_genesis 0) second_block"
    by (simp add: wire_links_def demo_block_def demo_genesis_def Let_def calculate_hash_def hash_content_def)
  ultimately show ?thesis using demo_block_arrives [OF assms, of demo_start short_env cfg] by (simp add: demo_start_sel)
qed

text \<open>The demo node takes over a second block from a peer.\<close>

abbreviation second_synced :: node_op where
  "second_synced \<equiv> SyncReply (\<lambda>_. 200000) ''q'' (Inr (ResponseChain [demo_genesis 0, second_block]))"

lemma demo_sync:
  defines "nd \<equiv> node_step short_env race_libs demo_cfg second_synced demo_start"
  shows "chain (nd_chain nd) = [demo_genesis 0, second_block]" "nd_reputation nd ''p'' = None"
    "nd_limiters nd = Map.empty" "nd_blacklist nd = []"
proof -
  let ?cs = "[demo_genesis 0, second_block]"
  have "is_valid short_env (\<lambda>_. 200000) ((demo_bc 0 [] [])\<lparr>chain := ?cs\<rparr>) = Inr ()" using demo_fork [of 0] by simp
  then have "replace_chain short_env (\<lambda>_. 200000) ?cs (demo_bc 0 [] []) = (Inr True, (demo_bc 0 [] [])\<lparr>chain := ?cs\<rparr>)"
    by (simp add: replace_chain_def replace_chain_temp should_replace_def checkpoint_blocks_def demo_bc_def Let_def)
  then show "chain (nd_chain nd) = ?cs" "nd_reputation nd ''p'' = None" "nd_limiters nd = Map.empty" "nd_blacklist nd = []"
    by (simp_all add: nd_def sync_chain_def set_p2p_def add_reputation_def p2p_view_def demo_start_sel)
qed

text \<open>The demo node takes over a second block, and a third one arrives.\<close>

lemma demo_sync_chain:
  "chain (nd_chain (node_run short_env race_libs demo_cfg [second_synced, block_arrives] demo_start))
    = [demo_genesis 0, second_block, third_block]"
  using third_block_arrives [where nd = "node_step short_env race_libs demo_cfg second_synced demo_start" and cfg = demo_cfg] demo_sync
  by (simp add: node_run_def del: node_step.simps)

theorem node_stays_linked_witness:
  "successively (hash_links short_env) [demo_genesis 0, second_block, third_block]
    \<and> length (chain (nd_chain (node_run short_env race_libs demo_cfg [second_synced] demo_start)))
      \<le> length (chain (nd_chain (node_run short_env race_libs demo_cfg [second_synced, block_arrives] demo_start)))"
  using node_stays_linked [of race_libs demo_start short_env demo_cfg "[second_synced, block_arrives]" "[]"]
    node_stays_linked [of race_libs demo_start short_env demo_cfg "[second_synced]" "[block_arrives]"]
  unfolding demo_sync_chain Let_def append.simps by simp

end
