(* ===== verification/Goud_Migration.thy ===== *)
theory Goud_Migration
  imports Goud_Store
begin

text \<open>
  Schema migrations: version strings (\<open>src/storage/migration.rs\<close>), the record of applied migrations
  in the database (\<open>src/storage/migration_store.rs\<close>), the runner
  (\<open>src/storage/migration_runner.rs\<close>) and the example migration
  (\<open>src/migrations/example_20240101120000_add_metadata_index.rs\<close>). The runner is written over the
  operations of a migration log; the locale \<open>migration_log\<close> is its contract and the migration store
  fulfils it.
\<close>

section \<open>Versions\<close>

text \<open>The formatting directive \<open>{:02}\<close>.\<close>

definition show_02 :: "nat \<Rightarrow> string" where
  "show_02 n = (if n < 10 then CHR ''0'' # show_nat n else show_nat n)"

definition invalid_version :: "string \<Rightarrow> 'a res" where
  "invalid_version msg = Err (InvalidMigrationVersion msg)"

definition version_part :: "string \<Rightarrow> nat \<Rightarrow> nat \<Rightarrow> string \<Rightarrow> nat res" where
  "version_part version i n what =
     ok_or (parse_unsigned (2 ^ 32 - 1) (take n (drop i version)))
       (Fail (InvalidMigrationVersion (''invalid '' @ what @ '' component'')))"

definition validate_migration_version :: "string \<Rightarrow> unit res" where
  "validate_migration_version version =
     (if length version \<noteq> 14
      then invalid_version (''version must be 14 characters (YYYYMMDDHHMMSS), got '' @ show_nat (length version) @ '' characters'')
      else if \<not> list_all is_ascii_digit version
      then invalid_version ''version must contain only digits (0-9)''
      else
        bindE (version_part version 0 4 ''year'') (\<lambda>year.
        bindE (version_part version 4 2 ''month'') (\<lambda>month.
        bindE (version_part version 6 2 ''day'') (\<lambda>day.
        bindE (version_part version 8 2 ''hour'') (\<lambda>hour.
        bindE (version_part version 10 2 ''minute'') (\<lambda>minute.
        bindE (version_part version 12 2 ''second'') (\<lambda>second.
        if \<not> (2020 \<le> year \<and> year \<le> 2100)
        then invalid_version (''year must be between 2020 and 2100, got '' @ show_nat year)
        else if \<not> (1 \<le> month \<and> month \<le> 12)
        then invalid_version (''month must be between 01 and 12, got '' @ show_02 month)
        else if \<not> (1 \<le> day \<and> day \<le> 31)
        then invalid_version (''day must be between 01 and 31, got '' @ show_02 day)
        else if hour \<ge> 24
        then invalid_version (''hour must be between 00 and 23, got '' @ show_02 hour)
        else if minute \<ge> 60
        then invalid_version (''minute must be between 00 and 59, got '' @ show_02 minute)
        else if second \<ge> 60
        then invalid_version (''second must be between 00 and 59, got '' @ show_02 second)
        else Inr ())))))))"

section \<open>Migrations\<close>

record migration_metadata =
  mm_version :: string
  mm_description :: string
  mm_applied_at :: i64
  mm_checksum :: string

text \<open>The trait; \<open>up\<close> reads the clock. No migration of the repository overrides \<open>checksum\<close>.\<close>

record 'db migration =
  mg_version :: string
  mg_description :: string
  mg_up :: "i64 \<Rightarrow> ('db, fail, unit) act"
  mg_down :: "('db, fail, unit) act"

definition migration_checksum :: "'z crypto_env_scheme \<Rightarrow> 'db migration \<Rightarrow> string" where
  "migration_checksum env mg =
     hex_encode env (digest_bytes (sha256 env (as_bytes (mg_version mg @ ''_'' @ mg_description mg))))"

section \<open>The migration store\<close>

definition MIGRATION_APPLIED_PREFIX :: string where "MIGRATION_APPLIED_PREFIX = ''migration:applied:''"
abbreviation current_schema_key :: bytes where "current_schema_key \<equiv> as_bytes ''migration:current_schema''"

definition applied_key :: "string \<Rightarrow> bytes" where
  "applied_key version = as_bytes (MIGRATION_APPLIED_PREFIX @ version)"

text \<open>The loop over the prefix iterator, shared by the scan for metadata and the scan for keys.\<close>

fun scan_applied :: "(bytes \<times> bytes \<Rightarrow> 'a res) \<Rightarrow> (string + bytes \<times> bytes) list \<Rightarrow> 'a list res" where
  "scan_applied f [] = Inr []"
| "scan_applied f (Inl e # items) = Err (RocksDbError e)"
| "scan_applied f (Inr (key, value) # items) =
     (case from_utf8 key of
        Inl _ \<Rightarrow> Err (Utf8Error ''invalid utf-8'')
      | Inr key_str \<Rightarrow>
          if \<not> has_prefix MIGRATION_APPLIED_PREFIX key_str then Inr []
          else bindE (f (key, value)) (\<lambda>x. bindE (scan_applied f items) (\<lambda>xs. Inr (x # xs))))"

definition get_applied_migrations ::
  "'db rocks \<Rightarrow> (migration_metadata, bytes) codec \<Rightarrow> 'db \<Rightarrow> migration_metadata list res" where
  "get_applied_migrations rdb bin db =
     bindE (scan_applied (\<lambda>(key, value). map_err (\<lambda>e. Fail (DeserializationError e)) (dec bin value))
              (db_iter rdb db (as_bytes MIGRATION_APPLIED_PREFIX)))
       (\<lambda>migrations. Inr (sort_key mm_version migrations))"

definition is_applied :: "'db rocks \<Rightarrow> string \<Rightarrow> 'db \<Rightarrow> bool res" where
  "is_applied rdb version db =
     (case db_get rdb db (applied_key version) of
        Inr (Some _) \<Rightarrow> Inr True
      | Inr None \<Rightarrow> Inr False
      | Inl e \<Rightarrow> Err (RocksDbError e))"

definition mark_applied ::
  "'db rocks \<Rightarrow> (migration_metadata, bytes) codec \<Rightarrow> migration_metadata \<Rightarrow> ('db, fail, unit) act" where
  "mark_applied rdb bin metadata =
     bindS (liftS (map_err (\<lambda>e. Fail (SerializationError e)) (enc bin metadata))) (\<lambda>serialized.
     db_call RocksDbError (\<lambda>db. db_write rdb db
       [BPut (applied_key (mm_version metadata)) serialized,
        BPut current_schema_key (as_bytes (mm_version metadata))]))"

definition mark_unapplied ::
  "'db rocks \<Rightarrow> (migration_metadata, bytes) codec \<Rightarrow> string \<Rightarrow> ('db, fail, unit) act" where
  "mark_unapplied rdb bin version db =
     (case get_applied_migrations rdb bin db of
        Inl e \<Rightarrow> (Inl e, db)
      | Inr applied \<Rightarrow>
          let remaining = filter (\<lambda>m. mm_version m \<noteq> version) applied;
              schema = (if remaining = [] then BDel current_schema_key
                        else BPut current_schema_key (as_bytes (mm_version (last remaining))))
          in db_call RocksDbError (\<lambda>db. db_write rdb db [BDel (applied_key version), schema]) db)"

definition get_current_schema :: "'db rocks \<Rightarrow> 'db \<Rightarrow> string option res" where
  "get_current_schema rdb db =
     (case db_get rdb db current_schema_key of
        Inr (Some bs) \<Rightarrow> bindE (map_err (\<lambda>_. Fail (Utf8Error ''invalid utf-8'')) (from_utf8 bs)) (\<lambda>v. Inr (Some v))
      | Inr None \<Rightarrow> Inr None
      | Inl e \<Rightarrow> Err (RocksDbError e))"

definition clear_all_migrations :: "'db rocks \<Rightarrow> ('db, fail, unit) act" where
  "clear_all_migrations rdb db =
     (case scan_applied (\<lambda>(key, value). Inr key) (db_iter rdb db (as_bytes MIGRATION_APPLIED_PREFIX)) of
        Inl e \<Rightarrow> (Inl e, db)
      | Inr keys \<Rightarrow>
          db_call RocksDbError (\<lambda>db. db_write rdb db (map BDel keys @ [BDel current_schema_key])) db)"

section \<open>The runner\<close>

text \<open>The operations of a migration store that the runner calls.\<close>

record 'db migration_ops =
  mo_applied :: "'db \<Rightarrow> migration_metadata list res"
  mo_is_applied :: "string \<Rightarrow> 'db \<Rightarrow> bool res"
  mo_mark :: "migration_metadata \<Rightarrow> ('db, fail, unit) act"
  mo_unmark :: "string \<Rightarrow> ('db, fail, unit) act"
  mo_schema :: "'db \<Rightarrow> string option res"
  mo_clear :: "('db, fail, unit) act"

definition migration_store :: "'db rocks \<Rightarrow> (migration_metadata, bytes) codec \<Rightarrow> 'db migration_ops" where
  "migration_store rdb bin = \<lparr>mo_applied = get_applied_migrations rdb bin, mo_is_applied = is_applied rdb,
     mo_mark = mark_applied rdb bin, mo_unmark = mark_unapplied rdb bin, mo_schema = get_current_schema rdb,
     mo_clear = clear_all_migrations rdb\<rparr>"

definition get_pending_migrations ::
  "'db migration_ops \<Rightarrow> 'db migration list \<Rightarrow> 'db \<Rightarrow> 'db migration list res" where
  "get_pending_migrations ops available db =
     bindE (mo_applied ops db) (\<lambda>applied.
     let applied_versions = map mm_version applied
     in Inr (filter (\<lambda>m. mg_version m \<notin> set applied_versions) available))"

text \<open>\<open>t\<close> gives the two clock readings of one migration: in \<open>up\<close>, and for its metadata.\<close>

definition apply_migration ::
  "'z crypto_env_scheme \<Rightarrow> 'db migration_ops \<Rightarrow> i64 \<times> i64 \<Rightarrow> 'db migration \<Rightarrow> ('db, fail, unit) act" where
  "apply_migration env ops t mg =
     bindS (liftS (validate_migration_version (mg_version mg))) (\<lambda>_.
     bindS (\<lambda>db. (mo_is_applied ops (mg_version mg) db, db)) (\<lambda>applied.
     if applied then failS (Fail (MigrationAlreadyApplied (mg_version mg)))
     else
       bindS (\<lambda>db. let (r, db') = mg_up mg (fst t) db
                    in (map_fail (\<lambda>e. MigrationFailed (mg_version mg @ '': '' @ error_to_string e)) r, db')) (\<lambda>_.
       mo_mark ops \<lparr>mm_version = mg_version mg, mm_description = mg_description mg,
         mm_applied_at = snd t, mm_checksum = migration_checksum env mg\<rparr>)))"

fun apply_loop ::
  "'z crypto_env_scheme \<Rightarrow> 'db migration_ops \<Rightarrow> (nat \<Rightarrow> i64 \<times> i64) \<Rightarrow> nat \<Rightarrow> 'db migration list
     \<Rightarrow> ('db, fail, string list) act" where
  "apply_loop env ops clk i [] = retS []"
| "apply_loop env ops clk i (mg # mgs) =
     bindS (apply_migration env ops (clk i) mg) (\<lambda>_.
     bindS (apply_loop env ops clk (Suc i) mgs) (\<lambda>vs.
     retS (mg_version mg # vs)))"

definition apply_pending ::
  "'z crypto_env_scheme \<Rightarrow> 'db migration_ops \<Rightarrow> (nat \<Rightarrow> i64 \<times> i64) \<Rightarrow> 'db migration list
     \<Rightarrow> ('db, fail, nat \<times> string list) act" where
  "apply_pending env ops clk available =
     bindS (\<lambda>db. (get_pending_migrations ops available db, db)) (\<lambda>pending.
     if pending = [] then retS (0, [])
     else bindS (apply_loop env ops clk 0 pending) (\<lambda>vs. retS (length vs, vs)))"

definition rollback_migration :: "'db migration_ops \<Rightarrow> 'db migration \<Rightarrow> ('db, fail, unit) act" where
  "rollback_migration ops mg =
     bindS (\<lambda>db. (mo_is_applied ops (mg_version mg) db, db)) (\<lambda>applied.
     if \<not> applied then failS (Fail (MigrationNotFound (mg_version mg)))
     else
       bindS (\<lambda>db. let (r, db') = mg_down mg db
                    in (map_fail (\<lambda>e. MigrationRollbackFailed (mg_version mg @ '': '' @ error_to_string e)) r, db')) (\<lambda>_.
       mo_unmark ops (mg_version mg)))"

fun rollback_loop ::
  "'db migration_ops \<Rightarrow> 'db migration list \<Rightarrow> migration_metadata list \<Rightarrow> ('db, fail, nat) act" where
  "rollback_loop ops available [] = retS 0"
| "rollback_loop ops available (m # ms) =
     bindS (liftS (ok_or (find (\<lambda>mg. mg_version mg = mm_version m) available)
        (Fail (MigrationNotFound (''Migration '' @ mm_version m @ '' not found in available migrations''))))) (\<lambda>mg.
     bindS (rollback_migration ops mg) (\<lambda>_.
     bindS (rollback_loop ops available ms) (\<lambda>n.
     retS (Suc n))))"

definition rollback_last ::
  "'db migration_ops \<Rightarrow> nat \<Rightarrow> 'db migration list \<Rightarrow> ('db, fail, nat) act" where
  "rollback_last ops count available =
     bindS (\<lambda>db. (mo_applied ops db, db)) (\<lambda>applied.
     if applied = [] then failS (Fail NoMigrationsToRollback)
     else rollback_loop ops available (take count (rev applied)))"

definition reset_migrations :: "'db migration_ops \<Rightarrow> ('db, fail, unit) act" where
  "reset_migrations ops = mo_clear ops"

record migration_status =
  ms_applied :: "migration_metadata list"
  ms_pending :: "string list"
  ms_current_schema :: "string option"

definition get_status :: "'db migration_ops \<Rightarrow> 'db migration list \<Rightarrow> 'db \<Rightarrow> migration_status res" where
  "get_status ops available db =
     bindE (mo_applied ops db) (\<lambda>applied.
     bindE (mo_schema ops db) (\<lambda>current_schema.
     bindE (get_pending_migrations ops available db) (\<lambda>pending.
     Inr \<lparr>ms_applied = applied, ms_pending = map mg_version pending, ms_current_schema = current_schema\<rparr>)))"

section \<open>The example migration\<close>

abbreviation index_enabled_key :: bytes where "index_enabled_key \<equiv> as_bytes ''metadata:index:enabled''"
abbreviation index_created_key :: bytes where "index_created_key \<equiv> as_bytes ''metadata:index:created_at''"

definition add_metadata_index :: "'db rocks \<Rightarrow> 'db migration" where
  "add_metadata_index rdb = \<lparr>
     mg_version = ''20240101120000'',
     mg_description = ''add_metadata_index'',
     mg_up = (\<lambda>now. db_call RocksDbError (\<lambda>db. db_write rdb db
       [BPut index_enabled_key (as_bytes ''true''), BPut index_created_key (as_bytes (show_int now))])),
     mg_down = db_call RocksDbError (\<lambda>db. db_write rdb db [BDel index_enabled_key, BDel index_created_key])\<rparr>"

section \<open>The contract of a migration log\<close>

text \<open>The metadata of the applied migrations, oldest version first, and the newest version.\<close>

definition log_list :: "(string \<rightharpoonup> migration_metadata) \<Rightarrow> migration_metadata list" where
  "log_list M = map (\<lambda>v. the (M v)) (sorted_list_of_set (dom M))"

definition newest :: "(string \<rightharpoonup> migration_metadata) \<Rightarrow> string option" where
  "newest M = (if dom M = {} then None else Some (Max (dom M)))"

text \<open>A migration that succeeds in both directions and leaves the log alone.\<close>

definition steady ::
  "('db \<Rightarrow> (string \<rightharpoonup> migration_metadata) \<Rightarrow> string option \<Rightarrow> bool) \<Rightarrow> 'db migration \<Rightarrow> bool" where
  "steady logs mg \<longleftrightarrow> (\<forall>db M sch. logs db M sch \<longrightarrow>
     (\<forall>t. \<exists>db'. mg_up mg t db = (Inr (), db') \<and> logs db' M sch)
     \<and> (\<exists>db'. mg_down mg db = (Inr (), db') \<and> logs db' M sch))"

lemma steadyD:
  assumes "steady logs mg" and "logs db M sch"
  obtains (up_down) u d where "mg_up mg t db = (Inr (), u)" "logs u M sch" "mg_down mg db = (Inr (), d)" "logs d M sch"
  using assms unfolding steady_def by meson

lemma Max_sorted_last: "sorted xs \<Longrightarrow> xs \<noteq> [] \<Longrightarrow> Max (set xs) = last xs"
  by (induction xs rule: rev_induct) (auto simp: sorted_append intro!: Max_eqI)

lemma sorted_list_of_set_take:
  "finite S \<Longrightarrow> sorted_list_of_set (set (take n (sorted_list_of_set S))) = take n (sorted_list_of_set S)"
  by (rule sorted_list_of_set.idem_if_sorted_distinct) (simp_all add: sorted_wrt_take)

lemma restrict_drop:
  assumes "finite (dom M)"
  shows "M |` (- set (drop n (sorted_list_of_set (dom M)))) = M |` set (take n (sorted_list_of_set (dom M)))"
proof -
  let ?vs = "sorted_list_of_set (dom M)"
  have "set (take n ?vs) \<inter> set (drop n ?vs) = {}"
    by (rule set_take_disj_set_drop_if_distinct) simp_all
  moreover have "set (take n ?vs) \<union> set (drop n ?vs) = dom M"
    using assms set_append [of "take n ?vs" "drop n ?vs"] by (simp del: set_append)
  ultimately show ?thesis by (auto simp: restrict_map_def fun_eq_iff domIff)
qed

lemma log_list_take:
  "finite (dom M) \<Longrightarrow> log_list (M |` set (take n (sorted_list_of_set (dom M)))) = take n (log_list M)"
proof -
  assume fin: "finite (dom M)"
  let ?S = "set (take n (sorted_list_of_set (dom M)))"
  have "dom (M |` ?S) = ?S" using fin by (auto dest: in_set_takeD)
  then show ?thesis
    using sorted_list_of_set_take [OF fin, of n]
    by (simp add: log_list_def take_map)
qed

lemma newest_take:
  assumes "finite (dom M)"
  shows "newest (M |` set (take n (sorted_list_of_set (dom M))))
    = (if take n (sorted_list_of_set (dom M)) = [] then None else Some (last (take n (sorted_list_of_set (dom M)))))"
proof -
  let ?xs = "take n (sorted_list_of_set (dom M))"
  have d: "dom (M |` set ?xs) = set ?xs" using assms by (auto dest: in_set_takeD)
  have "Max (set ?xs) = last ?xs" if "?xs \<noteq> []"
    using that by (intro Max_sorted_last) (simp_all add: sorted_wrt_take)
  then show ?thesis unfolding newest_def d by simp
qed

locale migration_log =
  fixes ops :: "'db migration_ops"
    and logs :: "'db \<Rightarrow> (string \<rightharpoonup> migration_metadata) \<Rightarrow> string option \<Rightarrow> bool"
  assumes applied: "logs db M sch \<Longrightarrow> mo_applied ops db = Inr (log_list M)"
    and is_applied: "logs db M sch \<Longrightarrow> mo_is_applied ops v db = Inr (M v \<noteq> None)"
    and mark: "logs db M sch \<Longrightarrow> validate_migration_version (mm_version m) = Inr () \<Longrightarrow>
      \<exists>db'. mo_mark ops m db = (Inr (), db') \<and> logs db' (M(mm_version m \<mapsto> m)) (Some (mm_version m))"
    and unmark: "logs db M sch \<Longrightarrow>
      \<exists>db'. mo_unmark ops v db = (Inr (), db') \<and> logs db' (M(v := None)) (newest (M(v := None)))"
    and schema: "logs db M sch \<Longrightarrow> mo_schema ops db = Inr sch"
    and finite_log: "logs db M sch \<Longrightarrow> finite (dom M)"
    and log_versions: "logs db M sch \<Longrightarrow> M v = Some m \<Longrightarrow> mm_version m = v"
begin

lemma versions_log_list: "logs db M sch \<Longrightarrow> map mm_version (log_list M) = sorted_list_of_set (dom M)"
  using log_versions [of db M sch] finite_log [of db M sch] by (auto simp: log_list_def intro!: map_idI)

lemma pending:
  "logs db M sch \<Longrightarrow> get_pending_migrations ops mgs db = Inr (filter (\<lambda>mg. M (mg_version mg) = None) mgs)"
proof -
  assume l: "logs db M sch"
  have "set (map mm_version (log_list M)) = dom M"
    unfolding versions_log_list [OF l] using finite_log [OF l] by simp
  then show ?thesis by (auto simp: get_pending_migrations_def applied [OF l] Let_def domIff intro!: filter_cong)
qed

lemma apply_one:
  assumes l: "logs db M sch" and "steady logs mg" and v: "validate_migration_version (mg_version mg) = Inr ()"
    and "M (mg_version mg) = None"
  shows "\<exists>db' m. apply_migration env ops t mg db = (Inr (), db') \<and> logs db' (M(mg_version mg \<mapsto> m)) (Some (mg_version mg))"
proof -
  obtain db1 where up: "mg_up mg (fst t) db = (Inr (), db1)" and l1: "logs db1 M sch"
    using assms(2) l by (rule steadyD)
  let ?m = "\<lparr>mm_version = mg_version mg, mm_description = mg_description mg, mm_applied_at = snd t,
    mm_checksum = migration_checksum env mg\<rparr>"
  obtain db2 where "mo_mark ops ?m db1 = (Inr (), db2)" "logs db2 (M(mg_version mg \<mapsto> ?m)) (Some (mg_version mg))"
    using mark [OF l1, of ?m] v by auto
  with up v is_applied [OF l, of "mg_version mg"] assms(4) show ?thesis
    by (auto simp: apply_migration_def bindS_def)
qed

lemma apply_all:
  assumes "logs db M sch" and "list_all (steady logs) mgs" and "distinct (map mg_version mgs)"
    and "list_all (\<lambda>mg. validate_migration_version (mg_version mg) = Inr () \<and> M (mg_version mg) = None) mgs"
  shows "\<exists>db' M'. apply_loop env ops clk i mgs db = (Inr (map mg_version mgs), db')
    \<and> logs db' M' (if mgs = [] then sch else Some (mg_version (last mgs)))
    \<and> dom M' = dom M \<union> set (map mg_version mgs) \<and> (\<forall>v\<in>dom M. M' v = M v)"
  using assms
proof (induction mgs arbitrary: db M sch i)
  case Nil
  then show ?case by auto
next
  case (Cons mg mgs)
  from Cons.prems obtain db1 m where a: "apply_migration env ops (clk i) mg db = (Inr (), db1)"
    and l1: "logs db1 (M(mg_version mg \<mapsto> m)) (Some (mg_version mg))"
    using apply_one [OF Cons.prems(1), of mg env "clk i"] by auto
  have p: "list_all (steady logs) mgs" "distinct (map mg_version mgs)"
    "list_all (\<lambda>g. validate_migration_version (mg_version g) = Inr () \<and> (M(mg_version mg \<mapsto> m)) (mg_version g) = None) mgs"
    using Cons.prems(2-4) by (auto simp: list_all_iff image_iff)
  from Cons.IH [OF l1 p, of "Suc i"] obtain db2 M2
    where b: "apply_loop env ops clk (Suc i) mgs db1 = (Inr (map mg_version mgs), db2)"
    and l2: "logs db2 M2 (if mgs = [] then Some (mg_version mg) else Some (mg_version (last mgs)))"
    and d: "dom M2 = dom (M(mg_version mg \<mapsto> m)) \<union> set (map mg_version mgs)"
    and same: "\<forall>v\<in>dom (M(mg_version mg \<mapsto> m)). M2 v = (M(mg_version mg \<mapsto> m)) v"
    by blast
  have "apply_loop env ops clk i (mg # mgs) db = (Inr (map mg_version (mg # mgs)), db2)"
    using a b by (simp add: bindS_def)
  moreover have "\<forall>v\<in>dom M. M2 v = M v" using same Cons.prems(4) by auto
  moreover have "dom M2 = dom M \<union> set (map mg_version (mg # mgs))" using d by auto
  moreover have "logs db2 M2 (if mg # mgs = [] then sch else Some (mg_version (last (mg # mgs))))"
    using l2 by (simp split: if_splits)
  ultimately show ?case by blast
qed

lemma apply_pending_all:
  assumes l: "logs db M sch" and "list_all (steady logs) mgs" and "distinct (map mg_version mgs)"
    and "list_all (\<lambda>mg. validate_migration_version (mg_version mg) = Inr ()) mgs"
    and "new = filter (\<lambda>mg. M (mg_version mg) = None) mgs"
  shows "\<exists>db' M'. apply_pending env ops clk mgs db = (Inr (length new, map mg_version new), db')
    \<and> logs db' M' (if new = [] then sch else Some (mg_version (last new)))
    \<and> dom M' = dom M \<union> set (map mg_version mgs) \<and> (\<forall>v\<in>dom M. M' v = M v)"
proof -
  have "list_all (steady logs) new" "distinct (map mg_version new)"
    and "list_all (\<lambda>mg. validate_migration_version (mg_version mg) = Inr () \<and> M (mg_version mg) = None) new"
    using assms(2-5) by (auto simp: list_all_iff distinct_map_filter)
  with apply_all [OF l, of new env clk 0] obtain db' M'
    where "apply_loop env ops clk 0 new db = (Inr (map mg_version new), db')"
    and "logs db' M' (if new = [] then sch else Some (mg_version (last new)))"
    and "dom M' = dom M \<union> set (map mg_version new)" "\<forall>v\<in>dom M. M' v = M v" by blast
  moreover have "dom M \<union> set (map mg_version new) = dom M \<union> set (map mg_version mgs)"
    using assms(5) by auto
  ultimately show ?thesis
    using pending [OF l, of mgs] assms(5) by (auto simp: apply_pending_def bindS_def)
qed

lemma rollback_one:
  assumes l: "logs db M sch" and "steady logs mg" and "M (mg_version mg) \<noteq> None"
  shows "\<exists>db'. rollback_migration ops mg db = (Inr (), db')
    \<and> logs db' (M(mg_version mg := None)) (newest (M(mg_version mg := None)))"
proof -
  obtain db1 where down: "mg_down mg db = (Inr (), db1)" and l1: "logs db1 M sch"
    using assms(2) l by (rule steadyD)
  from unmark [OF l1, of "mg_version mg"] down is_applied [OF l, of "mg_version mg"] assms(3) show ?thesis
    by (auto simp: rollback_migration_def bindS_def)
qed

lemma rollback_all:
  assumes "logs db M sch" and "list_all (steady logs) mgs" and "distinct (map mm_version ms)"
    and "\<forall>m\<in>set ms. M (mm_version m) \<noteq> None \<and> mm_version m \<in> set (map mg_version mgs)"
  shows "\<exists>db'. rollback_loop ops mgs ms db = (Inr (length ms), db')
    \<and> logs db' (M |` (- set (map mm_version ms))) (if ms = [] then sch else newest (M |` (- set (map mm_version ms))))"
  using assms
proof (induction ms arbitrary: db M sch)
  case Nil
  then show ?case by simp
next
  case (Cons m ms)
  obtain mg where f: "find (\<lambda>mg. mg_version mg = mm_version m) mgs = Some mg"
    using Cons.prems(4) by (cases "find (\<lambda>mg. mg_version mg = mm_version m) mgs") (auto simp: find_None_iff)
  then have mg: "mg \<in> set mgs" "mg_version mg = mm_version m" by (auto simp: find_Some_iff)
  let ?M = "M(mm_version m := None)"
  obtain db1 where a: "rollback_migration ops mg db = (Inr (), db1)" and l1: "logs db1 ?M (newest ?M)"
    using rollback_one [OF Cons.prems(1), of mg] mg Cons.prems(2,4) by (auto simp: list_all_iff)
  have p: "distinct (map mm_version ms)"
    "\<forall>m'\<in>set ms. ?M (mm_version m') \<noteq> None \<and> mm_version m' \<in> set (map mg_version mgs)"
    using Cons.prems(3,4) by (auto simp: image_iff)
  from Cons.IH [OF l1 Cons.prems(2) p] obtain db2
    where b: "rollback_loop ops mgs ms db1 = (Inr (length ms), db2)"
    and l2: "logs db2 (?M |` (- set (map mm_version ms)))
      (if ms = [] then newest ?M else newest (?M |` (- set (map mm_version ms))))"
    by blast
  have r: "?M |` (- set (map mm_version ms)) = M |` (- set (map mm_version (m # ms)))"
    by (auto simp: restrict_map_def)
  have "?M = M |` (- set (map mm_version (m # ms)))" if "ms = []"
    using that r by (simp add: restrict_map_def fun_eq_iff)
  with l2 r have "logs db2 (M |` (- set (map mm_version (m # ms)))) (newest (M |` (- set (map mm_version (m # ms)))))"
    by (cases "ms = []") simp_all
  with a b f show ?case by (simp add: bindS_def)
qed

text \<open>Rolling back the last \<open>k\<close> migrations keeps the oldest ones.\<close>

lemma rollback_last_exact:
  assumes l: "logs db M sch" and "list_all (steady logs) mgs" and "M \<noteq> Map.empty" and "0 < k"
    and "dom M \<subseteq> set (map mg_version mgs)" and keep: "keep = take (length (log_list M) - k) (log_list M)"
  shows "\<exists>db'. rollback_last ops k mgs db = (Inr (min (length (log_list M)) k), db')
    \<and> mo_applied ops db' = Inr keep
    \<and> mo_schema ops db' = Inr (if keep = [] then None else Some (mm_version (last keep)))"
proof -
  let ?n = "length (log_list M)" and ?ms = "take k (rev (log_list M))"
  have fin: "finite (dom M)" by (rule finite_log [OF l])
  have vs: "map mm_version (log_list M) = sorted_list_of_set (dom M)" by (rule versions_log_list [OF l])
  have ms: "map mm_version ?ms = rev (drop (?n - k) (sorted_list_of_set (dom M)))"
    by (simp add: take_map [symmetric] rev_map [symmetric] vs [symmetric] take_rev drop_map)
  then have "mm_version m \<in> dom M" if "m \<in> set ?ms" for m
    using that fin by (metis (no_types, lifting) image_eqI in_set_dropD set_map set_rev set_sorted_list_of_set)
  with assms(5) have "\<forall>m\<in>set ?ms. M (mm_version m) \<noteq> None \<and> mm_version m \<in> set (map mg_version mgs)" by blast
  moreover have "distinct (map mm_version ?ms)" unfolding ms by simp
  ultimately obtain db' where run: "rollback_loop ops mgs ?ms db = (Inr (length ?ms), db')"
    and l': "logs db' (M |` (- set (map mm_version ?ms)))
      (if ?ms = [] then sch else newest (M |` (- set (map mm_version ?ms))))"
    using rollback_all [OF l assms(2)] by blast
  have ne: "log_list M \<noteq> []" using assms(3) fin by (auto simp: log_list_def)
  then have "?ms \<noteq> []" using assms(4) by simp
  have r: "M |` (- set (map mm_version ?ms)) = M |` set (take (?n - k) (sorted_list_of_set (dom M)))"
    unfolding ms set_rev by (rule restrict_drop [OF fin])
  from l' \<open>?ms \<noteq> []\<close> have l2: "logs db' (M |` set (take (?n - k) (sorted_list_of_set (dom M))))
      (newest (M |` set (take (?n - k) (sorted_list_of_set (dom M)))))" unfolding r by simp
  have "mo_applied ops db' = Inr keep"
    unfolding applied [OF l2] keep by (simp add: log_list_take [OF fin])
  moreover have "mo_schema ops db' = Inr (if keep = [] then None else Some (mm_version (last keep)))"
    unfolding schema [OF l2] newest_take [OF fin] keep
    by (cases "take (?n - k) (log_list M) = []")
      (auto simp: vs [symmetric] take_map last_map)
  moreover have "rollback_last ops k mgs db = (Inr (min (length (log_list M)) k), db')"
    using ne run by (simp add: rollback_last_def bindS_def applied [OF l] min.commute)
  ultimately show ?thesis by blast
qed

end

section \<open>The migration store fulfils the contract\<close>

lemma applied_key_inject [simp]: "applied_key a = applied_key b \<longleftrightarrow> a = b"
  by (simp add: applied_key_def)

lemma applied_key_distinct [simp]: "applied_key a \<noteq> current_schema_key" "current_schema_key \<noteq> applied_key a"
  by (simp_all add: applied_key_def MIGRATION_APPLIED_PREFIX_def del: as_bytes_append)

lemma applied_key_prefix: "has_prefix (as_bytes MIGRATION_APPLIED_PREFIX) k \<longleftrightarrow> (\<exists>v. k = applied_key v)"
proof
  assume "has_prefix (as_bytes MIGRATION_APPLIED_PREFIX) k"
  then have "k = as_bytes MIGRATION_APPLIED_PREFIX @ drop (length (as_bytes MIGRATION_APPLIED_PREFIX)) k"
    unfolding has_prefix_def by (metis append_take_drop_id)
  then show "\<exists>v. k = applied_key v"
    by (metis applied_key_def as_bytes_append as_bytes_of_bytes)
qed (auto simp: applied_key_def)

lemma has_prefix_as_bytes: "has_prefix (as_bytes p) (as_bytes s) \<longleftrightarrow> has_prefix p s"
proof -
  have "take (length p) (as_bytes s) = as_bytes (take (length p) s)" by (simp add: as_bytes_def take_map)
  then show ?thesis by (simp add: has_prefix_def)
qed

definition log_shown ::
  "(migration_metadata, bytes) codec \<Rightarrow> (bytes \<rightharpoonup> bytes) \<Rightarrow> (string \<rightharpoonup> migration_metadata) \<Rightarrow> string option \<Rightarrow> bool" where
  "log_shown bin C M sch \<longleftrightarrow>
     (\<forall>v. case M v of None \<Rightarrow> C (applied_key v) = None
        | Some m \<Rightarrow> mm_version m = v \<and> (\<exists>bs. C (applied_key v) = Some bs \<and> dec bin bs = Inr m))
   \<and> C current_schema_key = map_option as_bytes sch
   \<and> (\<forall>v. sch = Some v \<longrightarrow> utf8_valid (as_bytes v))
   \<and> finite (dom M)
   \<and> (\<forall>v\<in>dom M. utf8_valid (as_bytes v))
   \<and> (\<forall>k\<in>dom C. utf8_valid k)"

definition migration_logs ::
  "'db rocks \<Rightarrow> ('db \<Rightarrow> bool) \<Rightarrow> (migration_metadata, bytes) codec
     \<Rightarrow> 'db \<Rightarrow> (string \<rightharpoonup> migration_metadata) \<Rightarrow> string option \<Rightarrow> bool" where
  "migration_logs rdb healthy bin db M sch \<longleftrightarrow>
     rocks_ok rdb healthy \<and> iter_ok rdb healthy \<and> total_codec bin \<and> healthy db
     \<and> log_shown bin (contents rdb db) M sch"

lemma scan_applied_all:
  assumes "\<forall>(k, v)\<in>set kvs. utf8_valid k \<and> has_prefix (as_bytes MIGRATION_APPLIED_PREFIX) k \<and> f (k, v) = Inr (g (k, v))"
    and "\<forall>(k, v)\<in>set rest. utf8_valid k" and "rest \<noteq> [] \<longrightarrow> \<not> has_prefix (as_bytes MIGRATION_APPLIED_PREFIX) (fst (hd rest))"
  shows "scan_applied f (map Inr (kvs @ rest)) = Inr (map g kvs)"
proof -
  have pre: "has_prefix MIGRATION_APPLIED_PREFIX (of_bytes k) \<longleftrightarrow> has_prefix (as_bytes MIGRATION_APPLIED_PREFIX) k" for k
    using has_prefix_as_bytes [of MIGRATION_APPLIED_PREFIX "of_bytes k"] by simp
  have "scan_applied f (map Inr rest) = Inr []"
    using assms(2,3) by (cases rest) (auto simp: from_utf8_def pre)
  with assms(1) show ?thesis
    by (induction kvs) (auto simp: from_utf8_def pre)
qed

lemma log_shownD:
  assumes "log_shown bin C M sch"
  shows "M v = None \<Longrightarrow> C (applied_key v) = None"
    and "M v = Some m \<Longrightarrow> mm_version m = v \<and> (\<exists>bs. C (applied_key v) = Some bs \<and> dec bin bs = Inr m)"
proof -
  from assms have "case M v of None \<Rightarrow> C (applied_key v) = None
      | Some m \<Rightarrow> mm_version m = v \<and> (\<exists>bs. C (applied_key v) = Some bs \<and> dec bin bs = Inr m)"
    unfolding log_shown_def by blast
  then show "M v = None \<Longrightarrow> C (applied_key v) = None"
    and "M v = Some m \<Longrightarrow> mm_version m = v \<and> (\<exists>bs. C (applied_key v) = Some bs \<and> dec bin bs = Inr m)" by simp_all
qed

lemma log_shown_key:
  assumes "log_shown bin C M sch" and "C (applied_key v) = Some bs"
  obtains m where "M v = Some m" "mm_version m = v" "dec bin bs = Inr m"
  using assms(2) log_shownD [OF assms(1), of v] by (cases "M v") auto

lemma sort_key_log_list:
  assumes "distinct (map mm_version ms)" and "set (map mm_version ms) = dom M"
    and "\<And>m. m \<in> set ms \<Longrightarrow> m = the (M (mm_version m))"
  shows "sort_key mm_version ms = log_list M"
proof -
  let ?xs = "sort_key mm_version ms"
  have "map mm_version ?xs = sorted_list_of_set (dom M)"
  proof (rule sorted_distinct_set_unique)
    show "distinct (map mm_version ?xs)" using assms(1) by (simp add: distinct_map)
    show "set (map mm_version ?xs) = set (sorted_list_of_set (dom M))"
      using assms(2) by (metis List.finite_set set_map set_sort set_sorted_list_of_set)
  qed (simp_all add: sorted_sort_key)
  moreover have "?xs = map (\<lambda>v. the (M v)) (map mm_version ?xs)"
    using assms(3) by (auto intro: map_idI [symmetric])
  ultimately show ?thesis by (simp add: log_list_def)
qed

lemma migration_get_applied:
  assumes g: "migration_logs rdb healthy bin db M sch"
  shows "get_applied_migrations rdb bin db = Inr (log_list M)"
proof -
  let ?p = "as_bytes MIGRATION_APPLIED_PREFIX" and ?C = "contents rdb db"
  from g have iter: "iter_ok rdb healthy" "healthy db" and sh: "log_shown bin ?C M sch"
    by (simp_all add: migration_logs_def)
  obtain kvs rest where it: "db_iter rdb db ?p = map Inr (kvs @ rest)" and d: "distinct (map fst kvs)"
    and kvs: "set kvs = {(k, v). ?C k = Some v \<and> has_prefix ?p k}"
    and rest: "\<forall>(k, v)\<in>set rest. ?C k = Some v" "rest \<noteq> [] \<longrightarrow> \<not> has_prefix ?p (fst (hd rest))"
    using iter by (rule rocks_iter)
  have utf: "utf8_valid k" if "?C k = Some v" for k v using sh that unfolding log_shown_def by blast
  define ver where "ver k = of_bytes (drop (length ?p) k)" for k
  have ver: "ver (applied_key v) = v" for v by (simp add: ver_def applied_key_def)
  define g where "g = (\<lambda>(k :: bytes, v :: bytes). the (M (ver k)))"
  have each: "\<exists>x m. k = applied_key x \<and> M x = Some m \<and> mm_version m = x \<and> dec bin v = Inr m" if "(k, v) \<in> set kvs" for k v
  proof -
    from that kvs obtain x where x: "k = applied_key x" "?C (applied_key x) = Some v" by (auto simp: applied_key_prefix)
    from x(2) obtain m where "M x = Some m" "mm_version m = x" "dec bin v = Inr m" by (rule log_shown_key [OF sh])
    with x(1) show ?thesis by blast
  qed
  have "scan_applied (\<lambda>(key, value). map_err (\<lambda>e. Fail (DeserializationError e)) (dec bin value)) (map Inr (kvs @ rest))
      = Inr (map g kvs)"
  proof (rule scan_applied_all)
    show "\<forall>(k, v)\<in>set kvs. utf8_valid k \<and> has_prefix ?p k
        \<and> (case (k, v) of (key, value) \<Rightarrow> map_err (\<lambda>e. Fail (DeserializationError e)) (dec bin value)) = Inr (g (k, v))"
      using kvs utf each by (fastforce simp: g_def ver)
    show "\<forall>(k, v)\<in>set rest. utf8_valid k" using rest(1) utf by blast
  qed (rule rest(2))
  moreover have "sort_key mm_version (map g kvs) = log_list M"
  proof -
    have vs: "map mm_version (map g kvs) = map (\<lambda>kv. ver (fst kv)) kvs"
      using each by (fastforce simp: g_def ver)
    have "inj_on ver (fst ` set kvs)"
    proof (rule inj_onI)
      fix a b assume "a \<in> fst ` set kvs" "b \<in> fst ` set kvs" and eq: "ver a = ver b"
      then obtain x y where "a = applied_key x" "b = applied_key y" using kvs by (auto simp: applied_key_prefix)
      with eq show "a = b" by (simp add: ver)
    qed
    then have "distinct (map mm_version (map g kvs))"
      unfolding vs using d by (simp add: distinct_map comp_inj_on [unfolded comp_def] flip: set_map)
    moreover have "set (map mm_version (map g kvs)) = dom M"
    proof -
      have "set (map mm_version (map g kvs)) = ver ` fst ` set kvs" unfolding vs by force
      also have "\<dots> = dom M"
        using kvs log_shownD(2) [OF sh] each by (fastforce simp: ver image_iff applied_key_prefix)
      finally show ?thesis .
    qed
    moreover have "m = the (M (mm_version m))" if "m \<in> set (map g kvs)" for m
      using that each by (fastforce simp: g_def ver)
    ultimately show ?thesis by (rule sort_key_log_list)
  qed
  ultimately show ?thesis by (simp add: get_applied_migrations_def it)
qed

lemma utf8_valid_prefix: "utf8_valid (as_bytes MIGRATION_APPLIED_PREFIX @ r) \<longleftrightarrow> utf8_valid r"
  by (simp add: MIGRATION_APPLIED_PREFIX_def as_bytes_def)

lemma utf8_applied_key: "utf8_valid (applied_key v) \<longleftrightarrow> utf8_valid (as_bytes v)"
  by (simp add: applied_key_def utf8_valid_prefix)

lemma utf8_current_schema: "utf8_valid current_schema_key"
  by (simp add: as_bytes_def)

text \<open>An accepted version consists of digits.\<close>

lemma version_utf8: "validate_migration_version v = Inr () \<Longrightarrow> utf8_valid (as_bytes v)"
proof -
  assume "validate_migration_version v = Inr ()"
  then have d: "list_all is_ascii_digit v"
    by (auto simp: validate_migration_version_def invalid_version_def split: if_splits)
  have "(of_char c :: u8) \<le> 0x7F" if "is_ascii_digit c" for c
    using that by (simp add: is_ascii_digit_def word_le_nat_alt unat_of_char)
  with d show ?thesis by (intro utf8_valid_ascii) (auto simp: as_bytes_def list_all_iff)
qed

lemma log_shown_mark:
  assumes "log_shown bin C M sch" and "dec bin bs = Inr m" and "utf8_valid (as_bytes (mm_version m))"
  shows "log_shown bin (C(applied_key (mm_version m) \<mapsto> bs, current_schema_key \<mapsto> as_bytes (mm_version m)))
    (M(mm_version m \<mapsto> m)) (Some (mm_version m))"
  using assms utf8_applied_key utf8_current_schema
  by (simp add: log_shown_def cong: option.case_cong)

lemma log_shown_unmark:
  assumes "log_shown bin C M sch" and "sch' = newest (M(v := None))"
  shows "log_shown bin (C(applied_key v := None, current_schema_key := map_option as_bytes sch')) (M(v := None)) sch'"
proof -
  have fin: "finite (dom (M(v := None)))" using assms(1) by (simp add: log_shown_def)
  have "utf8_valid (as_bytes w)" if "sch' = Some w" for w
  proof -
    from that assms(2) have "w = Max (dom (M(v := None)))" "dom (M(v := None)) \<noteq> {}"
      by (auto simp: newest_def split: if_splits)
    with fin have "w \<in> dom (M(v := None))" using Max_in by blast
    with assms(1) show ?thesis by (simp add: log_shown_def)
  qed
  with assms(1) utf8_current_schema show ?thesis
    by (auto simp: log_shown_def cong: option.case_cong)
qed

lemma newest_log_list:
  assumes "finite (dom M)" and "\<And>v m. M v = Some m \<Longrightarrow> mm_version m = v"
  shows "newest (M(v := None)) =
    (let xs = filter (\<lambda>m. mm_version m \<noteq> v) (log_list M) in if xs = [] then None else Some (mm_version (last xs)))"
proof -
  define xs where "xs = filter (\<lambda>x. x \<noteq> v) (sorted_list_of_set (dom M))"
  have 1: "filter (\<lambda>m. mm_version m \<noteq> v) (log_list M) = map (\<lambda>x. the (M x)) xs"
    unfolding log_list_def filter_map comp_def xs_def
    using assms by (auto intro!: filter_cong arg_cong [where f = "map _"])
  have d: "dom (M(v := None)) = set xs" using assms(1) by (auto simp: xs_def)
  show ?thesis
  proof (cases "xs = []")
    case True
    then show ?thesis unfolding newest_def d 1 by simp
  next
    case False
    then have "last xs \<in> set xs" by simp
    then have "mm_version (the (M (last xs))) = last xs" using assms by (auto simp: xs_def)
    moreover have "Max (set xs) = last xs"
      using False by (intro Max_sorted_last) (simp_all add: xs_def sorted_wrt_filter)
    ultimately show ?thesis using False unfolding newest_def d 1 by (simp add: last_map)
  qed
qed

lemma migration_is_applied:
  assumes g: "migration_logs rdb healthy bin db M sch"
  shows "is_applied rdb v db = Inr (M v \<noteq> None)"
proof -
  have ok: "rocks_ok rdb healthy" "healthy db" and sh: "log_shown bin (contents rdb db) M sch"
    using g by (simp_all add: migration_logs_def)
  show ?thesis
    using log_shownD [OF sh, of v] by (cases "M v") (auto simp: is_applied_def rocks_get [OF ok])
qed

lemma migration_schema:
  assumes g: "migration_logs rdb healthy bin db M sch"
  shows "get_current_schema rdb db = Inr sch"
proof -
  have ok: "rocks_ok rdb healthy" "healthy db" and sh: "log_shown bin (contents rdb db) M sch"
    using g by (simp_all add: migration_logs_def)
  show ?thesis
    using sh by (cases sch) (simp_all add: log_shown_def get_current_schema_def rocks_get [OF ok] from_utf8_as_bytes)
qed

lemma migration_mark:
  assumes g: "migration_logs rdb healthy bin db M sch" and v: "validate_migration_version (mm_version m) = Inr ()"
  shows "\<exists>db'. mark_applied rdb bin m db = (Inr (), db')
    \<and> migration_logs rdb healthy bin db' (M(mm_version m \<mapsto> m)) (Some (mm_version m))"
proof -
  have ok: "rocks_ok rdb healthy" "healthy db" and sh: "log_shown bin (contents rdb db) M sch" and c: "total_codec bin"
    using g by (simp_all add: migration_logs_def)
  obtain bs where bs: "enc bin m = Inr bs" "dec bin bs = Inr m" using total_codecD [OF c] by blast
  obtain db' where w: "db_write rdb db [BPut (applied_key (mm_version m)) bs, BPut current_schema_key (as_bytes (mm_version m))] = (Inr (), db')"
    and h: "healthy db'"
    and C: "contents rdb db' = apply_batch [BPut (applied_key (mm_version m)) bs, BPut current_schema_key (as_bytes (mm_version m))] (contents rdb db)"
    using ok by (rule rocks_write)
  have "log_shown bin (contents rdb db') (M(mm_version m \<mapsto> m)) (Some (mm_version m))"
    using log_shown_mark [OF sh bs(2) version_utf8 [OF v]] by (simp add: C)
  with g h have "migration_logs rdb healthy bin db' (M(mm_version m \<mapsto> m)) (Some (mm_version m))"
    by (simp add: migration_logs_def)
  with w bs(1) show ?thesis by (simp add: mark_applied_def db_call_def)
qed

lemma migration_unmark:
  assumes g: "migration_logs rdb healthy bin db M sch"
  shows "\<exists>db'. mark_unapplied rdb bin v db = (Inr (), db')
    \<and> migration_logs rdb healthy bin db' (M(v := None)) (newest (M(v := None)))"
proof -
  have ok: "rocks_ok rdb healthy" "healthy db" and sh: "log_shown bin (contents rdb db) M sch"
    using g by (simp_all add: migration_logs_def)
  have fin: "finite (dom M)" using sh by (simp add: log_shown_def)
  let ?rem = "filter (\<lambda>m. mm_version m \<noteq> v) (log_list M)" and ?sch = "newest (M(v := None))"
  have sch: "?sch = (if ?rem = [] then None else Some (mm_version (last ?rem)))"
    using newest_log_list [OF fin] log_shownD(2) [OF sh] by (simp add: Let_def)
  let ?op = "if ?rem = [] then BDel current_schema_key else BPut current_schema_key (as_bytes (mm_version (last ?rem)))"
  obtain db' where w: "db_write rdb db [BDel (applied_key v), ?op] = (Inr (), db')" and h: "healthy db'"
    and C: "contents rdb db' = apply_batch [BDel (applied_key v), ?op] (contents rdb db)"
    using ok by (rule rocks_write)
  have "contents rdb db' = (contents rdb db)(applied_key v := None, current_schema_key := map_option as_bytes ?sch)"
    unfolding C sch by simp
  with log_shown_unmark [OF sh refl] have "log_shown bin (contents rdb db') (M(v := None)) ?sch" by simp
  with g h have "migration_logs rdb healthy bin db' (M(v := None)) ?sch" by (simp add: migration_logs_def)
  with w show ?thesis by (simp add: mark_unapplied_def migration_get_applied [OF g] Let_def db_call_def)
qed

lemma migration_log_facts:
  assumes g: "migration_logs rdb healthy bin db M sch"
  shows "finite (dom M)" and "M v = Some m \<Longrightarrow> mm_version m = v"
proof -
  have sh: "log_shown bin (contents rdb db) M sch" using g by (simp add: migration_logs_def)
  then show "finite (dom M)" by (simp add: log_shown_def)
  show "M v = Some m \<Longrightarrow> mm_version m = v" using log_shownD(2) [OF sh] by blast
qed

lemma migration_store_sel [simp]:
  "mo_applied (migration_store rdb bin) = get_applied_migrations rdb bin"
  "mo_is_applied (migration_store rdb bin) = is_applied rdb" "mo_mark (migration_store rdb bin) = mark_applied rdb bin"
  "mo_unmark (migration_store rdb bin) = mark_unapplied rdb bin"
  "mo_schema (migration_store rdb bin) = get_current_schema rdb"
  by (simp_all add: migration_store_def)

interpretation migrations: migration_log "migration_store rdb bin" "migration_logs rdb healthy bin"
  for rdb :: "'db rocks" and healthy bin
  by unfold_locales
    (simp_all add: migration_get_applied migration_is_applied migration_mark migration_unmark migration_schema migration_log_facts)

section \<open>Properties\<close>

lemma digits_val_less: "list_all is_ascii_digit ds \<Longrightarrow> digits_val ds < 10 ^ length ds"
proof (induction ds rule: rev_induct)
  case (snoc c ds)
  then have "digit_val c < 10" by (auto simp: is_ascii_digit_def digit_val_def)
  with snoc show ?case by simp
qed (simp add: digits_val_def)

lemma parse_unsigned_digits:
  assumes "list_all is_ascii_digit ds" and "ds \<noteq> []" and "10 ^ length ds \<le> max'"
  shows "parse_unsigned max' ds = Some (digits_val ds)"
proof -
  have "hd ds \<noteq> CHR ''+''" using assms(1,2) by (cases ds) (auto simp: is_ascii_digit_def)
  then show ?thesis using assms digits_val_less [OF assms(1)] by (cases ds) (auto simp: parse_unsigned_def)
qed

lemma version_part_digits:
  assumes "list_all is_ascii_digit v" and "i + n \<le> length v" and "0 < n" and "n \<le> 4"
  shows "version_part v i n what = Inr (digits_val (take n (drop i v)))"
proof -
  have "(10::nat) ^ n \<le> 10 ^ 4" using assms(4) by (intro power_increasing) simp_all
  then show ?thesis
    using assms by (subst version_part_def, subst parse_unsigned_digits)
      (auto simp: list_all_iff dest!: in_set_takeD in_set_dropD)
qed

text \<open>A migration version is accepted exactly when it consists of 14 digits whose parts are in
  the ranges of a date and time from 2020 to 2100; every other string is rejected with
  \<open>InvalidMigrationVersion\<close>, and no input makes the check panic.\<close>

theorem migration_version_exact:
  "(validate_migration_version v = Inr () \<longleftrightarrow>
      length v = 14 \<and> list_all is_ascii_digit v
      \<and> digits_val (take 4 v) \<in> {2020..2100}
      \<and> digits_val (take 2 (drop 4 v)) \<in> {1..12} \<and> digits_val (take 2 (drop 6 v)) \<in> {1..31}
      \<and> digits_val (take 2 (drop 8 v)) < 24 \<and> digits_val (take 2 (drop 10 v)) < 60
      \<and> digits_val (take 2 (drop 12 v)) < 60)
   \<and> (validate_migration_version v = Inr () \<or> (\<exists>msg. validate_migration_version v = Err (InvalidMigrationVersion msg)))"
proof (cases "length v = 14 \<and> list_all is_ascii_digit v")
  case True
  then show ?thesis
    by (simp add: validate_migration_version_def version_part_digits invalid_version_def not_le)
next
  case False
  then show ?thesis by (auto simp: validate_migration_version_def invalid_version_def)
qed

text \<open>C31. Applying the pending migrations. With available migrations of distinct, well-formed
  versions that succeed and leave the migration log alone, \<open>apply_pending\<close> runs exactly those that
  are not on record, in the order of the list, and reports them. Afterwards the applied versions
  are the old and the available ones in ascending order, nothing is pending, and the current schema
  is the version that was applied last.\<close>

theorem apply_pending_complete:
  assumes "migration_logs rdb healthy bin db M sch" and "list_all (steady (migration_logs rdb healthy bin)) mgs"
    and "distinct (map mg_version mgs)" and "list_all (\<lambda>mg. validate_migration_version (mg_version mg) = Inr ()) mgs"
    and "new = filter (\<lambda>mg. M (mg_version mg) = None) mgs"
  shows "\<exists>db' ms. apply_pending env (migration_store rdb bin) clk mgs db = (Inr (length new, map mg_version new), db')
    \<and> get_applied_migrations rdb bin db' = Inr ms
    \<and> map mm_version ms = sorted_list_of_set (dom M \<union> set (map mg_version mgs))
    \<and> get_pending_migrations (migration_store rdb bin) mgs db' = Inr []
    \<and> get_current_schema rdb db' = Inr (if new = [] then sch else Some (mg_version (last new)))"
proof -
  let ?logs = "migration_logs rdb healthy bin"
  obtain db' M' where run: "apply_pending env (migration_store rdb bin) clk mgs db = (Inr (length new, map mg_version new), db')"
    and l: "?logs db' M' (if new = [] then sch else Some (mg_version (last new)))"
    and d: "dom M' = dom M \<union> set (map mg_version mgs)"
    using migrations.apply_pending_all [OF assms] by blast
  have "filter (\<lambda>mg. M' (mg_version mg) = None) mgs = []"
  proof -
    have "M' (mg_version mg) \<noteq> None" if "mg \<in> set mgs" for mg
    proof -
      from that have "mg_version mg \<in> dom M'" unfolding d by simp
      then show ?thesis by auto
    qed
    then show ?thesis by (auto simp: filter_empty_conv)
  qed
  with migrations.pending [OF l, of mgs] have "get_pending_migrations (migration_store rdb bin) mgs db' = Inr []" by simp
  moreover have "map mm_version (log_list M') = sorted_list_of_set (dom M \<union> set (map mg_version mgs))"
    using migrations.versions_log_list [OF l] d by simp
  ultimately show ?thesis using run migration_get_applied [OF l] migration_schema [OF l] by blast
qed

text \<open>C32. Rolling back the last \<open>k\<close> migrations, each available and able to revert, removes exactly the
  \<open>k\<close> newest versions from the log, or all of them when there are fewer, and leaves the newest
  remaining version as the current schema.\<close>

theorem rollback_last_removes_newest:
  assumes "migration_logs rdb healthy bin db M sch" and "list_all (steady (migration_logs rdb healthy bin)) mgs"
    and "M \<noteq> Map.empty" and "0 < k" and "dom M \<subseteq> set (map mg_version mgs)"
    and "get_applied_migrations rdb bin db = Inr ms" and "keep = take (length ms - k) ms"
  shows "\<exists>db'. rollback_last (migration_store rdb bin) k mgs db = (Inr (min (length ms) k), db')
    \<and> get_applied_migrations rdb bin db' = Inr keep
    \<and> get_current_schema rdb db' = Inr (if keep = [] then None else Some (mm_version (last keep)))"
proof -
  have "ms = log_list M" using migration_get_applied [OF assms(1)] assms(6) by simp
  with migrations.rollback_last_exact [OF assms(1-5), of keep] assms(7) show ?thesis by simp
qed

section \<open>The example migration and witnesses\<close>

lemma index_keys [simp]:
  "applied_key v \<noteq> index_enabled_key" "applied_key v \<noteq> index_created_key"
  by (simp_all add: applied_key_def MIGRATION_APPLIED_PREFIX_def del: as_bytes_append)

lemma index_keys_utf8: "utf8_valid index_enabled_key" "utf8_valid index_created_key"
  by (simp_all add: as_bytes_def)

lemma add_metadata_index_steady: "steady (migration_logs rdb healthy bin) (add_metadata_index rdb)"
  unfolding steady_def
proof (intro allI impI conjI)
  fix db M sch assume g: "migration_logs rdb healthy bin db M sch"
  have ok: "rocks_ok rdb healthy" "healthy db" and sh: "log_shown bin (contents rdb db) M sch"
    using g by (simp_all add: migration_logs_def)
  have frame: "log_shown bin ((contents rdb db)(index_enabled_key := a, index_created_key := b)) M sch" for a b
    using sh index_keys_utf8 by (auto simp: log_shown_def cong: option.case_cong split: if_splits)
  show "\<exists>db'. mg_up (add_metadata_index rdb) t db = (Inr (), db') \<and> migration_logs rdb healthy bin db' M sch" for t
  proof -
    obtain db' where "db_write rdb db [BPut index_enabled_key (as_bytes ''true''), BPut index_created_key (as_bytes (show_int t))] = (Inr (), db')"
      and "healthy db'"
      and "contents rdb db' = apply_batch [BPut index_enabled_key (as_bytes ''true''), BPut index_created_key (as_bytes (show_int t))] (contents rdb db)"
      using ok by (rule rocks_write)
    with g frame show ?thesis by (auto simp: add_metadata_index_def db_call_def migration_logs_def)
  qed
  show "\<exists>db'. mg_down (add_metadata_index rdb) db = (Inr (), db') \<and> migration_logs rdb healthy bin db' M sch"
  proof -
    obtain db' where "db_write rdb db [BDel index_enabled_key, BDel index_created_key] = (Inr (), db')"
      and "healthy db'" and "contents rdb db' = apply_batch [BDel index_enabled_key, BDel index_created_key] (contents rdb db)"
      using ok by (rule rocks_write)
    with g frame show ?thesis by (auto simp: add_metadata_index_def db_call_def migration_logs_def)
  qed
qed

definition demo_meta_codec :: "(migration_metadata, bytes) codec" where
  "demo_meta_codec = \<lparr>
     enc = (\<lambda>m. Inr (put_strs [mm_version m, mm_description m, show_int (mm_applied_at m), mm_checksum m])),
     dec = (\<lambda>bs. case get_strs 4 bs of
        [v, d, t, c] \<Rightarrow> Inr \<lparr>mm_version = v, mm_description = d, mm_applied_at = read_int t, mm_checksum = c\<rparr>
      | _ \<Rightarrow> Inl ''eof'')\<rparr>"

lemma demo_meta_codec_ok: "total_codec demo_meta_codec"
proof -
  have "get_strs 4 (put_strs [a, b, c, d]) = [a, b, c, d]" for a b c d
    using get_put_strs [of "[a, b, c, d]"] by (simp add: numeral_eq_Suc del: put_strs.simps)
  then show ?thesis
    by (auto simp: total_codec_def codec_ok_def demo_meta_codec_def read_int_show_int simp del: put_strs.simps)
qed

lemma demo_log_empty: "migration_logs demo_rocks demo_healthy demo_meta_codec [] Map.empty None"
  by (simp add: migration_logs_def demo_rocks_ok demo_iter_ok demo_meta_codec_ok demo_healthy_def log_shown_def)

lemma add_metadata_index_version [simp]: "mg_version (add_metadata_index rdb) = ''20240101120000''"
  by (simp add: add_metadata_index_def)

lemma demo_version_ok: "validate_migration_version ''20240101120000'' = Inr ()"
  by (simp add: validate_migration_version_def version_part_def parse_unsigned_def is_ascii_digit_def digits_val_def digit_val_def)

theorem apply_pending_complete_witness:
  "\<exists>db' ms. apply_pending demo_env (migration_store demo_rocks demo_meta_codec) (\<lambda>_. (1000, 1001)) [add_metadata_index demo_rocks] []
      = (Inr (1, [''20240101120000'']), db')
    \<and> get_applied_migrations demo_rocks demo_meta_codec db' = Inr ms \<and> map mm_version ms = [''20240101120000'']
    \<and> get_pending_migrations (migration_store demo_rocks demo_meta_codec) [add_metadata_index demo_rocks] db' = Inr []
    \<and> get_current_schema demo_rocks db' = Inr (Some ''20240101120000'')"
  using apply_pending_complete [OF demo_log_empty, of "[add_metadata_index demo_rocks]" _ demo_env "\<lambda>_. (1000, 1001)", OF _ _ _ refl]
  by (simp add: add_metadata_index_steady demo_version_ok)

theorem rollback_last_removes_newest_witness:
  "\<exists>db db'. rollback_last (migration_store demo_rocks demo_meta_codec) 1 [add_metadata_index demo_rocks] db = (Inr 1, db')
    \<and> get_applied_migrations demo_rocks demo_meta_codec db' = Inr [] \<and> get_current_schema demo_rocks db' = Inr None"
proof -
  let ?logs = "migration_logs demo_rocks demo_healthy demo_meta_codec" and ?v = "''20240101120000''"
  let ?mgs = "[add_metadata_index demo_rocks]"
  have p: "list_all (steady ?logs) ?mgs" "distinct (map mg_version ?mgs)"
    "list_all (\<lambda>mg. validate_migration_version (mg_version mg) = Inr ()) ?mgs"
    "?mgs = filter (\<lambda>mg. Map.empty (mg_version mg) = None) ?mgs"
    by (simp_all add: add_metadata_index_steady demo_version_ok)
  obtain db M where "?logs db M (if ?mgs = [] then None else Some (mg_version (last ?mgs)))"
    and "dom M = dom Map.empty \<union> set (map mg_version ?mgs)"
    using migrations.apply_pending_all [OF demo_log_empty p, of demo_env "\<lambda>_. (1000, 1001)"] by blast
  then have l: "?logs db M (Some ?v)" and d: "dom M = {?v}" by simp_all
  have "M \<noteq> Map.empty" using d by auto
  moreover have "length (log_list M) = 1" using d by (simp add: log_list_def)
  ultimately have "\<exists>db'. rollback_last (migration_store demo_rocks demo_meta_codec) 1 ?mgs db = (Inr 1, db')
      \<and> get_applied_migrations demo_rocks demo_meta_codec db' = Inr [] \<and> get_current_schema demo_rocks db' = Inr None"
    using rollback_last_removes_newest [OF l, of ?mgs 1 "log_list M" "[]"] d migration_get_applied [OF l]
    by (simp add: add_metadata_index_steady)
  then show ?thesis by blast
qed

end
