(* ===== verification/Goud_Cli.thy ===== *)
theory Goud_Cli
  imports Goud_Migration
begin

text \<open>
  The migration commands of the command line (\<open>src/cli.rs\<close>): status, up, down, create and reset, with what
  they print. A line of the output is the argument of one \<open>println!\<close>. The line typed by the user, the current
  date and the Unicode tables of the standard library are arguments.
\<close>

section \<open>Console and project\<close>

definition NL :: string where "NL = [CHR 0x0A]"
definition QUOTE :: string where "QUOTE = [CHR 0x22]"

text \<open>The directory of migration sources: whether it exists, its files, and the errors of the two calls that can fail.\<close>

record sources =
  so_dir :: bool
  so_files :: "string \<rightharpoonup> string"
  so_mkdir_error :: "string option"
  so_write_error :: "string option"

record 'db cli_state =
  ci_db :: 'db
  ci_sources :: sources
  ci_out :: "string list"

type_synonym ('db, 'a) cli = "('db cli_state, fail, 'a) act"

definition println :: "string \<Rightarrow> ('db, unit) cli" where
  "println line st = (Inr (), st\<lparr>ci_out := ci_out st @ [line]\<rparr>)"

definition on_db :: "('db, fail, 'a) act \<Rightarrow> ('db, 'a) cli" where
  "on_db act st = (let (r, db) = act (ci_db st) in (r, st\<lparr>ci_db := db\<rparr>))"

fun print_lines :: "string list \<Rightarrow> ('db, unit) cli" where
  "print_lines [] = retS ()"
| "print_lines (l # ls) = bindS (println l) (\<lambda>_. print_lines ls)"

declare print_lines.simps [simp del]

section \<open>Commands\<close>

datatype migrate_command = MigrateStatus | MigrateUp | MigrateDown nat bool | MigrateCreate string | MigrateReset bool

text \<open>How a command ends: it returns, or it leaves the process with a code.\<close>

datatype cli_end = Returned | ProcessExit nat

definition list_line :: "string \<Rightarrow> string \<Rightarrow> string" where
  "list_line version description = ''   - '' @ version @ '' ('' @ description @ '')''"

text \<open>The line of a migration that must be among the available ones: the lookup is followed by \<open>expect\<close>.\<close>

definition print_available :: "'db migration list \<Rightarrow> string \<Rightarrow> ('db, unit) cli" where
  "print_available available v =
     (case find (\<lambda>m. mg_version m = v) available of
        Some m \<Rightarrow> println (list_line v (mg_description m))
      | None \<Rightarrow> failS Panic)"

fun print_versions :: "'db migration list \<Rightarrow> string list \<Rightarrow> ('db, unit) cli" where
  "print_versions available [] = retS ()"
| "print_versions available (v # vs) = bindS (print_available available v) (\<lambda>_. print_versions available vs)"

definition handle_status :: "'db migration_ops \<Rightarrow> 'db migration list \<Rightarrow> ('db, unit) cli" where
  "handle_status ops available =
     bindS (on_db (\<lambda>db. (get_status ops available db, db))) (\<lambda>status.
     bindS (println (NL @ ''[STATUS] Migration Status'' @ NL)) (\<lambda>_.
     bindS (println (''Current Schema: '' @ (case ms_current_schema status of Some s \<Rightarrow> s | None \<Rightarrow> ''none'') @ NL)) (\<lambda>_.
     bindS (if ms_applied status = [] then println ''[OK] Applied Migrations: none''
            else bindS (println (''[OK] Applied Migrations ('' @ show_nat (length (ms_applied status)) @ ''):'')) (\<lambda>_.
                 print_lines (map (\<lambda>m. list_line (mm_version m) (mm_description m)) (ms_applied status)))) (\<lambda>_.
     bindS (println []) (\<lambda>_.
     bindS (if ms_pending status = [] then println ''[PENDING] Pending Migrations: none''
            else bindS (println (''[PENDING] Pending Migrations ('' @ show_nat (length (ms_pending status)) @ ''):'')) (\<lambda>_.
                 print_versions available (ms_pending status))) (\<lambda>_.
     println []))))))"

definition handle_up ::
  "'z crypto_env_scheme \<Rightarrow> 'db migration_ops \<Rightarrow> (nat \<Rightarrow> i64 \<times> i64) \<Rightarrow> 'db migration list \<Rightarrow> ('db, unit) cli" where
  "handle_up env ops clk available =
     bindS (on_db (apply_pending env ops clk available)) (\<lambda>(count, versions).
     if count = 0 then println (NL @ ''[OK] No pending migrations to apply'' @ NL)
     else
       bindS (println (NL @ ''[OK] Successfully applied '' @ show_nat count @ '' migration(s):'')) (\<lambda>_.
       bindS (print_versions available versions) (\<lambda>_.
       println [])))"

text \<open>What is typed is trimmed and compared in lower case.\<close>

definition confirmed :: "string \<Rightarrow> bool" where
  "confirmed input \<longleftrightarrow> trim input = ''y'' \<or> trim input = ''Y''"

text \<open>\<open>input\<close> is the line read from the terminal, if it can be read.\<close>

definition handle_down ::
  "'db migration_ops \<Rightarrow> string option \<Rightarrow> nat \<Rightarrow> bool \<Rightarrow> 'db migration list \<Rightarrow> ('db, unit) cli" where
  "handle_down ops input count yes available =
     bindS (on_db (\<lambda>db. (mo_applied ops db, db))) (\<lambda>applied.
     if applied = [] then println (NL @ ''[WARN] No migrations to rollback'' @ NL)
     else
       let to_rollback_count = min count (length applied);
           to_rollback = take to_rollback_count (rev applied);
           roll = bindS (on_db (rollback_last ops count available)) (\<lambda>rolled_back.
             println (NL @ ''[OK] Successfully rolled back '' @ show_nat rolled_back @ '' migration(s)'' @ NL))
       in bindS (println (NL @ ''[WARN] Rolling back '' @ show_nat to_rollback_count @ '' migration(s):'')) (\<lambda>_.
          bindS (print_lines (map (\<lambda>m. list_line (mm_version m) (mm_description m)) to_rollback)) (\<lambda>_.
          if yes then roll
          else
            bindS (println (NL @ ''Proceed? [y/N]: '')) (\<lambda>_.
            case input of
              None \<Rightarrow> failS Panic
            | Some line \<Rightarrow>
                if confirmed line then roll else println (''[CANCEL] Rollback cancelled'' @ NL)))))"

definition handle_reset :: "'db migration_ops \<Rightarrow> bool \<Rightarrow> ('db, unit) cli" where
  "handle_reset ops confirm =
     (if \<not> confirm
      then print_lines
        [NL @ [CHR 0xE2, CHR 0x9A, CHR 0xA0, CHR 0xEF, CHR 0xB8, CHR 0x8F]
           @ ''  WARNING: This will clear all migration records without running down() methods!'',
         ''   This is a dangerous operation that should only be used in development.'' @ NL,
         ''   To proceed, run: cargo run -- migrate reset --confirm'' @ NL]
      else
        bindS (on_db (reset_migrations ops)) (\<lambda>_.
        println (NL @ ''[OK] Migration state reset (all migration records cleared)'' @ NL)))"

section \<open>New migrations\<close>

text \<open>The characters of a text as their UTF-8 encodings, and the Unicode tables.\<close>

definition continuation :: "char \<Rightarrow> bool" where
  "continuation c \<longleftrightarrow> 0x80 \<le> (of_char c :: nat) \<and> (of_char c :: nat) < 0xC0"

function utf8_chars :: "string \<Rightarrow> string list" where
  "utf8_chars [] = []"
| "utf8_chars (c # s) = (c # takeWhile continuation s) # utf8_chars (dropWhile continuation s)"
  by pat_completeness auto
termination
  by (relation "measure length") (auto simp: le_imp_less_Suc length_dropWhile_le)

record unicode =
  uc_alphanumeric :: "string \<Rightarrow> bool"
  uc_uppercase :: "string \<Rightarrow> string"

text \<open>The current date and time in UTC.\<close>

record date_time =
  dt_year :: nat
  dt_month :: nat
  dt_day :: nat
  dt_hour :: nat
  dt_minute :: nat
  dt_second :: nat

text \<open>The formats \<open>%Y%m%d%H%M%S\<close>; a year beyond 9999 is printed with a sign.\<close>

definition show_year :: "nat \<Rightarrow> string" where
  "show_year y = (if y > 9999 then CHR ''+'' # show_nat y
     else replicate (4 - length (show_nat y)) CHR ''0'' @ show_nat y)"

definition format_version :: "date_time \<Rightarrow> string" where
  "format_version now = show_year (dt_year now) @ show_02 (dt_month now) @ show_02 (dt_day now)
     @ show_02 (dt_hour now) @ show_02 (dt_minute now) @ show_02 (dt_second now)"

definition migration_struct_name :: "unicode \<Rightarrow> string \<Rightarrow> string \<Rightarrow> string" where
  "migration_struct_name uc version description = ''Migration'' @ version
     @ concat (map (\<lambda>word. case utf8_chars word of [] \<Rightarrow> [] | first # rest \<Rightarrow> uc_uppercase uc first @ concat rest)
         (split_on CHR ''_'' description))"

definition template_lines :: "string \<Rightarrow> string \<Rightarrow> string \<Rightarrow> string list" where
  "template_lines version description struct_name =
     [''//! Migration: '' @ description,
      ''//!'',
      ''//! Description: [TODO: Add detailed description of what this migration does]'',
      ''//!'',
      ''//! Safety: This migration has direct RocksDB access and runs with full privileges.'',
      ''//! Ensure all operations are idempotent and can be safely rolled back.'',
      [],
      ''use crate::storage::{BlockchainStore, Migration};'',
      ''use crate::types::Result;'',
      [],
      ''pub struct '' @ struct_name @ '';'',
      [],
      ''impl Migration for '' @ struct_name @ '' {'',
      ''    fn version(&self) -> &str {'',
      ''        '' @ QUOTE @ version @ QUOTE,
      ''    }'',
      [],
      ''    fn description(&self) -> &str {'',
      ''        '' @ QUOTE @ description @ QUOTE,
      ''    }'',
      [],
      ''    fn up(&self, store: &BlockchainStore) -> Result<()> {'',
      ''        // TODO: Implement migration up (apply schema changes)'',
      ''        //'',
      ''        // IMPORTANT: Use a single WriteBatch for ALL RocksDB operations'',
      ''        // to ensure atomicity. If the migration fails, no partial state'',
      ''        // will be persisted.'',
      ''        //'',
      ''        // Example (GOOD - atomic):'',
      ''        // let db = store.get_db();'',
      ''        // let mut batch = rocksdb::WriteBatch::default();'',
      ''        // batch.put(b'' @ QUOTE @ ''new:key1'' @ QUOTE @ '', b'' @ QUOTE @ ''value1'' @ QUOTE @ '');'',
      ''        // batch.put(b'' @ QUOTE @ ''new:key2'' @ QUOTE @ '', b'' @ QUOTE @ ''value2'' @ QUOTE @ '');'',
      ''        // db.write(batch)?; // Single atomic write'',
      ''        //'',
      ''        // Example (BAD - non-atomic):'',
      ''        // db.put(b'' @ QUOTE @ ''key1'' @ QUOTE @ '', b'' @ QUOTE @ ''value1'' @ QUOTE @ '')?; // Could succeed'',
      ''        // db.put(b'' @ QUOTE @ ''key2'' @ QUOTE @ '', b'' @ QUOTE @ ''value2'' @ QUOTE @ '')?; // Then fail, leaving partial state'',
      [],
      ''        Ok(())'',
      ''    }'',
      [],
      ''    fn down(&self, store: &BlockchainStore) -> Result<()> {'',
      ''        // TODO: Implement migration down (revert schema changes)'',
      ''        //'',
      ''        // This MUST restore the database to its exact state before up() was called.'',
      ''        // If down() is not implemented, the migration cannot be rolled back.'',
      ''        //'',
      ''        // Use a single WriteBatch for atomicity (same as up() method).'',
      [],
      ''        Ok(())'',
      ''    }'',
      ''}'',
      [],
      ''#[cfg(test)]'',
      ''mod tests {'',
      ''    use super::*;'',
      ''    use tempfile::TempDir;'',
      ''    use std::sync::Arc;'',
      [],
      ''    fn create_test_store() -> (TempDir, Arc<BlockchainStore>) {'',
      ''        let temp_dir = TempDir::new().unwrap();'',
      ''        let temp_path = temp_dir.path().join('' @ QUOTE @ ''rocksdb'' @ QUOTE @ '');'',
      ''        let store = BlockchainStore::new(&temp_path.to_string_lossy()).unwrap();'',
      ''        (temp_dir, Arc::new(store))'',
      ''    }'',
      [],
      ''    #[test]'',
      ''    fn test_migration_up_down() {'',
      ''        let (_temp_dir, store) = create_test_store();'',
      ''        let migration = '' @ struct_name @ ''::new();'',
      [],
      ''        // Apply migration'',
      ''        migration.up(&store).unwrap();'',
      [],
      ''        // TODO: Assert expected state after up()'',
      [],
      ''        // Rollback migration'',
      ''        migration.down(&store).unwrap();'',
      [],
      ''        // TODO: Assert state reverted to original'',
      ''    }'',
      ''}'']"

definition generate_migration_template :: "unicode \<Rightarrow> string \<Rightarrow> string \<Rightarrow> string" where
  "generate_migration_template uc version description =
     concat (map (\<lambda>l. l @ NL) (template_lines version description (migration_struct_name uc version description)))"

definition MIGRATIONS_DIR :: string where "MIGRATIONS_DIR = ''src/migrations''"

definition handle_create :: "unicode \<Rightarrow> date_time \<Rightarrow> string \<Rightarrow> ('db, cli_end) cli" where
  "handle_create uc now description st =
     (if CHR '' '' \<in> set description
        \<or> \<not> list_all (\<lambda>c. uc_alphanumeric uc c \<or> c = ''_'') (utf8_chars description)
      then (Inr (ProcessExit 1), st)
      else
        let version = format_version now;
            src = ci_sources st
        in if \<not> so_dir src \<and> so_mkdir_error src \<noteq> None
           then (Err (IoError (''Failed to create migrations directory: '' @ the (so_mkdir_error src))), st)
           else
             let st = st\<lparr>ci_sources := src\<lparr>so_dir := True\<rparr>\<rparr>;
                 filename = version @ ''_'' @ description @ ''.rs'';
                 filepath = MIGRATIONS_DIR @ ''/'' @ filename
             in if so_files src filepath \<noteq> None then (Inr (ProcessExit 1), st)
                else
                  (case so_write_error src of
                     Some e \<Rightarrow> (Err (IoError (''Failed to write migration file: '' @ e)), st)
                   | None \<Rightarrow>
                       bindS (print_lines
                           [NL @ ''[OK] Created migration: '' @ filepath @ NL, ''Next steps:'',
                            ''  1. Implement up() and down() methods in '' @ filename,
                            ''  2. Register migration in src/migrations/mod.rs and src/main.rs'',
                            ''  3. Run `cargo run -- migrate up` to apply'' @ NL]) (\<lambda>_. retS Returned)
                         (st\<lparr>ci_sources := src\<lparr>so_dir := True, so_files := (so_files src)
                            (filepath \<mapsto> generate_migration_template uc version description)\<rparr>\<rparr>)))"

text \<open>\<open>has_store\<close>: whether the caller opened the database; all commands but one unwrap it.\<close>

definition handle_migrate_command ::
  "'z crypto_env_scheme \<Rightarrow> 'db migration_ops \<Rightarrow> (nat \<Rightarrow> i64 \<times> i64) \<Rightarrow> string option \<Rightarrow> unicode \<Rightarrow> date_time
     \<Rightarrow> bool \<Rightarrow> 'db migration list \<Rightarrow> migrate_command \<Rightarrow> ('db, cli_end) cli" where
  "handle_migrate_command env ops clk input uc now has_store available command =
     (case command of
        MigrateCreate description \<Rightarrow> handle_create uc now description
      | _ \<Rightarrow>
          if \<not> has_store then failS Panic
          else bindS (case command of
              MigrateStatus \<Rightarrow> handle_status ops available
            | MigrateUp \<Rightarrow> handle_up env ops clk available
            | MigrateDown count yes \<Rightarrow> handle_down ops input count yes available
            | MigrateReset confirm \<Rightarrow> handle_reset ops confirm
            | MigrateCreate _ \<Rightarrow> retS ()) (\<lambda>_. retS Returned))"

section \<open>Lemmas\<close>

lemma show_nat_two: "10 \<le> n \<Longrightarrow> n < 100 \<Longrightarrow> length (show_nat n) = 2"
  by (simp add: show_nat.simps [of n] show_nat.simps [of "n div 10"])

lemma show_02_two: "n < 100 \<Longrightarrow> length (show_02 n) = 2 \<and> list_all is_ascii_digit (show_02 n) \<and> digits_val (show_02 n) = n"
proof -
  assume n: "n < 100"
  have "list_all is_ascii_digit (show_nat n)" using show_nat_digits by (auto simp: list_all_iff)
  moreover have "is_ascii_digit CHR ''0''" "digits_val (CHR ''0'' # s) = digits_val s" for s
    by (simp_all add: is_ascii_digit_def digits_val_def digit_val_def)
  moreover have "length (show_nat n) = 1" if "n < 10" using that by (simp add: show_nat.simps [of n])
  ultimately show ?thesis using n show_nat_two [of n] by (simp add: show_02_def)
qed

lemma show_year_four:
  assumes "1000 \<le> y" and "y \<le> 9999"
  shows "length (show_year y) = 4 \<and> list_all is_ascii_digit (show_year y) \<and> digits_val (show_year y) = y"
proof -
  have "length (show_nat y) = 4"
    using assms show_nat_two [of "y div 100"]
    by (simp add: show_nat.simps [of y] show_nat.simps [of "y div 10"] div_mult2_eq [symmetric])
  then show ?thesis using assms show_nat_digits [of _ y] by (simp add: show_year_def list_all_iff)
qed

text \<open>The versions of new migrations are accepted when they are applied.\<close>

definition plausible_date :: "date_time \<Rightarrow> bool" where
  "plausible_date t \<longleftrightarrow> dt_year t \<in> {2020..2100} \<and> dt_month t \<in> {1..12} \<and> dt_day t \<in> {1..31}
     \<and> dt_hour t < 24 \<and> dt_minute t < 60 \<and> dt_second t < 60"

lemma format_version_valid:
  assumes "plausible_date t"
  shows "validate_migration_version (format_version t) = Inr ()"
proof -
  note y = show_year_four [of "dt_year t"]
  have parts: "length (show_02 n) = 2 \<and> list_all is_ascii_digit (show_02 n) \<and> digits_val (show_02 n) = n"
    if "n \<in> {dt_month t, dt_day t, dt_hour t, dt_minute t, dt_second t}" for n
    using that assms by (intro show_02_two) (auto simp: plausible_date_def)
  have "length (format_version t) = 14" "list_all is_ascii_digit (format_version t)"
    using y parts assms by (simp_all add: format_version_def plausible_date_def)
  moreover have "take 4 (format_version t) = show_year (dt_year t)"
    "take 2 (drop 4 (format_version t)) = show_02 (dt_month t)" "take 2 (drop 6 (format_version t)) = show_02 (dt_day t)"
    "take 2 (drop 8 (format_version t)) = show_02 (dt_hour t)" "take 2 (drop 10 (format_version t)) = show_02 (dt_minute t)"
    "take 2 (drop 12 (format_version t)) = show_02 (dt_second t)"
    using y parts assms by (simp_all add: format_version_def plausible_date_def)
  ultimately show ?thesis
    using y parts assms by (simp add: validate_migration_version_def version_part_digits plausible_date_def)
qed

lemma print_lines_eq: "print_lines ls st = (Inr (), st\<lparr>ci_out := ci_out st @ ls\<rparr>)"
  by (induction ls arbitrary: st) (simp_all add: print_lines.simps bindS_def println_def)

lemma template_declares:
  "\<exists>pre mid post. template_lines v d s
     = pre @ (''        '' @ QUOTE @ v @ QUOTE) # mid @ (''        '' @ QUOTE @ d @ QUOTE) # post"
proof -
  let ?L = "template_lines v d s"
  have nth: "?L ! 14 = ''        '' @ QUOTE @ v @ QUOTE" "drop 15 ?L ! 3 = ''        '' @ QUOTE @ d @ QUOTE"
    and len: "18 < length ?L"
    by (simp_all add: template_lines_def)
  have "?L = take 14 ?L @ ?L ! 14 # drop 15 ?L" using id_take_nth_drop [of 14 ?L] len by simp
  moreover have "drop 15 ?L = take 3 (drop 15 ?L) @ drop 15 ?L ! 3 # drop 4 (drop 15 ?L)"
    using id_take_nth_drop [of 3 "drop 15 ?L"] len by simp
  ultimately show ?thesis unfolding nth by metis
qed

lemma template_text:
  "\<exists>a b c. generate_migration_template uc v d = a @ QUOTE @ v @ QUOTE @ b @ QUOTE @ d @ QUOTE @ c"
proof -
  obtain pre mid post where "template_lines v d (migration_struct_name uc v d)
     = pre @ (''        '' @ QUOTE @ v @ QUOTE) # mid @ (''        '' @ QUOTE @ d @ QUOTE) # post"
    using template_declares by blast
  then have "generate_migration_template uc v d
      = (concat (map (\<lambda>l. l @ NL) pre) @ ''        '') @ QUOTE @ v @ QUOTE
        @ (NL @ concat (map (\<lambda>l. l @ NL) mid) @ ''        '') @ QUOTE @ d @ QUOTE @ (NL @ concat (map (\<lambda>l. l @ NL) post))"
    by (simp add: generate_migration_template_def)
  then show ?thesis by blast
qed

text \<open>A migration made by \<open>migrate create\<close> can be applied. When the command returns, it has written exactly one new
  file, named after a version that the migration runner accepts, and nothing else changed on disk or in
  the database; the file declares this version and the given description.\<close>

theorem created_migration_accepted:
  assumes "plausible_date now" and "handle_create uc now d st = (Inr Returned, st')"
  shows "let v = format_version now; path = ''src/migrations/'' @ v @ ''_'' @ d @ ''.rs''
    in validate_migration_version v = Inr () \<and> so_files (ci_sources st) path = None \<and> ci_db st' = ci_db st
     \<and> (\<exists>text. so_files (ci_sources st') = (so_files (ci_sources st))(path \<mapsto> text)
         \<and> (\<exists>a b c. text = a @ QUOTE @ v @ QUOTE @ b @ QUOTE @ d @ QUOTE @ c))"
proof -
  from assms(2) have "so_files (ci_sources st) (MIGRATIONS_DIR @ ''/'' @ format_version now @ ''_'' @ d @ ''.rs'') = None"
    and "ci_db st' = ci_db st"
    and "so_files (ci_sources st') = (so_files (ci_sources st))
      (MIGRATIONS_DIR @ ''/'' @ format_version now @ ''_'' @ d @ ''.rs'' \<mapsto> generate_migration_template uc (format_version now) d)"
    by (auto simp: handle_create_def Let_def print_lines_eq bindS_def split: if_splits option.splits)
  moreover have "MIGRATIONS_DIR @ ''/'' @ x = ''src/migrations/'' @ x" for x by (simp add: MIGRATIONS_DIR_def)
  ultimately show ?thesis
    using format_version_valid [OF assms(1)] template_text [of uc "format_version now" d] unfolding Let_def by metis
qed

definition demo_unicode :: unicode where
  "demo_unicode = \<lparr>uc_alphanumeric = (\<lambda>c. c \<noteq> ''-''), uc_uppercase = (\<lambda>c. c)\<rparr>"

theorem created_migration_accepted_witness:
  "\<exists>st'. handle_create demo_unicode \<lparr>dt_year = 2025, dt_month = 1, dt_day = 15, dt_hour = 9, dt_minute = 30, dt_second = 5\<rparr>
       ''add_users'' \<lparr>ci_db = (), ci_sources = \<lparr>so_dir = False, so_files = Map.empty, so_mkdir_error = None,
         so_write_error = None\<rparr>, ci_out = []\<rparr> = (Inr Returned, st')
     \<and> validate_migration_version (format_version
         \<lparr>dt_year = 2025, dt_month = 1, dt_day = 15, dt_hour = 9, dt_minute = 30, dt_second = 5\<rparr>) = Inr ()"
proof -
  let ?now = "\<lparr>dt_year = 2025, dt_month = 1, dt_day = 15, dt_hour = 9, dt_minute = 30, dt_second = 5\<rparr>"
  let ?st = "\<lparr>ci_db = (), ci_sources = \<lparr>so_dir = False, so_files = Map.empty, so_mkdir_error = None,
         so_write_error = None\<rparr>, ci_out = []\<rparr>"
  have "\<exists>st'. handle_create demo_unicode ?now ''add_users'' ?st = (Inr Returned, st')"
    by (simp add: handle_create_def Let_def print_lines_eq bindS_def demo_unicode_def continuation_def)
  then obtain st' where create: "handle_create demo_unicode ?now ''add_users'' ?st = (Inr Returned, st')" by blast
  have "plausible_date ?now" by (simp add: plausible_date_def)
  from created_migration_accepted [OF this create] create show ?thesis by (auto simp: Let_def)
qed

text \<open>The lookups that \<open>status\<close> and \<open>up\<close> follow with \<open>expect\<close> always succeed: these commands panic only if a
  migration or the store does.\<close>

lemma print_versions_ok:
  "set vs \<subseteq> mg_version ` set available \<Longrightarrow> fst (print_versions available vs st) = Inr ()"
proof (induction vs arbitrary: st)
  case (Cons v vs)
  then obtain m where "find (\<lambda>m. mg_version m = v) available = Some m"
    by (cases "find (\<lambda>m. mg_version m = v) available") (auto simp: find_None_iff)
  with Cons show ?case by (simp add: bindS_def print_available_def println_def)
qed simp

lemma apply_loop_versions:
  "apply_loop env ops clk i mgs db = (Inr vs, db') \<Longrightarrow> set vs \<subseteq> mg_version ` set mgs"
proof (induction mgs arbitrary: i db vs)
  case (Cons m mgs)
  then obtain us where "vs = mg_version m # us" "set us \<subseteq> mg_version ` set mgs"
    by (auto simp: bindS_Inr_iff)
  then show ?case by auto
qed simp

lemma apply_pending_versions:
  "apply_pending env ops clk available db = (Inr (n, vs), db') \<Longrightarrow> set vs \<subseteq> mg_version ` set available"
  by (auto simp: apply_pending_def get_pending_migrations_def res_iff bindS_Inr_iff split: if_splits
      dest!: apply_loop_versions)

lemma up_expects_hold:
  assumes "fst (handle_up env ops clk available st) = panic"
  shows "fst (apply_pending env ops clk available (ci_db st)) = panic"
proof (cases "apply_pending env ops clk available (ci_db st)")
  case (Pair r db)
  show ?thesis
  proof (cases r)
    case (Inr nv)
    obtain n vs where nv: "nv = (n, vs)" by (cases nv)
    have "fst (print_versions available vs st') = Inr ()" for st'
      using Pair Inr nv by (intro print_versions_ok apply_pending_versions) simp
    then have "fst (bindS (print_versions available vs) (\<lambda>_. println []) st') \<noteq> panic" for st'
      by (metis (mono_tags, lifting) bindS_eq fst_conv old.sum.distinct(1) println_def prod.collapse)
    then have "fst (handle_up env ops clk available st) \<noteq> panic"
      using Pair Inr nv by (simp add: handle_up_def on_db_def bindS_def println_def)
    with assms show ?thesis by simp
  qed (use assms Pair in \<open>simp add: handle_up_def on_db_def bindS_def\<close>)
qed

text \<open>A rollback that is not confirmed changes nothing.\<close>

lemma unconfirmed_rollback:
  assumes "\<not> confirmed line"
  shows "ci_db (snd (handle_down ops (Some line) count False available st)) = ci_db st"
  using assms by (cases "mo_applied ops (ci_db st)")
    (simp_all add: handle_down_def on_db_def bindS_def Let_def print_lines_eq println_def)

end
