(* ===== verification/Goud_Main.thy ===== *)
theory Goud_Main
  imports Goud_Node Goud_Cli
begin

text \<open>
  The process (\<open>src/main.rs\<close>): how a launch gets from the command line and the environment to an exit code
  or to a running node, and what launches leave behind for the next one. The locale \<open>migration_host\<close> is
  what the migration commands promise to an invariant of the database: they write only under the prefixes of
  the migration log and of the metadata index. It is interpreted with the durability of the chain.
\<close>

section \<open>The world of a process\<close>

text \<open>What outlives a process: the database with the project directory and the terminal, the secret files,
  whether the data directory exists, and the errors that creating it and opening the database meet.\<close>

record 'db world =
  wd_cli :: "'db cli_state"
  wd_files :: file_system
  wd_data_dir :: bool
  wd_data_error :: "string option"
  wd_open_error :: "string option"

abbreviation wd_db :: "'db world \<Rightarrow> 'db" where
  "wd_db w \<equiv> ci_db (wd_cli w)"

definition set_db :: "'db \<Rightarrow> 'db world \<Rightarrow> 'db world" where
  "set_db db w = w\<lparr>wd_cli := (wd_cli w)\<lparr>ci_db := db\<rparr>\<rparr>"

text \<open>The files as \<open>Config::from_env\<close> finds them: without the data directory there are none, and none can be written.\<close>

definition secret_files :: "'db world \<Rightarrow> file_system" where
  "secret_files w =
     (if wd_data_dir w then wd_files w
      else \<lparr>files = Map.empty, io_error = (\<lambda>_. Some ''No such file or directory (os error 2)'')\<rparr>)"

definition keep_files :: "file_system \<Rightarrow> 'db world \<Rightarrow> 'db world" where
  "keep_files fs w = (if wd_data_dir w then w\<lparr>wd_files := fs\<rparr> else w)"

text \<open>One launch: the command, the environment, and what the process draws from clock, terminal and generator.\<close>

record launch =
  la_command :: "migrate_command option"
  la_vars :: env_vars
  la_uuid :: string
  la_new_jwt :: bytes
  la_new_session :: bytes
  la_signing_key :: bytes
  la_clock :: "nat \<Rightarrow> i64 \<times> i64"
  la_input :: "string option"
  la_unicode :: unicode
  la_date :: date_time

text \<open>How \<open>main\<close> goes on: an exit code, a panic, a load that never ends, or a node that serves.\<close>

datatype ('db, 'c, 'n) outcome =
    Exit nat
  | Aborts
  | Hangs
  | Serving config "('db, 'c, 'n) node_libs" "('db, 'c, 'n) node_state"

section \<open>Starting\<close>

definition bypass_keys :: "env_vars \<Rightarrow> string list" where
  "bypass_keys ev =
     map trim (filter (\<lambda>s. trim s \<noteq> []) (split_on CHR '','' (unwrap_or (ev ''RATE_LIMIT_BYPASS_KEYS'') [])))"

definition get_available_migrations :: "'db rocks \<Rightarrow> 'db migration list" where
  "get_available_migrations rdb = [add_metadata_index rdb]"

definition init_data_directory :: "('db world, fail, unit) act" where
  "init_data_directory w =
     (if wd_data_dir w then (Inr (), w)
      else case wd_data_error w of
          Some e \<Rightarrow> (Err (DirectoryCreationFailed e), w)
        | None \<Rightarrow> (Inr (), w\<lparr>wd_data_dir := True\<rparr>))"

definition with_bypass :: "env_vars \<Rightarrow> ('db, 'c, 'n) node_libs \<Rightarrow> ('db, 'c, 'n) node_libs" where
  "with_bypass ev lib = lib\<lparr>nl_api := (nl_api lib)\<lparr>lb_bypass := set (bypass_keys ev)\<rparr>\<rparr>"

definition run_command ::
  "'z node_env_scheme \<Rightarrow> ('db, 'c, 'n) node_libs \<Rightarrow> (migration_metadata, bytes) codec \<Rightarrow> launch \<Rightarrow> bool
     \<Rightarrow> 'db migration list \<Rightarrow> migrate_command \<Rightarrow> 'db world \<Rightarrow> ('db, 'c, 'n) outcome \<times> 'db world" where
  "run_command env lib mbin la has_store available command w =
     (let (r, st) = handle_migrate_command env (migration_store (node_rocks lib) mbin) (la_clock la) (la_input la)
            (la_unicode la) (la_date la) has_store available command (wd_cli w)
      in (case r of
            Inr Returned \<Rightarrow> Exit 0
          | Inr (ProcessExit n) \<Rightarrow> Exit n
          | Inl (Fail _) \<Rightarrow> Exit 1
          | Inl Panic \<Rightarrow> Aborts, w\<lparr>wd_cli := st\<rparr>))"

text \<open>The server entry of the API description, with what goes to the standard error.\<close>

record api_server =
  sv_url :: string
  sv_description :: string

definition get_api_servers :: "env_vars \<Rightarrow> api_server list \<times> string list" where
  "get_api_servers ev =
     (let (environment, log) = (case ev ''ENV'' of
            Some environment \<Rightarrow> (environment, [])
          | None \<Rightarrow> (ENVIRONMENT_GCP,
              [''ENV environment variable not set, defaulting to '' @ [CHR 0x27] @ ENVIRONMENT_GCP @ [CHR 0x27]]));
          gcp = \<lparr>sv_url = API_SERVER_URL_GCP, sv_description = ''Development environment''\<rparr>
      in if environment = ENVIRONMENT_LOCAL
         then ([\<lparr>sv_url = API_SERVER_URL_LOCAL, sv_description = ''Load balancer (local development)''\<rparr>], log)
         else if environment = ENVIRONMENT_GCP then ([gcp], log)
         else ([gcp], log @ [''Unknown environment '' @ [CHR 0x27] @ environment @ [CHR 0x27] @ '', defaulting to ''
           @ [CHR 0x27] @ ENVIRONMENT_GCP @ [CHR 0x27]]))"

text \<open>The configuration, the data directory and the database; every failure ends the process with code 1.\<close>

definition prepare :: "launch \<Rightarrow> 'db world \<Rightarrow> config option \<times> 'db world" where
  "prepare la w =
     (case from_env (la_vars la) (la_uuid la) (la_new_jwt la) (la_new_session la) (secret_files w) of
        (Inl e, fs) \<Rightarrow> (None, keep_files fs w)
      | (Inr cfg, fs) \<Rightarrow>
          (case init_data_directory (keep_files fs w) of
             (Inl e, w) \<Rightarrow> (None, w)
           | (Inr _, w) \<Rightarrow> (if wd_open_error w = None then Some cfg else None, w)))"

text \<open>Loading the chain and putting the node together. Binding the HTTP port comes last; when that fails the
  process ends too, after it has run for a while without requests.\<close>

definition serve ::
  "'z node_env_scheme \<Rightarrow> ('db, 'c, 'n) node_libs \<Rightarrow> launch \<Rightarrow> config \<Rightarrow> 'db world
     \<Rightarrow> ('db, 'c, 'n) outcome \<times> 'db world" where
  "serve env lib la cfg w =
     (case load_blockchain env (node_rocks lib) (node_bin lib) (la_signing_key la) (cfg_node_id cfg)
             (cfg_validator_config cfg) (wd_db w) of
        None \<Rightarrow> (Hangs, w)
      | Some (Inl e, db) \<Rightarrow> (case e of Panic \<Rightarrow> Aborts | Fail _ \<Rightarrow> Exit 1, set_db db w)
      | Some (Inr bc, db) \<Rightarrow>
          let lib = with_bypass (la_vars la) lib
          in (Serving cfg lib (start_node lib cfg bc db), set_db db w))"

definition main_process ::
  "'z node_env_scheme \<Rightarrow> ('db, 'c, 'n) node_libs \<Rightarrow> (migration_metadata, bytes) codec \<Rightarrow> launch \<Rightarrow> 'db world
     \<Rightarrow> ('db, 'c, 'n) outcome \<times> 'db world" where
  "main_process env lib mbin la w =
     (case la_command la of
        Some (MigrateCreate description) \<Rightarrow> run_command env lib mbin la False [] (MigrateCreate description) w
      | command \<Rightarrow>
          (case prepare la w of
             (None, w) \<Rightarrow> (Exit 1, w)
           | (Some cfg, w) \<Rightarrow>
               (case command of
                  Some cmd \<Rightarrow> run_command env lib mbin la True (get_available_migrations (node_rocks lib)) cmd w
                | None \<Rightarrow> serve env lib la cfg w)))"

lemma set_db_sel [simp]: "wd_db (set_db db w) = db" "wd_db (keep_files fs w) = wd_db w"
  by (simp_all add: set_db_def keep_files_def)

lemma with_bypass_sel [simp]:
  "node_rocks (with_bypass ev lib) = node_rocks lib" "node_bin (with_bypass ev lib) = node_bin lib"
  "one_database (with_bypass ev lib) = one_database lib"
  by (simp_all add: with_bypass_def one_database_def)

lemma prepare_db: "prepare la w = (r, w') \<Longrightarrow> wd_db w' = wd_db w"
  by (auto simp: prepare_def init_data_directory_def split: prod.splits sum.splits option.splits if_splits)

text \<open>The description always names one server, the local one exactly when it is asked for, and a known environment is
  taken without complaint.\<close>

lemma api_servers_exact:
  "\<exists>server log. get_api_servers ev = ([server], log)
     \<and> (sv_url server = API_SERVER_URL_LOCAL \<longleftrightarrow> ev ''ENV'' = Some ENVIRONMENT_LOCAL)
     \<and> (log = [] \<longleftrightarrow> ev ''ENV'' \<in> {Some ENVIRONMENT_LOCAL, Some ENVIRONMENT_GCP})"
  by (auto simp: get_api_servers_def Let_def ENVIRONMENT_LOCAL_def ENVIRONMENT_GCP_def API_SERVER_URL_LOCAL_def
      API_SERVER_URL_GCP_def split: option.splits)

section \<open>Migrations next to the chain\<close>

definition migration_key :: "bytes \<Rightarrow> bool" where
  "migration_key k \<longleftrightarrow> (\<exists>p\<in>{''migration:'', ''metadata:index:''}. has_prefix (as_bytes p) k)"

fun op_key :: "batch_op \<Rightarrow> bytes" where
  "op_key (BPut k v) = k"
| "op_key (BDel k) = k"

lemma migration_keys [simp]:
  "migration_key (applied_key v)" "migration_key current_schema_key"
  "migration_key index_enabled_key" "migration_key index_created_key"
  by (simp_all add: migration_key_def applied_key_def MIGRATION_APPLIED_PREFIX_def as_bytes_def)

lemma migration_key_foreign: "migration_key k \<Longrightarrow> \<not> store_key k"
  by (auto simp: migration_key_def store_key_def block_key_def checkpoint_key_def as_bytes_def)

lemma apply_batch_elsewhere: "k \<notin> op_key ` set ops \<Longrightarrow> apply_batch ops m k = m k"
  by (induction ops m rule: apply_batch.induct) auto

locale migration_host =
  fixes rdb :: "'db rocks"
    and inv :: "'db \<Rightarrow> bool"
  assumes write_keeps: "(\<forall>x\<in>set ops. migration_key (op_key x)) \<Longrightarrow> inv db \<Longrightarrow> inv (snd (db_write rdb db ops))"
begin

lemma write_call_keeps:
  "(\<forall>x\<in>set ops. migration_key (op_key x)) \<Longrightarrow> keeps inv (db_call RocksDbError (\<lambda>db. db_write rdb db ops))"
  using write_keeps by (auto simp: keeps_def db_call_def Let_def split_def)

lemma mark_keeps: "keeps inv (mark_applied rdb bin m)"
  unfolding mark_applied_def by (intro keep write_call_keeps) simp

lemma unmark_keeps: "keeps inv (mark_unapplied rdb bin v)"
proof -
  have "keeps inv (\<lambda>db. db_call RocksDbError (\<lambda>db. db_write rdb db [BDel (applied_key v), schema]) db)"
    if "migration_key (op_key schema)" for schema
    using that by (intro write_call_keeps) simp
  then show ?thesis by (auto simp: keeps_def mark_unapplied_def Let_def split: sum.splits)
qed

lemma scanned_keys:
  "scan_applied (\<lambda>(key, value). Inr key) items = Inr keys \<Longrightarrow> k \<in> set keys \<Longrightarrow> migration_key k"
proof (induction items arbitrary: keys)
  case (Cons item items)
  show ?case
  proof (cases item)
    case (Inr kv)
    obtain key v where kv: "kv = (key, v)" by (cases kv)
    show ?thesis
    proof (cases "from_utf8 key")
      case (Inr s)
      then have key: "key = as_bytes s" by (auto simp: from_utf8_def split: if_splits)
      show ?thesis
      proof (cases "has_prefix MIGRATION_APPLIED_PREFIX s")
        case True
        then obtain v where "key = applied_key v"
          using applied_key_prefix [of key] by (auto simp: key has_prefix_as_bytes)
        with Cons \<open>item = Inr kv\<close> kv Inr True show ?thesis by (auto simp: bindE_Inr_iff)
      qed (use Cons \<open>item = Inr kv\<close> kv Inr in auto)
    qed (use Cons Inr kv in auto)
  qed (use Cons in simp)
qed simp

lemma clear_keeps: "keeps inv (clear_all_migrations rdb)"
proof (rule keepsI)
  fix db assume db: "inv db"
  show "inv (snd (clear_all_migrations rdb db))"
  proof (cases "scan_applied (\<lambda>(key, value). Inr key) (db_iter rdb db (as_bytes MIGRATION_APPLIED_PREFIX))")
    case (Inr keys)
    then have "\<forall>x\<in>set (map BDel keys @ [BDel current_schema_key]). migration_key (op_key x)"
      by (auto intro: scanned_keys)
    from keepsD [OF write_call_keeps [OF this] db] Inr show ?thesis by (simp add: clear_all_migrations_def)
  qed (use db in \<open>simp add: clear_all_migrations_def\<close>)
qed

definition harmless :: "'db migration \<Rightarrow> bool" where
  "harmless m \<longleftrightarrow> (\<forall>t. keeps inv (mg_up m t)) \<and> keeps inv (mg_down m)"

lemma available_harmless: "list_all harmless (get_available_migrations rdb)"
  by (auto simp: get_available_migrations_def harmless_def add_metadata_index_def intro!: write_call_keeps)

lemma store_sel:
  "mo_mark (migration_store rdb bin) = mark_applied rdb bin" "mo_unmark (migration_store rdb bin) = mark_unapplied rdb bin"
  "mo_clear (migration_store rdb bin) = clear_all_migrations rdb"
  by (simp_all add: migration_store_def)

lemma apply_loop_keeps:
  "list_all harmless ms \<Longrightarrow> keeps inv (apply_loop env (migration_store rdb bin) clk i ms)"
proof (induction ms arbitrary: i)
  case (Cons m ms)
  have "keeps inv (apply_migration env (migration_store rdb bin) (clk i) m)"
    unfolding apply_migration_def store_sel by (intro keep mark_keeps) (use Cons.prems in \<open>simp add: harmless_def\<close>)
  then show ?case unfolding apply_loop.simps using Cons by (intro keep) simp_all
qed (simp add: keep)

lemma rollback_loop_keeps:
  "list_all harmless available \<Longrightarrow> keeps inv (rollback_loop (migration_store rdb bin) available ms)"
proof (induction ms)
  case (Cons m ms)
  have roll: "keeps inv (rollback_migration (migration_store rdb bin) mg)" if "harmless mg" for mg
    unfolding rollback_migration_def store_sel by (intro keep unmark_keeps) (use that in \<open>simp add: harmless_def\<close>)
  show ?case
  proof (cases "find (\<lambda>mg. mg_version mg = mm_version m) available")
    case None
    then show ?thesis by (simp add: keeps_def bindS_def liftS_def ok_or_def)
  next
    case (Some mg)
    then have "harmless mg" using Cons.prems by (auto simp: find_Some_iff list_all_iff)
    then have "keeps inv (bindS (rollback_migration (migration_store rdb bin) mg) (\<lambda>_.
        bindS (rollback_loop (migration_store rdb bin) available ms) (\<lambda>n. retS (Suc n))))"
      using Cons by (intro keep roll) simp_all
    with Some show ?thesis by (simp add: keeps_def bindS_def liftS_def ok_or_def)
  qed
qed (simp add: keep)

abbreviation kept :: "'db cli_state \<Rightarrow> bool" where
  "kept st \<equiv> inv (ci_db st)"

lemma console_keeps: "keeps kept (println l)" "keeps kept (print_lines ls)" "keeps kept (print_versions available vs)"
proof -
  show p: "keeps kept (println l)" for l by (simp add: keeps_def println_def)
  show "keeps kept (print_lines ls)" by (simp add: keeps_def print_lines_eq)
  show "keeps kept (print_versions available vs)"
    by (induction vs) (simp_all only: print_versions.simps print_available_def, (intro keep p; assumption?)+)
qed

lemma on_db_keeps: "keeps inv act \<Longrightarrow> keeps kept (on_db act)"
  by (auto simp: keeps_def on_db_def Let_def split_def)

lemma command_keeps:
  assumes "list_all harmless available"
  shows "keeps kept (handle_migrate_command env (migration_store rdb bin) clk input uc now has_store available c)"
proof -
  let ?ops = "migration_store rdb bin"
  have pending: "keeps inv (apply_pending env ?ops clk available)"
  proof -
    have "keeps inv (bindS (liftS (get_pending_migrations ?ops available db)) (\<lambda>pending.
        if pending = [] then retS (0, []) else bindS (apply_loop env ?ops clk 0 pending) (\<lambda>vs. retS (length vs, vs))))" for db
    proof (cases "get_pending_migrations ?ops available db")
      case (Inr ms)
      then have "list_all harmless ms" using assms by (auto simp: get_pending_migrations_def bindE_Inr_iff list_all_iff Let_def)
      then have "keeps inv (if ms = [] then retS (0, []) else bindS (apply_loop env ?ops clk 0 ms) (\<lambda>vs. retS (length vs, vs)))"
        by (intro keep apply_loop_keeps)
      with Inr show ?thesis by (simp add: keeps_def bindS_def liftS_def)
    qed (simp add: keeps_def bindS_def liftS_def)
    then show ?thesis by (simp add: keeps_def apply_pending_def bindS_def liftS_def)
  qed
  have "keeps inv (rollback_last ?ops n available)" for n
    unfolding rollback_last_def by (intro keep rollback_loop_keeps assms)
  then have "keeps kept (handle_down ?ops input n yes available)" for n yes
    unfolding handle_down_def Let_def by (intro keep on_db_keeps console_keeps) simp_all
  moreover have "keeps kept (handle_up env ?ops clk available)"
    unfolding handle_up_def by (intro keep on_db_keeps console_keeps pending)
  moreover have "keeps kept (handle_status ?ops available)"
    unfolding handle_status_def by (intro keep on_db_keeps console_keeps)
  moreover have "keeps kept (handle_reset ?ops b)" for b
    unfolding handle_reset_def reset_migrations_def store_sel by (intro keep on_db_keeps console_keeps clear_keeps)
  moreover have "keeps kept (handle_create uc now d)" for d
    by (auto simp: keeps_def handle_create_def Let_def print_lines_eq bindS_def split: option.splits)
  ultimately show ?thesis
    unfolding handle_migrate_command_def by (cases c) (auto intro!: keep)
qed

lemma run_command_keeps:
  assumes "node_rocks lib = rdb" and "list_all harmless available" and "inv (wd_db w)"
  shows "inv (wd_db (snd (run_command env lib mbin la has_store available c w)))"
  using keepsD [OF command_keeps [OF assms(2)] assms(3)] assms(1) by (simp add: run_command_def Let_def split_def)

text \<open>A launch with a command never breaks the invariant, however it ends.\<close>

lemma command_launch_keeps:
  assumes "node_rocks lib = rdb" and "la_command la = Some c" and "inv (wd_db w)"
  shows "inv (wd_db (snd (main_process env lib mbin la w)))"
proof -
  have go: "inv (wd_db (snd (run_command env lib mbin la has_store available c w')))"
    if "available = [] \<or> available = get_available_migrations (node_rocks lib)" "wd_db w' = wd_db w"
    for has_store available c w'
    using that assms(1,3) available_harmless by (auto intro: run_command_keeps)
  obtain r w' where p: "prepare la w = (r, w')" by (cases "prepare la w")
  have "inv (wd_db w')" using assms(3) prepare_db [OF p] by simp
  with assms(2) p go prepare_db [OF p] show ?thesis
    by (cases c; cases r) (simp_all add: main_process_def)
qed

end

interpretation migrating_chain: migration_host rdb "durable rdb healthy bin bs"
  for rdb :: "'db rocks" and healthy bin bs
proof unfold_locales
  fix ops and db :: 'db assume keys: "\<forall>x\<in>set ops. migration_key (op_key x)" and d: "durable rdb healthy bin bs db"
  then have ok: "rocks_ok rdb healthy" "healthy db" by (auto dest: durable_laws)
  have "apply_batch ops m k = m k" if "store_key k" for m k
    using that keys migration_key_foreign by (intro apply_batch_elsewhere) auto
  moreover obtain db' where "db_write rdb db ops = (Inr (), db')" "healthy db'"
    "contents rdb db' = apply_batch ops (contents rdb db)" by (rule rocks_write [OF ok])
  ultimately show "durable rdb healthy bin bs (snd (db_write rdb db ops))"
    by (auto intro: durable_elsewhere [OF d])
qed

section \<open>Properties\<close>

definition launches ::
  "'z node_env_scheme \<Rightarrow> ('db, 'c, 'n) node_libs \<Rightarrow> (migration_metadata, bytes) codec \<Rightarrow> launch list \<Rightarrow> 'db world
     \<Rightarrow> 'db world" where
  "launches env lib mbin las w = fold (\<lambda>la w. snd (main_process env lib mbin la w)) las w"

lemma command_launches_durable:
  assumes "\<forall>la\<in>set las. la_command la \<noteq> None" and "durable (node_rocks lib) healthy bin bs (wd_db w)"
  shows "durable (node_rocks lib) healthy bin bs (wd_db (launches env lib mbin las w))"
  using assms unfolding launches_def
proof (induction las arbitrary: w)
  case (Cons la las)
  then obtain c where "la_command la = Some c" by auto
  from migrating_chain.command_launch_keeps [OF refl this Cons.prems(2), where env = env and mbin = mbin] Cons show ?case by simp
qed simp

text \<open>The life of a node: launches that serve or end, what happens while it serves, and the end of the process at
  any point. Only \<open>orderly\<close> steps occur while it serves: synchronisation replaces the chain in memory only, and an
  interrupted flush saves its block late. The chain has to stay within the range in which the database numbers it.\<close>

datatype ('db, 'c, 'n) process =
    Stopped "'db world"
  | Running "'db world" config "('db, 'c, 'n) node_libs" "('db, 'c, 'n) node_state"

inductive lifetime_step ::
  "'z node_env_scheme \<Rightarrow> ('db, 'c, 'n) node_libs \<Rightarrow> (migration_metadata, bytes) codec
     \<Rightarrow> ('db, 'c, 'n) process \<Rightarrow> ('db, 'c, 'n) process \<Rightarrow> bool"
  for env lib mbin where
  launch_serves: "main_process env lib mbin la w = (Serving cfg lib' nd, w') \<Longrightarrow>
     lifetime_step env lib mbin (Stopped w) (Running w' cfg lib' nd)"
| launch_ends: "main_process env lib mbin la w = (result, w') \<Longrightarrow> (\<forall>cfg lib' nd. result \<noteq> Serving cfg lib' nd) \<Longrightarrow>
     lifetime_step env lib mbin (Stopped w) (Stopped w')"
| serves_on: "orderly x \<Longrightarrow> nd' = node_step env lib' cfg x nd \<Longrightarrow>
     length (chain (nd_chain nd')) < 2 ^ 63 \<Longrightarrow>
     lifetime_step env lib mbin (Running w cfg lib' nd) (Running (set_db (nd_db nd') w) cfg lib' nd')"
| process_ends: "lifetime_step env lib mbin (Running w cfg lib' nd) (Stopped w)"

text \<open>What every moment of a life keeps: the database holds a chain that extends \<open>c\<close>, in memory too while the
  node serves.\<close>

definition chain_sound ::
  "'z node_env_scheme \<Rightarrow> ('db, 'c, 'n) node_libs \<Rightarrow> ('db \<Rightarrow> bool) \<Rightarrow> block list \<Rightarrow> 'db \<Rightarrow> bool" where
  "chain_sound env lib healthy bs db \<longleftrightarrow>
     durable (node_rocks lib) healthy (node_bin lib) bs db \<and> well_indexed bs \<and> successively (wire_links env) bs
     \<and> length bs < 2 ^ 63"

fun life_holds ::
  "'z node_env_scheme \<Rightarrow> ('db, 'c, 'n) node_libs \<Rightarrow> ('db \<Rightarrow> bool) \<Rightarrow> block list \<Rightarrow> ('db, 'c, 'n) process \<Rightarrow> bool" where
  "life_holds env lib healthy c (Stopped w) \<longleftrightarrow> (\<exists>bs. chain_sound env lib healthy (c @ bs) (wd_db w))"
| "life_holds env lib healthy c (Running w cfg lib' nd) \<longleftrightarrow>
     (\<exists>ev. lib' = with_bypass ev lib) \<and> wd_db w = nd_db nd
     \<and> (\<exists>bs. chain (nd_chain nd) = c @ bs \<and> chain_sound env lib healthy (c @ bs) (nd_db nd))"

text \<open>A launch on a sound database serves exactly the stored chain, as soon as configuration, data directory and
  database are available.\<close>

lemma launch_sound:
  assumes sound: "chain_sound env lib healthy bs (wd_db w)" and "la_command la = None"
    and p: "prepare la w = (Some cfg, w')"
  shows "\<exists>bc. main_process env lib mbin la w = (Serving cfg (with_bypass (la_vars la) lib)
      (start_node (with_bypass (la_vars la) lib) cfg bc (wd_db w')), w') \<and> chain bc = bs"
proof -
  have db: "wd_db w' = wd_db w" using prepare_db [OF p] .
  have "durable (node_rocks lib) healthy (node_bin lib) bs (wd_db w')" "length bs < 2 ^ 63"
    using sound by (simp_all add: chain_sound_def db)
  from durable_restart [OF this] obtain bc where "load_blockchain env (node_rocks lib) (node_bin lib) (la_signing_key la)
      (cfg_node_id cfg) (cfg_validator_config cfg) (wd_db w') = Some (Inr bc, wd_db w')" and "chain bc = bs" by metis
  moreover have "set_db (wd_db w') w' = w'" by (simp add: set_db_def)
  ultimately show ?thesis using assms(2) p by (auto simp: main_process_def serve_def Let_def)
qed

lemma launch_unprepared:
  "la_command la = None \<Longrightarrow> prepare la w = (None, w') \<Longrightarrow> main_process env lib mbin la w = (Exit 1, w')"
  by (simp add: main_process_def)

lemma launch_holds:
  assumes "chain_sound env lib healthy (c @ bs) (wd_db w)" and run: "main_process env lib mbin la w = (result, w')"
  shows "chain_sound env lib healthy (c @ bs) (wd_db w')
    \<and> (\<forall>cfg lib' nd. result = Serving cfg lib' nd \<longrightarrow> life_holds env lib healthy c (Running w' cfg lib' nd))"
proof (cases "la_command la")
  case None
  obtain r w1 where p: "prepare la w = (r, w1)" by (cases "prepare la w")
  show ?thesis
  proof (cases r)
    case None
    with p have "main_process env lib mbin la w = (Exit 1, w1)" by (simp add: launch_unprepared \<open>la_command la = None\<close>)
    with run have "result = Exit 1" "w' = w1" by simp_all
    with prepare_db [OF p] assms(1) show ?thesis by simp
  next
    case (Some cfg)
    from launch_sound [OF assms(1) \<open>la_command la = None\<close>, of cfg w1 mbin] p Some run prepare_db [OF p] assms(1)
    show ?thesis by auto
  qed
next
  case (Some cmd)
  have "durable (node_rocks lib) healthy (node_bin lib) (c @ bs) (wd_db (snd (main_process env lib mbin la w)))"
    using assms(1) by (intro migrating_chain.command_launch_keeps [OF refl Some]) (simp add: chain_sound_def)
  moreover have "\<forall>cfg lib' nd. result \<noteq> Serving cfg lib' nd"
    using run Some by (auto simp: main_process_def run_command_def Let_def split: migrate_command.splits option.splits
        prod.splits sum.splits cli_end.splits fail.splits)
  ultimately show ?thesis using assms(1) run by (simp add: chain_sound_def)
qed

lemma lifetime_step_holds:
  assumes ok: "blake3_ok env" "total_codec (node_bin lib)" "one_database lib"
    and step: "lifetime_step env lib mbin p p'" and holds: "life_holds env lib healthy c p"
  shows "life_holds env lib healthy c p'"
  using step
proof cases
  case (serves_on x nd' lib' cfg nd w)
  note p = serves_on(1,2) and x = serves_on(3,4) and len = serves_on(5)
  from holds p obtain ev bs where lib': "lib' = with_bypass ev lib" and bs: "chain (nd_chain nd) = c @ bs"
    and sound: "chain_sound env lib healthy (c @ bs) (nd_db nd)" by auto
  then have "node_ready env lib' healthy nd" by (simp add: node_ready_def chain_sound_def)
  moreover have "total_codec (node_bin lib')" "one_database lib'" using ok(2,3) by (simp_all add: lib')
  ultimately have "node_ready env lib' healthy nd' \<and> (\<exists>bs'. chain (nd_chain nd') = (c @ bs) @ bs')"
    unfolding bs [symmetric] x(2) using x(1) len by (intro node_step_ready ok(1)) (simp_all add: x(2))
  then obtain bs' where "node_ready env lib' healthy nd'" "chain (nd_chain nd') = c @ (bs @ bs')" by auto
  with len have "chain_sound env lib healthy (c @ (bs @ bs')) (nd_db nd')"
    by (simp add: lib' node_ready_def chain_sound_def)
  with \<open>chain (nd_chain nd') = c @ (bs @ bs')\<close> show ?thesis unfolding p life_holds.simps set_db_sel lib' by blast
next
  case (launch_serves la w cfg lib' nd w')
  from holds obtain bs where "chain_sound env lib healthy (c @ bs) (wd_db w)" unfolding launch_serves by auto
  from launch_holds [OF this launch_serves(3)] show ?thesis unfolding launch_serves(2) by blast
next
  case (launch_ends la w result w')
  from holds obtain bs where "chain_sound env lib healthy (c @ bs) (wd_db w)" unfolding launch_ends by auto
  from launch_holds [OF this launch_ends(3)] show ?thesis unfolding launch_ends(2) by auto
next
  case (process_ends w cfg lib' nd)
  with holds show ?thesis by auto
qed

lemma lifetime_holds:
  assumes "blake3_ok env" "total_codec (node_bin lib)" "one_database lib"
    and "(lifetime_step env lib mbin)\<^sup>*\<^sup>* p p'" and "life_holds env lib healthy c p"
  shows "life_holds env lib healthy c p'"
  using assms(4,5) by (induction rule: rtranclp_induct) (auto intro: lifetime_step_holds [OF assms(1-3)])

text \<open>C2. What a node accepted is never lost. Follow a node in good order through any life: any interleaving of
  requests, peer connections with arbitrary bytes, audit flushes, nonce cleanups, WebSocket traffic and
  spawned tasks (but no synchronisation, and no flush that is interrupted before it saves its block), ends
  of the process at any point, failing launches, migration commands and restarts. Wherever it serves, its chain extends the one at the beginning. And when it is
  stopped there and any migration commands run, successful or not, then the next launch whose
  configuration, data directory and database are available serves: loading ends, the chain is exactly the
  one the node had, and the new node is in good order.\<close>

theorem restart_keeps_chain:
  assumes "blake3_ok env" and "total_codec (node_bin lib)" and "one_database lib"
    and ready: "node_ready env lib healthy nd" and "length (chain (nd_chain nd)) < 2 ^ 63" and "wd_db w = nd_db nd"
    and life: "(lifetime_step env lib mbin)\<^sup>*\<^sup>* (Running w cfg (with_bypass ev lib) nd) (Running w' cfg' lib' nd')"
    and "\<forall>la\<in>set commands. la_command la \<noteq> None"
    and "la_command la = None" and p: "prepare la (launches env lib mbin commands w') = (Some cfg'', w'')"
  shows "\<exists>bs lib'' nd''. main_process env lib mbin la (launches env lib mbin commands w') = (Serving cfg'' lib'' nd'', w'')
    \<and> chain (nd_chain nd'') = chain (nd_chain nd') \<and> chain (nd_chain nd') = chain (nd_chain nd) @ bs
    \<and> node_ready env lib'' healthy nd''"
proof -
  have "life_holds env lib healthy (chain (nd_chain nd)) (Running w cfg (with_bypass ev lib) nd)"
    using ready assms(5,6) by (auto simp: node_ready_def chain_sound_def)
  from lifetime_holds [OF assms(1-3) life this]
  obtain bs where bs: "chain (nd_chain nd') = chain (nd_chain nd) @ bs"
    and sound: "chain_sound env lib healthy (chain (nd_chain nd')) (wd_db w')" by auto
  have "durable (node_rocks lib) healthy (node_bin lib) (chain (nd_chain nd')) (wd_db (launches env lib mbin commands w'))"
    by (rule command_launches_durable [OF assms(8)]) (use sound in \<open>simp add: chain_sound_def\<close>)
  then have "chain_sound env lib healthy (chain (nd_chain nd')) (wd_db (launches env lib mbin commands w'))"
    using sound by (simp add: chain_sound_def)
  from launch_sound [OF this assms(9) p, of mbin] this prepare_db [OF p] bs show ?thesis
    by (force simp: node_ready_def chain_sound_def)
qed

text \<open>The scan for checkpoints ends as soon as one of the keys it comes to is missing or cannot be read. The keys under
  which it looks, one hundred apart, only begin to repeat after \<open>2 ^ 62\<close> of them.\<close>

lemma scan_ends:
  assumes "\<nexists>v. db_get rdb db (checkpoint_key (i + of_nat (100 * n))) = Inr (Some v)"
  shows "\<exists>r. scan_checkpoints rdb db i cps = Some r"
  using assms
proof (induction n arbitrary: i cps)
  case 0
  then show ?case by (subst scan_checkpoints.simps) (auto split: sum.splits option.splits)
next
  case (Suc n)
  have "i + 100 + of_nat (100 * n) = i + of_nat (100 * Suc n)" by (simp add: algebra_simps)
  with Suc have "\<exists>r. scan_checkpoints rdb db (i + 100) cps' = Some r" for cps' by metis
  then show ?case by (subst scan_checkpoints.simps) (auto split: sum.splits option.splits)
qed

lemma hundreds_distinct: "inj_on (\<lambda>n. 100 + of_nat (100 * n) :: u64) {..<2 ^ 62}"
proof (rule linorder_inj_onI)
  fix i j :: nat assume ij: "i < j" "i \<in> {..<2 ^ 62}" "j \<in> {..<2 ^ 62}"
  show "100 + of_nat (100 * i) \<noteq> (100 + of_nat (100 * j) :: u64)"
  proof
    assume "100 + of_nat (100 * i) = (100 + of_nat (100 * j) :: u64)"
    then have "unat (of_nat (100 * i) :: u64) = unat (of_nat (100 * j) :: u64)" by (metis add_left_cancel)
    then have "(100 * i) mod 2 ^ 64 = (100 * j) mod 2 ^ 64" unfolding unat_of_nat by simp
    then have "(2 :: nat) ^ 64 dvd 100 * j - 100 * i" using ij by (metis mod_eq_dvd_iff_nat less_imp_le mult_le_mono2)
    moreover have "100 * j - 100 * i = 2 ^ 2 * (25 * (j - i))" by (simp add: diff_mult_distrib2)
    ultimately have "(2 :: nat) ^ 62 dvd 25 * (j - i)" by (simp add: power_add [of 2 2 62, simplified])
    moreover have "coprime ((2 :: nat) ^ 62) 25" unfolding coprime_power_left_iff by (simp add: coprime_left_2_iff_odd)
    ultimately have "2 ^ 62 dvd j - i" by (simp add: coprime_dvd_mult_right_iff)
    with ij show False by (auto dest: dvd_imp_le)
  qed
qed auto

text \<open>C19. No launch hangs. The only loop of a start that is not bounded by its data is the scan for checkpoints, whose
  index is a 64-bit number that wraps around. Whatever the database answers and whatever it holds, as long as there are
  fewer than \<open>2 ^ 62\<close> indexes under which it returns a checkpoint, the scan ends, and every launch comes to an exit
  code, a panic or a serving node.\<close>

theorem launch_never_hangs:
  assumes "card {i :: u64. \<exists>v. db_get (node_rocks lib) (wd_db w) (checkpoint_key i) = Inr (Some v)} < 2 ^ 62"
  shows "(\<exists>r. load_checkpoints (node_rocks lib) (wd_db w) = Some r) \<and> fst (main_process env lib mbin la w) \<noteq> Hangs"
proof -
  let ?rdb = "node_rocks lib" and ?f = "\<lambda>n. 100 + of_nat (100 * n) :: u64"
  have "\<exists>n. \<nexists>v. db_get ?rdb (wd_db w) (checkpoint_key (?f n)) = Inr (Some v)"
  proof (rule ccontr)
    assume "\<nexists>n. \<nexists>v. db_get ?rdb (wd_db w) (checkpoint_key (?f n)) = Inr (Some v)"
    then have "?f ` {..<2 ^ 62} \<subseteq> {i. \<exists>v. db_get ?rdb (wd_db w) (checkpoint_key i) = Inr (Some v)}" by blast
    from card_mono [OF finite this] assms show False unfolding card_image [OF hundreds_distinct] by simp
  qed
  then obtain n where "\<nexists>v. db_get ?rdb (wd_db w) (checkpoint_key (?f n)) = Inr (Some v)" ..
  then have "\<exists>r. scan_checkpoints ?rdb (wd_db w) 100 [] = Some r" by (rule scan_ends)
  then obtain r where cps: "load_checkpoints ?rdb (wd_db w) = Some r" by (auto simp: load_checkpoints_def)
  then have load: "load_blockchain env ?rdb bin key nid cfg (wd_db w) \<noteq> None" for bin key nid cfg
    by (auto simp: load_blockchain_def split: sum.splits bool.splits)
  obtain p w' where prep: "prepare la w = (p, w')" by (cases "prepare la w")
  have "fst (run_command env lib mbin la has_store available c v) \<noteq> (Hangs :: ('a, 'b, 'c) outcome)" for has_store available c v
    by (auto simp: run_command_def Let_def split: sum.splits prod.splits cli_end.splits fail.splits)
  moreover have "fst (serve env lib la cfg w') \<noteq> Hangs" for cfg
    using load [of "node_bin lib"] unfolding prepare_db [OF prep, symmetric]
    by (auto simp: serve_def Let_def split: option.splits sum.splits prod.splits fail.splits)
  ultimately show ?thesis
    using cps prep by (auto simp: main_process_def split: option.splits migrate_command.splits)
qed

text \<open>The data directory is created too late. On a machine where it does not exist, a launch that is to
  generate one of the two secrets ends with code 1 and creates nothing, although the very next step of \<open>main\<close>
  would create the directory; so a first start without both secret variables fails there every time.\<close>

theorem missing_directory_stops:
  assumes "\<not> wd_data_dir w" and "\<forall>d. la_command la \<noteq> Some (MigrateCreate d)"
    and "la_vars la ''JWT_SECRET'' = None \<or> la_vars la ''SESSION_SECRET'' = None"
  shows "main_process env lib mbin la w = (Exit 1, w)"
proof -
  let ?fs = "secret_files w"
  have fs: "files ?fs path = None" "io_error ?fs path = Some ''No such file or directory (os error 2)''" for path
    using assms(1) by (simp_all add: secret_files_def)
  have secret: "load_secret var weak path (la_vars la) new ?fs = (Inr s, fs1) \<Longrightarrow> la_vars la var \<noteq> None \<and> fs1 = ?fs"
    for var weak path new s fs1
    by (auto simp: load_secret_def fs split: option.splits if_splits)
  have "\<exists>e fs'. from_env (la_vars la) (la_uuid la) (la_new_jwt la) (la_new_session la) ?fs = (Inl e, fs')"
  proof (rule ccontr)
    assume "\<nexists>e fs'. from_env (la_vars la) (la_uuid la) (la_new_jwt la) (la_new_session la) ?fs = (Inl e, fs')"
    then obtain cfg fs' where "from_env (la_vars la) (la_uuid la) (la_new_jwt la) (la_new_session la) ?fs = (Inr cfg, fs')"
      by (metis surj_pair sum.exhaust)
    then obtain fs1 s s' where jwt: "load_jwt_secret (la_vars la) (la_new_jwt la) ?fs = (Inr s, fs1)"
      and session: "load_session_secret (la_vars la) (la_new_session la) fs1 = (Inr s', fs')"
      by (auto simp: from_env_def Let_def res_iff liftS_def)
    from secret [OF jwt [unfolded load_jwt_secret_def]] secret [of "''SESSION_SECRET''"] session assms(3)
    show False by (auto simp: load_session_secret_def)
  qed
  then have "prepare la w = (None, w)" using assms(1) by (auto simp: prepare_def keep_files_def)
  with assms(2) show ?thesis by (auto simp: main_process_def split: option.splits migrate_command.splits)
qed

section \<open>A concrete machine\<close>

definition demo_launch :: launch where
  "demo_launch = \<lparr>la_command = None,
     la_vars = [''NODE_ID'' \<mapsto> ''n'', ''JWT_SECRET'' \<mapsto> replicate 32 CHR ''j'', ''SESSION_SECRET'' \<mapsto> replicate 32 CHR ''s''],
     la_uuid = ''u'', la_new_jwt = replicate 32 1, la_new_session = replicate 32 2, la_signing_key = [3],
     la_clock = (\<lambda>_. (0, 0)), la_input = None, la_unicode = demo_unicode,
     la_date = \<lparr>dt_year = 2025, dt_month = 1, dt_day = 15, dt_hour = 9, dt_minute = 30, dt_second = 5\<rparr>\<rparr>"

definition demo_world :: "demo_db \<Rightarrow> demo_db world" where
  "demo_world db = \<lparr>wd_cli = \<lparr>ci_db = db, ci_sources = \<lparr>so_dir = True, so_files = Map.empty, so_mkdir_error = None,
       so_write_error = None\<rparr>, ci_out = []\<rparr>,
     wd_files = \<lparr>files = Map.empty, io_error = Map.empty\<rparr>, wd_data_dir = True, wd_data_error = None, wd_open_error = None\<rparr>"

lemma demo_prepare: "\<exists>cfg. prepare demo_launch (demo_world db\<lparr>wd_cli := st\<rparr>) = (Some cfg, demo_world db\<lparr>wd_cli := st\<rparr>)"
proof -
  have port: "parse_unsigned 65535 DEFAULT_P2P_PORT = Some 9000"
    by (simp add: parse_unsigned_def is_ascii_digit_def digits_val_def digit_val_def DEFAULT_P2P_PORT_def)
  have "trim ''Validator_1'' = ''Validator_1''"
    by (rule trim_trimmed) (simp add: trimmed_def lead_def whitespace_def)
  then have "\<exists>vc. load_validator_config (la_vars demo_launch) = Inr vc"
    by (simp add: demo_launch_def load_validator_config_def unwrap_or_def comma_list_def)
  then obtain vc where vc: "load_validator_config (la_vars demo_launch) = Inr vc" by blast
  have "\<exists>cfg. from_env (la_vars demo_launch) (la_uuid demo_launch) (la_new_jwt demo_launch) (la_new_session demo_launch) fs
      = (Inr cfg, fs)" for fs
    using vc by (simp add: from_env_def Let_def load_jwt_secret_def load_session_secret_def load_secret_def
        demo_launch_def unwrap_or_def port bindS_def)
  from this [of "\<lparr>files = Map.empty, io_error = Map.empty\<rparr>"] show ?thesis
    by (auto simp: prepare_def init_data_directory_def keep_files_def secret_files_def demo_world_def)
qed

text \<open>A run of steps that leave the chain alone is part of a life.\<close>

lemma quiet_run_lives:
  assumes "\<forall>x\<in>set ops. orderly x
      \<and> (\<forall>nd. chain (nd_chain (node_step env lib' cfg x nd)) = chain (nd_chain nd))"
    and "length (chain (nd_chain nd)) < 2 ^ 63"
  shows "\<exists>db. (lifetime_step env lib mbin)\<^sup>*\<^sup>* (Running w cfg lib' nd) (Running (set_db db w) cfg lib' (node_run env lib' cfg ops nd))"
  using assms
proof (induction ops arbitrary: nd w)
  case Nil
  have "set_db (wd_db w) w = w" by (simp add: set_db_def)
  then show ?case by (metis node_run_def fold_simps(1) rtranclp.rtrancl_refl)
next
  case (Cons x ops)
  let ?nd = "node_step env lib' cfg x nd"
  have "lifetime_step env lib mbin (Running w cfg lib' nd) (Running (set_db (nd_db ?nd) w) cfg lib' ?nd)"
    using Cons.prems by (intro serves_on) auto
  moreover have "set_db db (set_db (nd_db ?nd) w) = set_db db w" for db by (simp add: set_db_def)
  ultimately show ?case
    using Cons.IH [of ?nd "set_db (nd_db ?nd) w"] Cons.prems
    by (auto simp: node_run_def intro: converse_rtranclp_into_rtranclp)
qed

lemma demo_run_quiet:
  "\<forall>x\<in>set demo_run. orderly x
     \<and> (\<forall>nd. chain (nd_chain (node_step env lib cfg x nd)) = chain (nd_chain nd))"
  by (simp add: demo_run_def on_nonces_def Let_def serve_connection_def handle_connection_def
      read_frame_def read_exact_def bindS_def admit_message_def split_def)

text \<open>The demo node receives a block from a peer, runs on, ends, its migrations are rolled back, and it is launched again.\<close>

theorem restart_keeps_chain_witness:
  "\<exists>db. let lib = peer_libs second_block;
            w = launches short_env lib demo_meta_codec [demo_launch\<lparr>la_command := Some (MigrateDown 1 True)\<rparr>] (demo_world db)
   in \<exists>cfg lib' nd. main_process short_env lib demo_meta_codec demo_launch w = (Serving cfg lib' nd, w)
        \<and> chain (nd_chain nd) = [demo_genesis 0, second_block]"
proof -
  let ?plain = "peer_libs second_block"
  let ?env = "short_env" and ?lib = "with_bypass Map.empty ?plain" and ?w = "demo_world (nd_db demo_start)"
  let ?nd1 = "node_step ?env ?lib demo_cfg block_arrives demo_start"
  let ?nd = "node_run ?env ?lib demo_cfg demo_run ?nd1" and ?cmds = "[demo_launch\<lparr>la_command := Some (MigrateDown 1 True)\<rparr>]"
  have c1: "chain (nd_chain ?nd1) = [demo_genesis 0, second_block]" by (rule second_block_arrives) (simp add: with_bypass_def)
  have bin: "total_codec (node_bin ?plain)" by (simp add: demo_block_codec_ok)
  have len: "length (chain (nd_chain demo_start)) < 2 ^ 63" by simp
  have w: "wd_db ?w = nd_db demo_start" by (simp add: demo_world_def)
  have first: "lifetime_step ?env ?plain demo_meta_codec (Running ?w demo_cfg ?lib demo_start) (Running (set_db (nd_db ?nd1) ?w) demo_cfg ?lib ?nd1)"
    by (rule serves_on) (simp_all only: c1, simp_all add: block_arrives_def)
  obtain db where rest: "(lifetime_step ?env ?plain demo_meta_codec)\<^sup>*\<^sup>* (Running (set_db (nd_db ?nd1) ?w) demo_cfg ?lib ?nd1)
      (Running (set_db db (set_db (nd_db ?nd1) ?w)) demo_cfg ?lib ?nd)"
    using quiet_run_lives [OF demo_run_quiet [of ?env ?lib demo_cfg], of ?nd1 ?plain demo_meta_codec] c1 by auto
  have "set_db db (set_db (nd_db ?nd1) ?w) = demo_world db" by (simp add: set_db_def demo_world_def)
  note life = converse_rtranclp_into_rtranclp [OF first rest, unfolded this]
  have cmds: "\<forall>la\<in>set ?cmds. la_command la \<noteq> None" by simp
  have none: "la_command demo_launch = None" by (simp add: demo_launch_def)
  have "prepare (demo_launch\<lparr>la_command := c\<rparr>) v = prepare demo_launch v" for c and v :: "demo_db world"
    by (simp add: prepare_def)
  moreover have "(demo_world db)\<lparr>wd_cli := wd_cli (demo_world db)\<rparr> = demo_world db" by simp
  ultimately obtain cfg where "prepare (hd ?cmds) (demo_world db) = (Some cfg, demo_world db)"
    using demo_prepare [where db = db and st = "wd_cli (demo_world db)"] by force
  then obtain st where "launches ?env ?plain demo_meta_codec ?cmds (demo_world db) = demo_world db\<lparr>wd_cli := st\<rparr>"
    by (simp add: launches_def main_process_def run_command_def Let_def split_def)
  with demo_prepare [where db = db and st = st] obtain cfg' where
    p: "prepare demo_launch (launches ?env ?plain demo_meta_codec ?cmds (demo_world db))
        = (Some cfg', launches ?env ?plain demo_meta_codec ?cmds (demo_world db))" by auto
  have "chain (nd_chain (node_run ?env ?lib demo_cfg ops nd)) = chain (nd_chain nd)" if "set ops \<subseteq> set demo_run" for ops nd
    using that demo_run_quiet [of ?env ?lib demo_cfg] by (induction ops arbitrary: nd) (auto simp: node_run_def)
  then have "chain (nd_chain ?nd) = [demo_genesis 0, second_block]" using c1 by simp
  with restart_keeps_chain [OF demo_node_ok(6) bin race_libs_sel(3) race_start_ready len w life cmds none p]
  show ?thesis unfolding Let_def by auto
qed

theorem launch_never_hangs_witness:
  "fst (main_process (demo_node [] [] []) demo_libs demo_meta_codec demo_launch (demo_world (demo_store demo_block_codec SCHEMA_VERSION))) \<noteq> Hangs"
proof -
  let ?db = "demo_store demo_block_codec SCHEMA_VERSION"
  obtain v where "enc demo_block_codec (demo_genesis 0) = Inr v" using total_codecD [OF demo_block_codec_ok] by blast
  note store = demo_store_ok [OF this, of SCHEMA_VERSION]
  then have "db_get demo_rocks ?db (checkpoint_key i) = Inr None" for i
    using rocks_get [OF demo_rocks_ok, of ?db] by simp
  then have "card {i. \<exists>v. db_get (node_rocks demo_libs) (wd_db (demo_world ?db)) (checkpoint_key i) = Inr (Some v)} < 2 ^ 62"
    by (simp add: demo_world_def)
  from launch_never_hangs [OF this] show ?thesis by blast
qed

theorem missing_directory_stops_witness:
  "main_process (demo_node [] [] []) demo_libs demo_meta_codec (demo_launch\<lparr>la_vars := Map.empty\<rparr>)
     (demo_world []\<lparr>wd_data_dir := False\<rparr>) = (Exit 1, demo_world []\<lparr>wd_data_dir := False\<rparr>)"
  by (rule missing_directory_stops) (simp_all add: demo_launch_def)

end
