(* ===== verification/Goud_Races.thy ===== *)
theory Goud_Races
  imports Goud_Main
begin

text \<open>
  What the steps that \<open>orderly\<close> leaves out do to the next start. The audit flush of \<open>storage/audit_log.rs\<close> releases
  the lock of the blockchain before it saves its block, so that another block can be saved first; and the
  synchronisation of \<open>network/p2p.rs\<close> takes a chain over without saving it. Both leave a database that does
  not follow the chain: in the first case the next start has lost blocks, in the second it fails. Both are shown for
  everything that may happen in between, by two more interpretations of \<open>node_invariant\<close>: \<open>overtaken\<close> and \<open>runs_ahead\<close>.
\<close>

section \<open>A block that is saved late\<close>

lemma checkpoint_free:
  "unat (b_index b) mod 100 \<noteq> 0 \<Longrightarrow> persist_block rdb bin b db = snd (save_block rdb bin b db)"
  by (simp add: persist_block_def CHECKPOINT_INTERVAL_def word_unat_eq_iff unat_mod)

text \<open>Block \<open>b\<close> is in the chain but not saved. Saving it makes \<open>bs\<close> durable, and still does after anything that is
  written elsewhere or under the number of a later block.\<close>

lemma late_elsewhere:
  assumes ok: "rocks_ok rdb healthy" "healthy db" "healthy db'" and bin: "total_codec bin"
    and d: "durable rdb healthy bin bs (snd (save_block rdb bin b db))"
    and same: "\<And>k. store_key k \<Longrightarrow> k \<noteq> chain_length_key \<Longrightarrow> (\<forall>i. k = block_key i \<longrightarrow> unat i < length bs) \<Longrightarrow>
      contents rdb db' k = contents rdb db k"
  shows "durable rdb healthy bin bs (snd (save_block rdb bin b db'))"
proof -
  obtain v where v: "enc bin b = Inr v" using total_codecD [OF bin] by blast
  obtain db1 where s1: "save_block rdb bin b db = (Inr (), db1)" and m1: "contents rdb db1 = (contents rdb db)
      (block_key (b_index b) \<mapsto> v, chain_length_key \<mapsto> u64_to_le_bytes (b_index b + 1))"
    by (rule save_block_ok [OF ok(1,2) v])
  obtain db2 where s2: "save_block rdb bin b db' = (Inr (), db2)" "healthy db2" and m2: "contents rdb db2 = (contents rdb db')
      (block_key (b_index b) \<mapsto> v, chain_length_key \<mapsto> u64_to_le_bytes (b_index b + 1))"
    by (rule save_block_ok [OF ok(1,3) v])
  from d have d1: "durable rdb healthy bin bs db1" by (simp add: s1)
  then have len: "length bs < 2 ^ 64" by (simp add: durable_def store_holds_def chain_held_def)
  have eq: "contents rdb db2 (checkpoint_key i) = contents rdb db1 (checkpoint_key i)"
    "contents rdb db2 schema_key = contents rdb db1 schema_key" "contents rdb db2 node_id_key = contents rdb db1 node_id_key"
    "contents rdb db2 chain_length_key = contents rdb db1 chain_length_key" for i
    by (simp_all add: m1 m2 same store_key_def)
  have "contents rdb db2 (block_key (of_nat i)) = contents rdb db1 (block_key (of_nat i))" if "i < length bs" for i
    using that len by (simp add: m1 m2 same store_key_def unat_of_nat_u64)
  with d1 s2(2) have "durable rdb healthy bin bs db2" by (simp add: durable_def store_holds_def chain_held_def eq)
  then show ?thesis by (simp add: s2)
qed

lemma flush_creates_cases:
  assumes "nd_unsaved (flush_creates env c seed nd) = nd_unsaved nd @ [b]"
  shows "chain (nd_chain (flush_creates env c seed nd)) = chain (nd_chain nd) @ [b]"
    and "chain (nd_chain nd) \<noteq> []" and "wire_links env (last (chain (nd_chain nd))) b"
    and "nd_db (flush_creates env c seed nd) = nd_db nd"
proof -
  let ?bc = "snd (add_collection c (nd_chain nd))"
  have bc: "chain ?bc = chain (nd_chain nd)" by (simp add: add_collection_def)
  from assms obtain bc' where add: "add_block env seed ?bc = (Inr b, bc')"
    and nd': "nd_chain (flush_creates env c seed nd) = bc'" "nd_db (flush_creates env c seed nd) = nd_db nd"
    by (auto simp: flush_creates_def flush_create_def Let_def
        split: sum.splits bool.splits option.splits prod.splits fail.splits)
  then have make: "make_block env seed ?bc = Inr b" and "chain bc' = chain (nd_chain nd) @ [b]"
    by (simp_all add: add_block_cases bc)
  with nd' show "chain (nd_chain (flush_creates env c seed nd)) = chain (nd_chain nd) @ [b]"
    "nd_db (flush_creates env c seed nd) = nd_db nd" by simp_all
  show "chain (nd_chain nd) \<noteq> []" using make by (rule make_block_cases) (simp add: bc)
  show "wire_links env (last (chain (nd_chain nd))) b" using make_block_wire_links [OF make] by (simp add: bc)
qed

lemma flush_saves_first:
  "nd_unsaved nd = b # rest \<Longrightarrow> nd_chain (flush_saves lib 0 nd) = nd_chain nd
    \<and> nd_db (flush_saves lib 0 nd) = snd (save_block (au_rocks lib) (au_block_bin lib) b (nd_db nd))
    \<and> nd_unsaved (flush_saves lib 0 nd) = rest"
  by (simp add: flush_saves_def flush_save_def)

lemma next_index:
  "wire_links env p b \<Longrightarrow> unat (b_index p) = n \<Longrightarrow> Suc n < 2 ^ 64 \<Longrightarrow> unat (b_index b) = Suc n"
  by (simp add: wire_links_def unat_word_ariths)

lemma last_index: "well_indexed bs \<Longrightarrow> bs \<noteq> [] \<Longrightarrow> unat (b_index (last bs)) = length bs - 1"
  by (simp add: well_indexed_def last_conv_nth)

text \<open>The state between the two halves of a flush that added \<open>b\<close> to the chain \<open>c\<close>.\<close>

definition overtaken ::
  "'db rocks \<Rightarrow> ('db \<Rightarrow> bool) \<Rightarrow> (block, bytes) codec \<Rightarrow> block list \<Rightarrow> block \<Rightarrow> blockchain \<Rightarrow> 'db \<Rightarrow> bool" where
  "overtaken rdb healthy bin c b bc db \<longleftrightarrow>
     total_codec bin \<and> (\<exists>cs. chain bc = c @ b # cs)
     \<and> (length (chain bc) < 2 ^ 63 \<and> (length (chain bc) - 1) div 100 = length c div 100 \<longrightarrow>
          well_indexed (chain bc) \<and> rocks_ok rdb healthy \<and> healthy db
          \<and> durable rdb healthy bin (c @ [b]) (snd (save_block rdb bin b db)))"

lemma overtaken_append:
  assumes o: "overtaken rdb healthy bin c b bc db" and links: "wire_links env (last (chain bc)) b'"
    and chain': "chain bc' = chain bc @ [b']"
  shows "overtaken rdb healthy bin c b bc' (snd (save_block rdb bin b' db))
    \<and> overtaken rdb healthy bin c b bc' (persist_block rdb bin b' db)"
proof -
  let ?n = "length (chain bc)" and ?db = "snd (save_block rdb bin b' db)"
  from o have bin: "total_codec bin" and n: "length c < ?n" and ne: "chain bc \<noteq> []"
    and more: "\<exists>cs. chain bc @ [b'] = c @ b # cs" by (auto simp: overtaken_def)
  have "well_indexed (chain bc @ [b']) \<and> rocks_ok rdb healthy \<and> healthy ?db
      \<and> durable rdb healthy bin (c @ [b]) (snd (save_block rdb bin b ?db)) \<and> persist_block rdb bin b' db = ?db"
    if len: "Suc ?n < 2 ^ 63" and page: "?n div 100 = length c div 100"
  proof -
    have "(?n - 1) div 100 = length c div 100"
      using page n div_le_mono [of "length c" "?n - 1" 100] div_le_mono [of "?n - 1" ?n 100] by simp
    with len o have wi: "well_indexed (chain bc)" and ok: "rocks_ok rdb healthy" "healthy db"
      and d: "durable rdb healthy bin (c @ [b]) (snd (save_block rdb bin b db))" by (auto simp: overtaken_def)
    have i: "unat (b_index b') = ?n" using next_index [OF links last_index [OF wi ne]] len ne by simp
    obtain v where "enc bin b' = Inr v" using total_codecD [OF bin] by blast
    then obtain db1 where s: "?db = db1" "healthy db1" and m: "contents rdb db1 = (contents rdb db)
        (block_key (b_index b') \<mapsto> v, chain_length_key \<mapsto> u64_to_le_bytes (b_index b' + 1))"
      by (rule_tac save_block_ok [OF ok, of bin b' v]) auto
    have "durable rdb healthy bin (c @ [b]) (snd (save_block rdb bin b db1))"
      by (rule late_elsewhere [OF ok s(2) bin d]) (use n i in \<open>auto simp: m\<close>)
    moreover have "?n mod 100 \<noteq> 0"
    proof
      assume "?n mod 100 = 0"
      then have "?n = 100 * (length c div 100)" unfolding page [symmetric] by (metis add.right_neutral mult_div_mod_eq)
      with n show False by simp
    qed
    then have "persist_block rdb bin b' db = ?db" by (simp add: checkpoint_free i)
    moreover have "well_indexed (chain bc @ [b'])" using wi i by (auto simp: well_indexed_def nth_append less_Suc_eq)
    ultimately show ?thesis using ok s by simp
  qed
  with bin more show ?thesis by (auto simp: overtaken_def chain')
qed

interpretation late: node_invariant env rdb bin "overtaken rdb healthy bin c b"
  for env :: "'z node_env_scheme" and rdb :: "'db rocks" and bin healthy c b
proof unfold_locales
  fix bc :: blockchain and db :: 'db and k v seed b' bc'
  assume inv: "overtaken rdb healthy bin c b bc db"
  then show "chain bc' = chain bc \<Longrightarrow> overtaken rdb healthy bin c b bc' db" by (simp add: overtaken_def)
  have other: "overtaken rdb healthy bin c b bc db'"
    if "rocks_ok rdb healthy \<Longrightarrow> healthy db \<Longrightarrow> healthy db' \<and> (\<forall>k. store_key k \<longrightarrow> contents rdb db' k = contents rdb db k)" for db'
    using inv that late_elsewhere [of rdb healthy db db' bin "c @ [b]" b] by (auto simp: overtaken_def)
  assume k: "\<not> chain_key k"
  then have ne: "k' \<noteq> k" if "store_key k'" for k' using store_key_chain [OF that] by auto
  show "overtaken rdb healthy bin c b bc (snd (db_put rdb db k v))"
    by (rule other, rule rocks_put [of rdb healthy db k v]) (auto simp: ne)
  show "overtaken rdb healthy bin c b bc (snd (db_delete rdb db k))"
    by (rule other, rule rocks_delete [of rdb healthy db k]) (auto simp: ne)
next
  fix bc :: blockchain and db :: 'db and seed b' bc'
  assume inv: "overtaken rdb healthy bin c b bc db"
  show "wire_links env (last (chain bc)) b' \<Longrightarrow>
      overtaken rdb healthy bin c b (bc\<lparr>chain := chain bc @ [b']\<rparr>) (persist_block rdb bin b' db)"
    using overtaken_append [OF inv, of env b' "bc\<lparr>chain := chain bc @ [b']\<rparr>"] by simp
  assume "add_block env seed bc = (Inr b', bc')"
  then have "make_block env seed bc = Inr b'" "chain bc' = chain bc @ [b']" by (auto simp: add_block_cases)
  with overtaken_append [OF inv make_block_wire_links] show
    "overtaken rdb healthy bin c b bc' (snd (save_block rdb bin b' db))
     \<and> overtaken rdb healthy bin c b bc' (persist_block rdb bin b' db)" by blast
qed

lemma orderly_unsaved: "orderly x \<Longrightarrow> nd_unsaved (node_step env lib cfg x nd) = nd_unsaved nd"
  by (cases x) (simp_all add: serve_request_def set_p2p_def on_nonces_def flush_audit_def Let_def split_def)

text \<open>C35. Blocks can be lost although they were saved. A node in good order flushes its audit log; the new block \<open>b\<close> is
  in the chain, but the lock is released before \<open>b\<close> is saved. Meanwhile requests and peers may add further
  blocks \<open>cs\<close>, which are saved; then the flush goes on and saves \<open>b\<close>. The chain in memory is as it should be, but
  saving \<open>b\<close> has set the stored length back: the next launch that finds its configuration and database serves
  a chain that ends with \<open>b\<close>, and \<open>cs\<close> is gone. (The blocks are in one interval between checkpoints.)\<close>

theorem late_save_loses_blocks:
  assumes bin: "total_codec (node_bin lib)" and one: "one_database lib" and ready: "node_ready env lib healthy nd"
    and "nd_unsaved nd = []"
    and nd1: "nd1 = node_step env lib cfg (FlushCreates c seed) nd" and b: "nd_unsaved nd1 = [b]"
    and nd2: "nd2 = node_run env lib cfg ops nd1" and ops: "list_all orderly ops"
    and nd3: "nd3 = node_step env lib cfg (FlushSaves 0) nd2"
    and len: "length (chain (nd_chain nd2)) < 2 ^ 63"
      "(length (chain (nd_chain nd2)) - 1) div 100 = length (chain (nd_chain nd)) div 100"
    and w: "wd_db w = nd_db nd3" and "la_command la = None" and p: "prepare la w = (Some cfg', w')"
  shows "\<exists>cs. chain (nd_chain nd3) = chain (nd_chain nd1) @ cs \<and> chain (nd_chain nd1) = chain (nd_chain nd) @ [b]
    \<and> (\<exists>lib' nd'. main_process env lib mbin la w = (Serving cfg' lib' nd', w') \<and> chain (nd_chain nd') = chain (nd_chain nd1))"
proof -
  let ?c = "chain (nd_chain nd)" and ?inv = "overtaken (node_rocks lib) healthy (node_bin lib) (chain (nd_chain nd)) b"
  have rate: "rl_rocks (lb_rate (nl_api lib)) = node_rocks lib" using one by (simp add: one_database_def)
  have "nd_unsaved (flush_creates env c seed nd) = nd_unsaved nd @ [b]" using assms(4) b nd1 by simp
  note flushed = flush_creates_cases [OF this]
  then have c1: "chain (nd_chain nd1) = ?c @ [b]" "nd_db nd1 = nd_db nd" by (simp_all add: nd1)
  have wi: "well_indexed ?c" and d: "durable (node_rocks lib) healthy (node_bin lib) ?c (nd_db nd)"
    and links: "successively (wire_links env) ?c" using ready by (simp_all add: node_ready_def)
  have start: "well_indexed (?c @ [b]) \<and> durable (node_rocks lib) healthy (node_bin lib) (?c @ [b])
      (snd (save_block (node_rocks lib) (node_bin lib) b (nd_db nd)))" if "Suc (length ?c) < 2 ^ 63"
  proof -
    have i: "unat (b_index b) = length ?c"
      using next_index [OF flushed(3) last_index [OF wi flushed(2)]] that flushed(2) by simp
    then show ?thesis using durable_save [OF d bin i] that wi by (auto simp: well_indexed_def nth_append less_Suc_eq)
  qed
  have "?inv (nd_chain nd1) (nd_db nd1)" using start bin durable_laws [OF d] by (simp add: overtaken_def c1)
  moreover have "?inv (nd_chain (node_run env lib cfg ops nd')) (nd_db (node_run env lib cfg ops nd'))"
    "nd_unsaved (node_run env lib cfg ops nd') = nd_unsaved nd'" if "?inv (nd_chain nd') (nd_db nd')" for nd'
    using ops that unfolding node_run_def
    by (induction ops arbitrary: nd') (simp_all add: late.node_step_held [OF refl refl rate] orderly_unsaved)
  ultimately have inv: "?inv (nd_chain nd2) (nd_db nd2)" and "nd_unsaved nd2 = [b]" by (simp_all add: nd2 b)
  from flush_saves_first [OF this(2)] have c3: "nd_chain nd3 = nd_chain nd2"
    "nd_db nd3 = snd (save_block (node_rocks lib) (node_bin lib) b (nd_db nd2))" by (simp_all add: nd3)
  from inv obtain cs where cs: "chain (nd_chain nd2) = (?c @ [b]) @ cs" by (auto simp: overtaken_def)
  then have "Suc (length ?c) < 2 ^ 63" using len(1) by simp
  moreover have "durable (node_rocks lib) healthy (node_bin lib) (?c @ [b]) (wd_db w)"
    using inv len by (simp add: overtaken_def w c3)
  moreover have "successively (wire_links env) (?c @ [b])" using links flushed(3) by (auto simp: successively_append_iff)
  ultimately have "chain_sound env lib healthy (?c @ [b]) (wd_db w)" using start by (simp add: chain_sound_def)
  from launch_sound [OF this assms(13) p, of mbin] cs show ?thesis by (auto simp: c3 c1)
qed

section \<open>A chain that is not saved\<close>

text \<open>The database of a node with a gap: block \<open>n\<close> is missing, the stored length is \<open>k\<close>, the rest is in order.\<close>

definition gap_at :: "'db rocks \<Rightarrow> ('db \<Rightarrow> bool) \<Rightarrow> nat \<Rightarrow> nat \<Rightarrow> 'db \<Rightarrow> bool" where
  "gap_at rdb healthy n k db \<longleftrightarrow>
     rocks_ok rdb healthy \<and> healthy db \<and> contents rdb db (block_key (of_nat n)) = None
     \<and> contents rdb db chain_length_key = Some (u64_to_le_bytes (of_nat k))
     \<and> contents rdb db schema_key = Some (as_bytes SCHEMA_VERSION)
     \<and> (\<exists>s. contents rdb db node_id_key = Some (as_bytes s) \<and> utf8_valid (as_bytes s))"

lemma gap_elsewhere:
  assumes "gap_at rdb healthy n k db" and "healthy db'" and "\<And>k. store_key k \<Longrightarrow> contents rdb db' k = contents rdb db k"
  shows "gap_at rdb healthy n k db'"
  using assms by (simp add: gap_at_def store_key_def)

interpretation gap: shared_db rdb "\<lambda>k. \<not> chain_key k" "gap_at rdb healthy n k"
  for rdb :: "'db rocks" and healthy n k
proof unfold_locales
  note other = gap_elsewhere [where rdb = rdb and healthy = healthy and n = n and k = k]
  fix key db v assume key: "\<not> chain_key key" and d: "gap_at rdb healthy n k db"
  then have ok: "rocks_ok rdb healthy" "healthy db" by (auto simp: gap_at_def)
  from key have ne: "k' \<noteq> key" if "store_key k'" for k' using store_key_chain [OF that] by auto
  show "gap_at rdb healthy n k (snd (db_put rdb db key v))"
    by (rule rocks_put [OF ok, of key v]) (auto intro!: other [OF d] simp: ne)
  show "gap_at rdb healthy n k (snd (db_delete rdb db key))"
    by (rule rocks_delete [OF ok, of key]) (auto intro!: other [OF d] simp: ne)
qed

lemma gap_save:
  assumes g: "gap_at rdb healthy n k db" and bin: "total_codec bin" and i: "unat (b_index b) = m" "n < m"
  shows "gap_at rdb healthy n (Suc m) (snd (save_block rdb bin b db))"
    and "gap_at rdb healthy n (Suc m) (persist_block rdb bin b db)"
proof -
  let ?db = "snd (save_block rdb bin b db)"
  from g have ok: "rocks_ok rdb healthy" "healthy db" by (auto simp: gap_at_def)
  obtain v where v: "enc bin b = Inr v" using total_codecD [OF bin] by blast
  have idx: "b_index b = of_nat m" using i(1) by auto
  have "b_index b \<noteq> of_nat n"
  proof
    assume "b_index b = of_nat n"
    then have "unat (b_index b) \<le> n" by (simp add: unat_of_nat)
    with i show False by simp
  qed
  then show saved: "gap_at rdb healthy n (Suc m) ?db"
    by (rule_tac save_block_ok [OF ok v]) (use g in \<open>auto simp: gap_at_def idx add.commute\<close>)
  then have ok': "rocks_ok rdb healthy" "healthy ?db" by (auto simp: gap_at_def)
  have "gap_at rdb healthy n (Suc m) (snd (db_put rdb ?db (checkpoint_key (b_index b)) (as_bytes (b_hash b))))"
    by (rule rocks_put [OF ok', of "checkpoint_key (b_index b)" "as_bytes (b_hash b)"]) (use saved in \<open>simp add: gap_at_def\<close>)
  with saved show "gap_at rdb healthy n (Suc m) (persist_block rdb bin b db)"
    by (simp add: persist_block_def save_checkpoint_def db_call_def Let_def split_def)
qed

text \<open>A start on such a database fails as soon as the stored length is beyond the gap.\<close>

lemma load_block_fails: "load_block rdb bin db i = Inl e \<Longrightarrow> \<exists>e'. e = Fail e'"
  by (auto simp: load_block_def map_err_def split: sum.splits option.splits)

lemma traverse_fails:
  "x \<in> set xs \<Longrightarrow> f x = Inl e \<Longrightarrow> \<exists>y e'. traverse f xs = Inl e' \<and> f y = Inl e'"
proof (induction xs)
  case (Cons a xs)
  then show ?case by (cases "f a"; cases "traverse f xs") auto
qed simp

lemma gap_load_fails:
  assumes g: "gap_at rdb healthy n k db" and "n < k" and k: "k < 2 ^ 64"
  shows "\<exists>e. load_blockchain env rdb bin new_key nid cfg db = Some (Inl (Fail e), db)"
proof -
  from g have ok: "rocks_ok rdb healthy" "healthy db" by (auto simp: gap_at_def)
  note get = rocks_get [OF ok]
  let ?load = "\<lambda>i. load_block rdb bin db (of_nat i)"
  have "?load n = Err (LoadFailed (''Missing block at index '' @ show_u64 (of_nat n)))"
    using g by (simp add: load_block_def get gap_at_def)
  from traverse_fails [where f = ?load, OF _ this, of "[0..<k]"] assms(2) obtain e where "traverse ?load [0..<k] = Inl (Fail e)"
    using load_block_fails by fastforce
  then have "load_chain rdb bin db = Inl (Fail e)"
    using g k by (simp add: load_chain_def get gap_at_def read_chain_length_def unat_of_nat_u64)
  moreover obtain nid' where "contents rdb db node_id_key = Some (as_bytes nid')" "utf8_valid (as_bytes nid')"
    using g by (auto simp: gap_at_def)
  then have "load_metadata rdb db = Inr (nid', SCHEMA_VERSION)"
    using g by (simp add: load_metadata_def load_text_def get gap_at_def schema_text from_utf8_as_bytes)
  moreover have "store_is_empty rdb db = Inr False" using g by (simp add: store_is_empty_def get gap_at_def)
  ultimately show ?thesis by (simp add: load_blockchain_def)
qed

interpretation migrating_gap: migration_host rdb "gap_at rdb healthy n k"
  for rdb :: "'db rocks" and healthy n k
proof unfold_locales
  fix ops and db :: 'db assume keys: "\<forall>x\<in>set ops. migration_key (op_key x)" and g: "gap_at rdb healthy n k db"
  then have ok: "rocks_ok rdb healthy" "healthy db" by (auto simp: gap_at_def)
  have "apply_batch ops m k = m k" if "store_key k" for m k
    using that keys migration_key_foreign by (intro apply_batch_elsewhere) auto
  moreover obtain db' where "db_write rdb db ops = (Inr (), db')" "healthy db'"
    "contents rdb db' = apply_batch ops (contents rdb db)" by (rule rocks_write [OF ok])
  ultimately show "gap_at rdb healthy n k (snd (db_write rdb db ops))" by (auto intro: gap_elsewhere [OF g])
qed

text \<open>No launch mends the gap, and one that is to serve ends with code 1.\<close>

lemma gap_serve_fails:
  assumes g: "gap_at (node_rocks lib) healthy n k (wd_db w)" "n < k" "k < 2 ^ 64"
    and "la_command la = None" and p: "prepare la w = (Some cfg, w')"
  shows "main_process env lib mbin la w = (Exit 1, w')"
proof -
  have "gap_at (node_rocks lib) healthy n k (wd_db w')" using g(1) by (simp add: prepare_db [OF p])
  from gap_load_fails [OF this g(2,3)] obtain e where "load_blockchain env (node_rocks lib) (node_bin lib) (la_signing_key la)
      (cfg_node_id cfg) (cfg_validator_config cfg) (wd_db w') = Some (Inl (Fail e), wd_db w')" by blast
  moreover have "set_db (wd_db w') w' = w'" by (simp add: set_db_def)
  ultimately show ?thesis using assms(4) p by (simp add: main_process_def serve_def)
qed

lemma gap_launches:
  assumes "gap_at (node_rocks lib) healthy n k (wd_db w)" "n < k" "k < 2 ^ 64"
  shows "gap_at (node_rocks lib) healthy n k (wd_db (launches env lib mbin las w))"
  using assms(1) unfolding launches_def
proof (induction las arbitrary: w)
  case (Cons la las)
  have "gap_at (node_rocks lib) healthy n k (wd_db (snd (main_process env lib mbin la w)))"
  proof (cases "la_command la")
    case None
    obtain r w' where p: "prepare la w = (r, w')" by (cases "prepare la w")
    show ?thesis
    proof (cases r)
      case (Some cfg)
      with p have "prepare la w = (Some cfg, w')" by simp
      from gap_serve_fails [OF Cons.prems assms(2,3) \<open>la_command la = None\<close> this]
      have "main_process env lib mbin la w = (Exit 1, w')" .
      with Cons.prems show ?thesis by (simp add: prepare_db [OF p])
    qed (use p Cons.prems in \<open>simp add: launch_unprepared \<open>la_command la = None\<close> prepare_db [OF p]\<close>)
  qed (use migrating_gap.command_launch_keeps [OF refl _ Cons.prems, where env = env and mbin = mbin] in blast)
  with Cons.IH show ?case by simp
qed simp

text \<open>A node that took over the chain \<open>c\<close> while its database held \<open>n\<close> blocks, fewer than \<open>c\<close> has.\<close>

definition runs_ahead ::
  "'db rocks \<Rightarrow> ('db \<Rightarrow> bool) \<Rightarrow> (block, bytes) codec \<Rightarrow> nat \<Rightarrow> block list \<Rightarrow> blockchain \<Rightarrow> 'db \<Rightarrow> bool" where
  "runs_ahead rdb healthy bin n c bc db \<longleftrightarrow>
     total_codec bin \<and> n < length c \<and> (\<exists>bs. chain bc = c @ bs)
     \<and> (length (chain bc) < 2 ^ 63 \<longrightarrow>
          well_indexed (chain bc) \<and> gap_at rdb healthy n (if chain bc = c then n else length (chain bc)) db)"

lemma runs_ahead_append:
  assumes r: "runs_ahead rdb healthy bin n c bc db" and links: "wire_links env (last (chain bc)) b"
    and chain': "chain bc' = chain bc @ [b]"
  shows "runs_ahead rdb healthy bin n c bc' (snd (save_block rdb bin b db))
    \<and> runs_ahead rdb healthy bin n c bc' (persist_block rdb bin b db)"
proof -
  from r have bin: "total_codec bin" and n: "n < length (chain bc)" and ne: "chain bc \<noteq> []"
    and more: "chain bc @ [b] \<noteq> c" "\<exists>bs. chain bc @ [b] = c @ bs" "n < length c" by (auto simp: runs_ahead_def)
  have "well_indexed (chain bc @ [b]) \<and> gap_at rdb healthy n (Suc (length (chain bc))) (snd (save_block rdb bin b db))
      \<and> gap_at rdb healthy n (Suc (length (chain bc))) (persist_block rdb bin b db)" if "length (chain bc @ [b]) < 2 ^ 63"
  proof -
    from that r obtain k where wi: "well_indexed (chain bc)" and g: "gap_at rdb healthy n k db"
      by (auto simp: runs_ahead_def)
    have i: "unat (b_index b) = length (chain bc)"
      using next_index [OF links last_index [OF wi ne]] that ne by simp
    then show ?thesis using gap_save [OF g bin i n] wi by (auto simp: well_indexed_def nth_append less_Suc_eq)
  qed
  with bin more show ?thesis by (simp add: runs_ahead_def chain')
qed

interpretation ahead: node_invariant env rdb bin "runs_ahead rdb healthy bin n c"
  for env :: "'z node_env_scheme" and rdb :: "'db rocks" and bin healthy n c
proof unfold_locales
  fix bc :: blockchain and db :: 'db and k v seed b bc'
  assume inv: "runs_ahead rdb healthy bin n c bc db"
  then show "chain bc' = chain bc \<Longrightarrow> runs_ahead rdb healthy bin n c bc' db" by (auto simp: runs_ahead_def)
  show "\<not> chain_key k \<Longrightarrow> runs_ahead rdb healthy bin n c bc (snd (db_put rdb db k v))"
    "\<not> chain_key k \<Longrightarrow> runs_ahead rdb healthy bin n c bc (snd (db_delete rdb db k))"
    using inv gap.put_keeps gap.delete_keeps by (auto simp: runs_ahead_def)
  show "wire_links env (last (chain bc)) b \<Longrightarrow>
      runs_ahead rdb healthy bin n c (bc\<lparr>chain := chain bc @ [b]\<rparr>) (persist_block rdb bin b db)"
    using runs_ahead_append [OF inv, of env b "bc\<lparr>chain := chain bc @ [b]\<rparr>"] by simp
  assume "add_block env seed bc = (Inr b, bc')"
  then have "make_block env seed bc = Inr b" "chain bc' = chain bc @ [b]" by (auto simp: add_block_cases)
  with runs_ahead_append [OF inv make_block_wire_links] show
    "runs_ahead rdb healthy bin n c bc' (snd (save_block rdb bin b db))
     \<and> runs_ahead rdb healthy bin n c bc' (persist_block rdb bin b db)" by blast
qed

text \<open>C36. After a synchronisation the node cannot be started again. A node in good order whose database holds nothing
  beyond its chain takes over a longer chain, numbered by position, from a peer; this chain is not saved. Any
  \<open>orderly\<close> steps follow (no further synchronisation, and no interrupted flush). As soon as they have added one block,
  created or received, its number is saved as the length of the chain although the blocks before it are missing. From
  then on, whatever launches happen, with or without migration commands, every launch that is to serve and finds
  its configuration and database ends with code 1, because the chain does not load.\<close>

theorem sync_breaks_restart:
  assumes "total_codec (node_bin lib)" and one: "one_database lib" and ready: "node_ready env lib healthy nd"
    and n: "n = length (chain (nd_chain nd))" and "contents (node_rocks lib) (nd_db nd) (block_key (of_nat n)) = None"
    and nd1: "nd1 = node_step env lib cfg (SyncReply clk peer (Inr (ResponseChain cs))) nd" and "chain (nd_chain nd1) = cs"
    and "well_indexed cs" and "n < length cs"
    and nd2: "nd2 = node_run env lib cfg ops nd1" and ops: "list_all orderly ops"
    and len: "length cs < length (chain (nd_chain nd2))" "length (chain (nd_chain nd2)) < 2 ^ 63"
    and w: "wd_db w = nd_db nd2" and "la_command la = None" and p: "prepare la (launches env lib mbin las w) = (Some cfg', w')"
  shows "main_process env lib mbin la (launches env lib mbin las w) = (Exit 1, w')"
proof -
  let ?inv = "runs_ahead (node_rocks lib) healthy (node_bin lib) n cs"
  have rate: "rl_rocks (lb_rate (nl_api lib)) = node_rocks lib" using one by (simp add: one_database_def)
  have d: "durable (node_rocks lib) healthy (node_bin lib) (chain (nd_chain nd)) (nd_db nd)"
    using ready by (simp add: node_ready_def)
  have "nd_db nd1 = nd_db nd"
    by (simp add: nd1 sync_chain_def Let_def split: sum.splits bool.splits prod.splits p2p_message.splits)
  moreover have "gap_at (node_rocks lib) healthy n n (nd_db nd)"
    using d assms(5) by (simp add: durable_def store_holds_def store_laws_def chain_held_def gap_at_def n)
  ultimately have "?inv (nd_chain nd1) (nd_db nd1)" using assms(1,7-9) by (simp add: runs_ahead_def)
  moreover have "?inv (nd_chain (node_run env lib cfg ops nd')) (nd_db (node_run env lib cfg ops nd'))"
    if "?inv (nd_chain nd') (nd_db nd')" for nd'
    using ops that unfolding node_run_def
    by (induction ops arbitrary: nd') (simp_all add: ahead.node_step_held [OF refl refl rate])
  ultimately have "?inv (nd_chain nd2) (nd_db nd2)" by (simp add: nd2)
  then have gap: "gap_at (node_rocks lib) healthy n (length (chain (nd_chain nd2))) (wd_db w)"
    using len by (auto simp: runs_ahead_def w split: if_splits)
  have "n < length (chain (nd_chain nd2))" "length (chain (nd_chain nd2)) < 2 ^ 64" using assms(9) len by simp_all
  from gap_serve_fails [OF gap_launches [OF gap this] this assms(15) p] show ?thesis .
qed

section \<open>A concrete node\<close>

theorem late_save_loses_blocks_witness:
  "let nd = node_run short_env race_libs demo_cfg [FlushCreates (demo_col ''o'') (demo_seed 172800 0), block_arrives, FlushSaves 0] demo_start
   in chain (nd_chain nd) = [demo_genesis 0, second_block, third_block]
      \<and> (\<exists>cfg lib nd' w. main_process short_env race_libs demo_meta_codec demo_launch (demo_world (nd_db nd)) = (Serving cfg lib nd', w)
           \<and> chain (nd_chain nd') = [demo_genesis 0, second_block])"
proof -
  let ?nd1 = "node_step short_env race_libs demo_cfg (FlushCreates (demo_col ''o'') (demo_seed 172800 0)) demo_start"
  let ?nd2 = "node_run short_env race_libs demo_cfg [block_arrives] ?nd1"
  let ?nd3 = "node_step short_env race_libs demo_cfg (FlushSaves 0) ?nd2"
  have b: "nd_unsaved ?nd1 = [second_block]" and c1: "chain (nd_chain ?nd1) = [demo_genesis 0, second_block]"
    by (simp_all add: demo_flush_creates)
  have c2: "chain (nd_chain ?nd2) = [demo_genesis 0, second_block, third_block]"
    using third_block_arrives [where nd = ?nd1 and cfg = demo_cfg] by (simp add: node_run_def demo_flush_creates)
  have bin: "total_codec (node_bin race_libs)" by (simp add: demo_block_codec_ok)
  obtain cfg w where p: "prepare demo_launch (demo_world (nd_db ?nd3)) = (Some cfg, w)"
    using demo_prepare [where db = "nd_db ?nd3" and st = "wd_cli (demo_world (nd_db ?nd3))"] by auto
  have side: "la_command demo_launch = None" "wd_db (demo_world (nd_db ?nd3)) = nd_db ?nd3" "list_all orderly [block_arrives]"
    by (simp_all add: demo_launch_def demo_world_def block_arrives_def)
  have len: "length (chain (nd_chain ?nd2)) < 2 ^ 63"
    "(length (chain (nd_chain ?nd2)) - 1) div 100 = length (chain (nd_chain demo_start)) div 100"
    unfolding c2 by simp_all
  from late_save_loses_blocks [OF bin race_libs_sel(3) race_start_ready [of short_env] demo_start_sel(4) refl b refl side(3) refl len
      side(2,1) p, of demo_meta_codec]
  have "\<exists>lib nd'. main_process short_env race_libs demo_meta_codec demo_launch (demo_world (nd_db ?nd3)) = (Serving cfg lib nd', w)
      \<and> chain (nd_chain nd') = [demo_genesis 0, second_block]" unfolding c1 by blast
  moreover have "chain (nd_chain ?nd3) = [demo_genesis 0, second_block, third_block]"
    using c2 by (simp add: flush_saves_def flush_save_def Let_def)
  ultimately show ?thesis by (auto simp: node_run_def Let_def simp del: node_step.simps)
qed

theorem sync_breaks_restart_witness:
  "let nd = node_run short_env race_libs demo_cfg [second_synced, block_arrives] demo_start; w = demo_world (nd_db nd)
   in \<exists>w'. main_process short_env race_libs demo_meta_codec demo_launch (launches short_env race_libs demo_meta_codec [demo_launch] w) = (Exit 1, w')"
proof -
  let ?nd1 = "node_step short_env race_libs demo_cfg second_synced demo_start"
  let ?nd2 = "node_run short_env race_libs demo_cfg [block_arrives] ?nd1"
  have nd2: "?nd2 = node_run short_env race_libs demo_cfg [second_synced, block_arrives] demo_start" by (simp add: node_run_def)
  let ?w = "demo_world (nd_db ?nd2)"
  have n: "length (chain (nd_chain demo_start)) = 1" by simp
  have none: "contents (node_rocks race_libs) (nd_db demo_start) (block_key (of_nat (length (chain (nd_chain demo_start))))) = None"
    by (simp add: demo_store_def)
  have side: "total_codec (node_bin race_libs)" "well_indexed [demo_genesis 0, second_block]"
    "length (chain (nd_chain demo_start)) < length [demo_genesis 0, second_block]" "list_all orderly [block_arrives]"
    by (auto simp: demo_block_codec_ok well_indexed_def less_Suc_eq block_arrives_def)
  have len: "length [demo_genesis 0, second_block] < length (chain (nd_chain ?nd2))" "length (chain (nd_chain ?nd2)) < 2 ^ 63"
    unfolding nd2 demo_sync_chain by simp_all
  have world: "wd_db ?w = nd_db ?nd2" "la_command demo_launch = None" by (simp_all add: demo_world_def demo_launch_def)
  note broken = sync_breaks_restart [where env = short_env and mbin = demo_meta_codec and la = demo_launch,
      OF side(1) race_libs_sel(3) race_start_ready refl none refl demo_sync(1) side(2,3) refl side(4) len world]
  obtain cfg where p: "prepare demo_launch ?w = (Some cfg, ?w)"
    using demo_prepare [where db = "nd_db ?nd2" and st = "wd_cli ?w"] by auto
  from broken [of "[]"] p have first: "main_process short_env race_libs demo_meta_codec demo_launch ?w = (Exit 1, ?w)"
    by (simp add: launches_def)
  then have "launches short_env race_libs demo_meta_codec [demo_launch] ?w = ?w" by (simp add: launches_def)
  with broken [of "[demo_launch]"] p show ?thesis unfolding nd2 [symmetric] Let_def by auto
qed

end
