(* ===== verification/Goud_Key_Cache.thy ===== *)
theory Goud_Key_Cache
  imports Goud_Crypto Goud_Demo
begin

text \<open>
  The global key cache (\<open>src/crypto/key_cache.rs\<close>): derived encryption and MAC keys, kept for five
  minutes in an LRU cache under the digest of API key and salt, with hit, miss and eviction counts.
  The locale \<open>key_service\<close> is the contract its clients rely on; the interpretation \<open>kc\<close> proves
  it for the cache. The clients (collections, envelopes, accounts) are modelled on the derived keys
  that the contract says they get.
\<close>

section \<open>State and operations\<close>

record cached_keys =
  ck_encryption_key :: bytes
  ck_mac_key :: bytes

text \<open>\<open>Instant\<close> values are nanoseconds.\<close>

record cached_keys_with_ttl =
  ck_keys :: cached_keys
  ck_inserted_at :: int

record cache_stats =
  st_size :: nat
  st_hits :: u64
  st_misses :: u64
  st_evictions :: u64

record 'c key_cache =
  kc_cache :: 'c
  kc_stats :: cache_stats

definition CACHE_MAX_ENTRIES :: nat where "CACHE_MAX_ENTRIES = 1000"
definition CACHE_TTL_SECONDS :: int where "CACHE_TTL_SECONDS = 300"

definition default_stats :: cache_stats where
  "default_stats = \<lparr>st_size = 0, st_hits = 0, st_misses = 0, st_evictions = 0\<rparr>"

definition key_cache_new :: "('c, cached_keys_with_ttl) lru \<Rightarrow> 'c key_cache" where
  "key_cache_new l = \<lparr>kc_cache = lru_new l CACHE_MAX_ENTRIES, kc_stats = default_stats\<rparr>"

definition make_cache_key :: "'z crypto_env_scheme \<Rightarrow> bytes \<Rightarrow> bytes \<Rightarrow> string" where
  "make_cache_key env api_key salt = digest_lower_hex env (sha256 env (api_key @ salt))"

text \<open>\<open>Instant::duration_since\<close> saturates at zero.\<close>

definition entry_fresh :: "int \<Rightarrow> cached_keys_with_ttl \<Rightarrow> bool" where
  "entry_fresh now e \<longleftrightarrow> max 0 (now - ck_inserted_at e) < CACHE_TTL_SECONDS * 1000000000"

definition bump_hits :: "'c key_cache \<Rightarrow> 'c key_cache" where
  "bump_hits kc = kc\<lparr>kc_stats := (kc_stats kc)\<lparr>st_hits := st_hits (kc_stats kc) + 1\<rparr>\<rparr>"

definition bump_misses :: "'c key_cache \<Rightarrow> 'c key_cache" where
  "bump_misses kc = kc\<lparr>kc_stats := (kc_stats kc)\<lparr>st_misses := st_misses (kc_stats kc) + 1\<rparr>\<rparr>"

definition bump_evictions :: "'c key_cache \<Rightarrow> 'c key_cache" where
  "bump_evictions kc =
     kc\<lparr>kc_stats := (kc_stats kc)\<lparr>st_evictions := st_evictions (kc_stats kc) + 1\<rparr>\<rparr>"

text \<open>The lookup that both getters make: the entry when it is present and fresh, and the cache
  afterwards, with an expired entry removed and counted.\<close>

definition cache_lookup ::
  "('c, cached_keys_with_ttl) lru \<Rightarrow> int \<Rightarrow> string \<Rightarrow> 'c key_cache
     \<Rightarrow> cached_keys option \<times> 'c key_cache" where
  "cache_lookup l now cache_key kc =
     (case lru_get l (kc_cache kc) cache_key of
        (Some e, c') \<Rightarrow>
          if entry_fresh now e then (Some (ck_keys e), bump_hits (kc\<lparr>kc_cache := c'\<rparr>))
          else (None, bump_evictions (kc\<lparr>kc_cache := lru_pop l c' cache_key\<rparr>))
      | (None, c') \<Rightarrow> (None, kc\<lparr>kc_cache := c'\<rparr>))"

text \<open>The miss path that both getters share: derive both keys, push the entry, count an eviction.\<close>

definition cache_fill ::
  "'z crypto_env_scheme \<Rightarrow> ('c, cached_keys_with_ttl) lru \<Rightarrow> int \<Rightarrow> bytes \<Rightarrow> bytes \<Rightarrow> string
     \<Rightarrow> 'c key_cache \<Rightarrow> cached_keys \<times> 'c key_cache" where
  "cache_fill env l now api_key salt cache_key kc =
     (let kc = bump_misses kc;
          keys = \<lparr>ck_encryption_key = derive_encryption_key env api_key salt,
                  ck_mac_key = derive_mac_key env api_key salt\<rparr>;
          (evicted, c') = lru_push l (kc_cache kc) cache_key
                            \<lparr>ck_keys = keys, ck_inserted_at = now\<rparr>;
          kc = kc\<lparr>kc_cache := c'\<rparr>
      in (keys, if evicted \<noteq> None then bump_evictions kc else kc))"

definition get_encryption_key ::
  "'z crypto_env_scheme \<Rightarrow> ('c, cached_keys_with_ttl) lru \<Rightarrow> int \<Rightarrow> bytes \<Rightarrow> bytes
     \<Rightarrow> 'c key_cache \<Rightarrow> bytes \<times> 'c key_cache" where
  "get_encryption_key env l now api_key salt kc =
     (let cache_key = make_cache_key env api_key salt
      in case cache_lookup l now cache_key kc of
           (Some keys, kc) \<Rightarrow> (ck_encryption_key keys, kc)
         | (None, kc) \<Rightarrow>
             (let (keys, kc) = cache_fill env l now api_key salt cache_key kc
              in (ck_encryption_key keys, kc)))"

definition get_mac_key ::
  "'z crypto_env_scheme \<Rightarrow> ('c, cached_keys_with_ttl) lru \<Rightarrow> int \<Rightarrow> bytes \<Rightarrow> bytes
     \<Rightarrow> 'c key_cache \<Rightarrow> bytes \<times> 'c key_cache" where
  "get_mac_key env l now api_key salt kc =
     (let cache_key = make_cache_key env api_key salt
      in case cache_lookup l now cache_key kc of
           (Some keys, kc) \<Rightarrow> (ck_mac_key keys, kc)
         | (None, kc) \<Rightarrow>
             (let (keys, kc) = cache_fill env l now api_key salt cache_key kc
              in (ck_mac_key keys, kc)))"

definition clear_cache :: "('c, cached_keys_with_ttl) lru \<Rightarrow> 'c key_cache \<Rightarrow> 'c key_cache" where
  "clear_cache l kc = kc\<lparr>kc_cache := lru_clear l (kc_cache kc), kc_stats := default_stats\<rparr>"

definition cache_stats_of :: "('c, cached_keys_with_ttl) lru \<Rightarrow> 'c key_cache \<Rightarrow> cache_stats" where
  "cache_stats_of l kc = (kc_stats kc)\<lparr>st_size := lru_len l (kc_cache kc)\<rparr>"

text \<open>The hit rate as an exact fraction, numerator and denominator.\<close>

definition hit_rate :: "cache_stats \<Rightarrow> u64 \<times> u64" where
  "hit_rate st =
     (let total = st_hits st + st_misses st
      in if total = 0 then (0, 1) else (st_hits st, total))"

text \<open>The text for Prometheus; \<open>show_rate\<close> prints the quotient with four decimals.\<close>

definition metric :: "string \<Rightarrow> string \<Rightarrow> string \<Rightarrow> string \<Rightarrow> string" where
  "metric name help kind value =
     ''# HELP '' @ name @ '' '' @ help @ [CHR 0x0A] @ ''# TYPE '' @ name @ '' '' @ kind @ [CHR 0x0A]
     @ name @ '' '' @ value @ [CHR 0x0A]"

definition prometheus_metrics ::
  "(u64 \<times> u64 \<Rightarrow> string) \<Rightarrow> ('c, cached_keys_with_ttl) lru \<Rightarrow> 'c key_cache \<Rightarrow> string" where
  "prometheus_metrics show_rate l kc =
     (let st = cache_stats_of l kc
      in metric ''key_cache_hits_total'' ''Total number of cache hits'' ''counter'' (show_u64 (st_hits st))
       @ metric ''key_cache_misses_total'' ''Total number of cache misses'' ''counter'' (show_u64 (st_misses st))
       @ metric ''key_cache_hit_rate'' ''Cache hit rate (0.0 to 1.0)'' ''gauge'' (show_rate (hit_rate st))
       @ metric ''key_cache_size'' ''Current number of entries in cache'' ''gauge'' (show_nat (st_size st))
       @ metric ''key_cache_evictions_total'' ''Total number of cache evictions (TTL + LRU)'' ''counter''
           (show_u64 (st_evictions st)))"

section \<open>The contract of a key service\<close>

text \<open>A key service answers requests from a set of pairs of API key and salt. Whatever it was
  asked before, it returns the keys that the specification derives.\<close>

datatype key_request = EncReq int bytes bytes | MacReq int bytes bytes

fun serve :: "(int \<Rightarrow> bytes \<Rightarrow> bytes \<Rightarrow> 's \<Rightarrow> bytes \<times> 's)
    \<Rightarrow> (int \<Rightarrow> bytes \<Rightarrow> bytes \<Rightarrow> 's \<Rightarrow> bytes \<times> 's) \<Rightarrow> key_request list \<Rightarrow> 's \<Rightarrow> bytes list \<times> 's" where
  "serve ge gm [] s = ([], s)"
| "serve ge gm (EncReq t k salt # rs) s =
     (let (x, s) = ge t k salt s; (xs, s) = serve ge gm rs s in (x # xs, s))"
| "serve ge gm (MacReq t k salt # rs) s =
     (let (x, s) = gm t k salt s; (xs, s) = serve ge gm rs s in (x # xs, s))"

fun answer :: "(bytes \<Rightarrow> bytes \<Rightarrow> bytes) \<Rightarrow> (bytes \<Rightarrow> bytes \<Rightarrow> bytes) \<Rightarrow> key_request \<Rightarrow> bytes" where
  "answer es ms (EncReq t k salt) = es k salt"
| "answer es ms (MacReq t k salt) = ms k salt"

fun request_pair :: "key_request \<Rightarrow> bytes \<times> bytes" where
  "request_pair (EncReq t k salt) = (k, salt)"
| "request_pair (MacReq t k salt) = (k, salt)"

locale key_service =
  fixes get_enc :: "int \<Rightarrow> bytes \<Rightarrow> bytes \<Rightarrow> 's \<Rightarrow> bytes \<times> 's"
    and get_mac :: "int \<Rightarrow> bytes \<Rightarrow> bytes \<Rightarrow> 's \<Rightarrow> bytes \<times> 's"
    and pair_ok :: "bytes \<Rightarrow> bytes \<Rightarrow> bool"
    and inv :: "'s \<Rightarrow> bool"
    and enc_spec :: "bytes \<Rightarrow> bytes \<Rightarrow> bytes"
    and mac_spec :: "bytes \<Rightarrow> bytes \<Rightarrow> bytes"
  assumes enc_result: "inv s \<Longrightarrow> pair_ok k salt \<Longrightarrow> fst (get_enc now k salt s) = enc_spec k salt"
    and enc_inv: "inv s \<Longrightarrow> pair_ok k salt \<Longrightarrow> inv (snd (get_enc now k salt s))"
    and mac_result: "inv s \<Longrightarrow> pair_ok k salt \<Longrightarrow> fst (get_mac now k salt s) = mac_spec k salt"
    and mac_inv: "inv s \<Longrightarrow> pair_ok k salt \<Longrightarrow> inv (snd (get_mac now k salt s))"
begin

lemma serve_answers:
  "inv s \<Longrightarrow> \<forall>r\<in>set rs. case request_pair r of (k, salt) \<Rightarrow> pair_ok k salt \<Longrightarrow>
   fst (serve get_enc get_mac rs s) = map (answer enc_spec mac_spec) rs"
proof (induction rs arbitrary: s)
  case (Cons r rs)
  show ?case
  proof (cases r)
    case (EncReq t k salt)
    with Cons.prems enc_result [of s k salt t] enc_inv [of s k salt t] Cons.IH show ?thesis
      by (simp add: Let_def case_prod_beta)
  next
    case (MacReq t k salt)
    with Cons.prems mac_result [of s k salt t] mac_inv [of s k salt t] Cons.IH show ?thesis
      by (simp add: Let_def case_prod_beta)
  qed
qed simp

end

section \<open>The cache fulfils the contract\<close>

text \<open>Every entry holds the keys of a pair from \<open>P\<close> whose digest is the entry's key.\<close>

definition cache_inv ::
  "'z crypto_env_scheme \<Rightarrow> ('c, cached_keys_with_ttl) lru \<Rightarrow> (bytes \<times> bytes) set
     \<Rightarrow> 'c key_cache \<Rightarrow> bool" where
  "cache_inv env l P kc \<longleftrightarrow> (\<forall>ck e. lru_peek l (kc_cache kc) ck = Some e \<longrightarrow>
     (\<exists>(k, salt)\<in>P. make_cache_key env k salt = ck
        \<and> ck_encryption_key (ck_keys e) = derive_encryption_key env k salt
        \<and> ck_mac_key (ck_keys e) = derive_mac_key env k salt))"

text \<open>The digests of the pairs in \<open>P\<close> do not clash.\<close>

definition digests_distinct :: "'z crypto_env_scheme \<Rightarrow> (bytes \<times> bytes) set \<Rightarrow> bool" where
  "digests_distinct env P \<longleftrightarrow> inj_on (\<lambda>(k, salt). make_cache_key env k salt) P"

definition kc_wf ::
  "'z crypto_env_scheme \<Rightarrow> ('c, cached_keys_with_ttl) lru \<Rightarrow> (bytes \<times> bytes) set
     \<Rightarrow> 'c key_cache \<Rightarrow> bool" where
  "kc_wf env l P kc \<longleftrightarrow> lru_ok l \<and> digests_distinct env P \<and> cache_inv env l P kc"

lemma bump_cache [simp]:
  "kc_cache (bump_hits kc) = kc_cache kc" "kc_cache (bump_misses kc) = kc_cache kc"
  "kc_cache (bump_evictions kc) = kc_cache kc"
  by (simp_all add: bump_hits_def bump_misses_def bump_evictions_def)

lemma cache_inv_new: "lru_ok l \<Longrightarrow> cache_inv env l P (key_cache_new l)"
  by (simp add: cache_inv_def key_cache_new_def lru_simps)

lemma cache_inv_clear: "lru_ok l \<Longrightarrow> cache_inv env l P (clear_cache l kc)"
  by (simp add: cache_inv_def clear_cache_def lru_simps)

lemma cache_lookup_inv:
  assumes wf: "kc_wf env l P kc" and look: "cache_lookup l now ck kc = (r, kc')"
  shows "kc_wf env l P kc'"
proof -
  obtain e c' where g: "lru_get l (kc_cache kc) ck = (e, c')" by (cases "lru_get l (kc_cache kc) ck")
  from wf have ok: "lru_ok l" and inv: "cache_inv env l P kc" by (auto simp: kc_wf_def)
  have same: "lru_peek l c' k = lru_peek l (kc_cache kc) k" for k
    using lru_simps(2) [OF ok, of "kc_cache kc" ck k] g by simp
  have "lru_peek l (kc_cache kc') k = Some x \<Longrightarrow> lru_peek l (kc_cache kc) k = Some x" for k x
    using look g same lru_simps(7) [OF ok]
    by (auto simp: cache_lookup_def split: option.splits if_splits)
  with wf inv show ?thesis unfolding kc_wf_def cache_inv_def by blast
qed

lemma cache_lookup_result:
  assumes wf: "kc_wf env l P kc" and pair: "(k, salt) \<in> P"
    and look: "cache_lookup l now (make_cache_key env k salt) kc = (Some keys, kc')"
  shows "ck_encryption_key keys = derive_encryption_key env k salt"
    and "ck_mac_key keys = derive_mac_key env k salt"
proof -
  let ?ck = "make_cache_key env k salt"
  from look obtain e where "lru_peek l (kc_cache kc) ?ck = Some e" and e: "keys = ck_keys e"
    by (auto simp: cache_lookup_def lru_peek_def split: prod.splits option.splits if_splits)
  with wf obtain k' salt' where p: "(k', salt') \<in> P" "make_cache_key env k' salt' = ?ck"
    and keys: "ck_encryption_key keys = derive_encryption_key env k' salt'"
      "ck_mac_key keys = derive_mac_key env k' salt'"
    unfolding kc_wf_def cache_inv_def by blast
  from wf have "inj_on (\<lambda>(k, salt). make_cache_key env k salt) P"
    by (simp add: kc_wf_def digests_distinct_def)
  from inj_onD [OF this _ p(1) pair] p(2) have "(k', salt') = (k, salt)" by simp
  with keys show "ck_encryption_key keys = derive_encryption_key env k salt"
    and "ck_mac_key keys = derive_mac_key env k salt" by simp_all
qed

lemma cache_fill_result:
  assumes fill: "cache_fill env l now k salt ck kc = (keys, kc')"
  shows "ck_encryption_key keys = derive_encryption_key env k salt"
    and "ck_mac_key keys = derive_mac_key env k salt"
  using fill by (auto simp: cache_fill_def Let_def split: prod.splits)

lemma cache_fill_inv:
  assumes wf: "kc_wf env l P kc" and pair: "(k, salt) \<in> P"
    and fill: "cache_fill env l now k salt (make_cache_key env k salt) kc = (keys, kc')"
  shows "kc_wf env l P kc'"
proof -
  let ?ck = "make_cache_key env k salt"
  from wf have ok: "lru_ok l" by (simp add: kc_wf_def)
  from fill have c': "kc_cache kc' =
      lru_put l (kc_cache kc) ?ck \<lparr>ck_keys = keys, ck_inserted_at = now\<rparr>"
    using lru_simps(6) [OF ok]
    by (auto simp: cache_fill_def Let_def split: prod.splits if_splits) (metis snd_conv)+
  note keys = cache_fill_result [OF fill]
  show ?thesis
    unfolding kc_wf_def cache_inv_def
  proof (intro conjI allI impI)
    fix x e assume e: "lru_peek l (kc_cache kc') x = Some e"
    show "\<exists>(k, salt)\<in>P. make_cache_key env k salt = x
        \<and> ck_encryption_key (ck_keys e) = derive_encryption_key env k salt
        \<and> ck_mac_key (ck_keys e) = derive_mac_key env k salt"
    proof (cases "x = ?ck")
      case True
      with e c' have "ck_keys e = keys" using lru_simps(5) [OF ok] by auto
      with True keys pair show ?thesis by force
    next
      case False
      with e c' have "lru_peek l (kc_cache kc) x = Some e" using lru_put_other [OF ok] by metis
      with wf show ?thesis unfolding kc_wf_def cache_inv_def by blast
    qed
  qed (use wf in \<open>auto simp: kc_wf_def\<close>)
qed

lemma get_keys_ok:
  assumes wf: "kc_wf env l P kc" and pair: "(k, salt) \<in> P"
  shows "fst (get_encryption_key env l now k salt kc) = derive_encryption_key env k salt
      \<and> kc_wf env l P (snd (get_encryption_key env l now k salt kc))
      \<and> fst (get_mac_key env l now k salt kc) = derive_mac_key env k salt
      \<and> kc_wf env l P (snd (get_mac_key env l now k salt kc))"
proof -
  let ?ck = "make_cache_key env k salt"
  obtain r kc1 where look: "cache_lookup l now ?ck kc = (r, kc1)"
    by (cases "cache_lookup l now ?ck kc")
  note wf1 = cache_lookup_inv [OF wf look]
  show ?thesis
  proof (cases r)
    case (Some keys)
    with look cache_lookup_result [OF wf pair] wf1 show ?thesis
      by (simp add: get_encryption_key_def get_mac_key_def)
  next
    case None
    obtain keys kc2 where fill: "cache_fill env l now k salt ?ck kc1 = (keys, kc2)"
      by (cases "cache_fill env l now k salt ?ck kc1")
    from None look fill cache_fill_result [OF fill] cache_fill_inv [OF wf1 pair fill] show ?thesis
      by (simp add: get_encryption_key_def get_mac_key_def)
  qed
qed

interpretation kc: key_service "get_encryption_key env l" "get_mac_key env l"
    "\<lambda>k salt. (k, salt) \<in> P" "kc_wf env l P" "derive_encryption_key env" "derive_mac_key env"
  for env :: "'z crypto_env_scheme" and l :: "('c, cached_keys_with_ttl) lru"
    and P :: "(bytes \<times> bytes) set"
  by unfold_locales (simp_all add: get_keys_ok)

text \<open>API keys of one length cannot be confused with a salt: on such pairs the cache keys are
  distinct as long as the hashed strings do not collide.\<close>

lemma digests_distinct_same_length:
  assumes "lower_hex_ok env" and "inj_on (sha256 env) ((\<lambda>(k, salt). k @ salt) ` P)"
    and "\<forall>(k, salt)\<in>P. length k = n"
  shows "digests_distinct env P"
  unfolding digests_distinct_def
proof (rule inj_onI, clarify)
  fix k salt k' salt'
  assume p: "(k, salt) \<in> P" "(k', salt') \<in> P"
    and "make_cache_key env k salt = make_cache_key env k' salt'"
  then have "sha256 env (k @ salt) = sha256 env (k' @ salt')"
    using assms(1) by (auto simp: make_cache_key_def lower_hex_ok_def)
  with assms(2) p have "k @ salt = k' @ salt'"
    by (auto dest!: inj_onD)
  moreover have "length k = length k'" using bspec [OF assms(3) p(1)] bspec [OF assms(3) p(2)] by simp
  ultimately show "k = k' \<and> salt = salt'" by simp
qed

section \<open>Properties\<close>

text \<open>C21. The key cache is transparent. Take any history of requests for encryption and MAC keys,
  served from a fresh cache whose LRU policy may evict whatever it likes and at any times, so that
  entries expire as they may. If all API keys have 32 bytes and the hash does not collide on the
  requested pairs, every request is answered with exactly the key that the slow derivation
  computes for its own API key and salt.\<close>

theorem key_cache_transparent:
  assumes "lru_ok l" and "lower_hex_ok env"
    and "inj_on (sha256 env) ((\<lambda>(k, salt). k @ salt) ` request_pair ` set rs)"
    and "\<forall>r\<in>set rs. length (fst (request_pair r)) = 32"
  shows "fst (serve (get_encryption_key env l) (get_mac_key env l) rs (key_cache_new l))
       = map (answer (derive_encryption_key env) (derive_mac_key env)) rs"
proof (rule kc.serve_answers [where P = "request_pair ` set rs"])
  have "digests_distinct env (request_pair ` set rs)"
    by (rule digests_distinct_same_length [OF assms(2,3)]) (use assms(4) in auto)
  with assms(1) show "kc_wf env l (request_pair ` set rs) (key_cache_new l)"
    by (simp add: kc_wf_def cache_inv_new)
qed auto

theorem key_cache_transparent_witness:
  "fst (serve (get_encryption_key demo_env demo_lru) (get_mac_key demo_env demo_lru)
          [EncReq 0 (replicate 32 1) [1], MacReq 5 (replicate 32 1) [2], EncReq 900 (replicate 32 1) [1]]
          (key_cache_new demo_lru))
   = [derive_encryption_key demo_env (replicate 32 1) [1], derive_mac_key demo_env (replicate 32 1) [2],
      derive_encryption_key demo_env (replicate 32 1) [1]]"
proof -
  have "sum_hash (replicate 32 1 @ [1]) \<noteq> sum_hash (replicate 32 1 @ [2])"
    by (simp add: sum_hash_snoc)
  then have "inj_on (sha256 demo_env) {replicate 32 1 @ [1], replicate 32 1 @ [2]}"
    by (simp add: demo_env_def)
  then show ?thesis
    using key_cache_transparent [OF demo_lru_ok demo_env_ok(7), of
        "[EncReq 0 (replicate 32 1) [1], MacReq 5 (replicate 32 1) [2], EncReq 900 (replicate 32 1) [1]]"]
    by (simp add: insert_commute)
qed

text \<open>The cache key is a digest of the API key followed by the salt without a separator. Two
  requests whose concatenations agree share one entry: after a request for the first pair, a
  request for the second pair within the lifetime of the entry returns the first pair's key.\<close>

theorem key_cache_shares_entry:
  assumes "lru_ok l" and "k1 @ s1 = k2 @ s2" and "t2 - t1 < 300 * 1000000000"
  shows "fst (get_encryption_key env l t2 k2 s2
            (snd (get_encryption_key env l t1 k1 s1 (key_cache_new l))))
       = derive_encryption_key env k1 s1"
proof -
  let ?ck = "make_cache_key env k1 s1" and ?kc = "key_cache_new l"
  have same: "make_cache_key env k2 s2 = ?ck" using assms(2) by (simp add: make_cache_key_def)
  have "lru_peek l (kc_cache ?kc) ?ck = None"
    by (simp add: key_cache_new_def lru_simps [OF assms(1)])
  then have miss: "cache_lookup l t1 ?ck ?kc = (None, ?kc\<lparr>kc_cache := snd (lru_get l (kc_cache ?kc) ?ck)\<rparr>)"
    by (auto simp: cache_lookup_def lru_peek_def split: prod.splits option.splits)
  obtain keys kc2 where fill: "cache_fill env l t1 k1 s1 ?ck (snd (cache_lookup l t1 ?ck ?kc)) = (keys, kc2)"
    by (cases "cache_fill env l t1 k1 s1 ?ck (snd (cache_lookup l t1 ?ck ?kc))")
  then have "lru_peek l (kc_cache kc2) ?ck = Some \<lparr>ck_keys = keys, ck_inserted_at = t1\<rparr>"
    using lru_simps(5,6) [OF assms(1)]
    by (auto simp: cache_fill_def Let_def split: prod.splits if_splits) (metis snd_conv)+
  then have "fst (cache_lookup l t2 ?ck kc2) = Some keys"
    using assms(3)
    by (auto simp: cache_lookup_def lru_peek_def entry_fresh_def CACHE_TTL_SECONDS_def
        split: prod.splits option.splits)
  then have "fst (get_encryption_key env l t2 k2 s2 kc2) = ck_encryption_key keys"
    by (cases "cache_lookup l t2 ?ck kc2") (simp add: get_encryption_key_def same)
  moreover have "snd (get_encryption_key env l t1 k1 s1 ?kc) = kc2"
    using miss fill by (simp add: get_encryption_key_def)
  ultimately show ?thesis using cache_fill_result [OF fill] by simp
qed

theorem key_cache_shares_entry_witness:
  "fst (get_encryption_key demo_env demo_lru 7 [1] [2, 3]
          (snd (get_encryption_key demo_env demo_lru 5 [1, 2] [3] (key_cache_new demo_lru))))
   = derive_encryption_key demo_env [1, 2] [3]"
  by (rule key_cache_shares_entry [OF demo_lru_ok]) simp_all

end
