(* ===== verification/Goud_Status.thy ===== *)
theory Goud_Status
  imports Goud_P2P Goud_Nonce Goud_Key_Cache
begin

text \<open>
  The read-only endpoints (\<open>src/api/routes/health.rs\<close>, \<open>metrics.rs\<close>) and the endpoint that demonstrates
  replay protection (\<open>test.rs\<close>). Averages and rates are exact fractions.
\<close>

section \<open>Health\<close>

record health_check_response =
  hc_status :: string
  hc_node_id :: string
  hc_chain_length :: nat
  hc_peer_count :: nat
  hc_latest_block :: u64

definition latest_index :: "blockchain \<Rightarrow> u64" where
  "latest_index bc = (if chain bc = [] then 0 else b_index (last (chain bc)))"

definition handle_health :: "'db p2p_node \<Rightarrow> health_check_response" where
  "handle_health node =
     (let bc = pn_blockchain node
      in \<lparr>hc_status = ''healthy'', hc_node_id = node_id bc, hc_chain_length = length (chain bc),
          hc_peer_count = length (pn_peers node), hc_latest_block = latest_index bc\<rparr>)"

text \<open>The serialized blockchain: the fields without \<open>serde(skip)\<close>.\<close>

record chain_view =
  cv_schema_version :: string
  cv_chain :: "block list"
  cv_node_id :: string
  cv_checkpoints :: "string list"

definition handle_get_chain :: "blockchain \<Rightarrow> chain_view" where
  "handle_get_chain bc = \<lparr>cv_schema_version = schema_version bc, cv_chain = chain bc,
     cv_node_id = node_id bc, cv_checkpoints = checkpoints bc\<rparr>"

record peer_info_response =
  pi_peers :: "string list"
  pi_count :: nat
  pi_reputation :: "string \<rightharpoonup> i32"

definition handle_get_peers :: "'db p2p_node \<Rightarrow> peer_info_response" where
  "handle_get_peers node =
     \<lparr>pi_peers = pn_peers node, pi_count = length (pn_peers node), pi_reputation = pn_reputation node\<rparr>"

definition handle_sync ::
  "'z node_env_scheme \<Rightarrow> (p2p_message, bytes) codec \<Rightarrow> transport \<Rightarrow> (string \<Rightarrow> nat \<Rightarrow> i64)
     \<Rightarrow> (string list \<Rightarrow> string list) \<Rightarrow> 'db p2p_node \<Rightarrow> string \<times> 'db p2p_node" where
  "handle_sync env mbin net clk order node =
     (''Syncing with peers...'', request_chain_from_peers env mbin net clk order node)"

record validator_response =
  vi_next_block_number :: u64
  vi_expected_validator :: string
  vi_validator_address :: string
  vi_is_this_node_validator :: bool
  vi_current_node_id :: string

definition handle_get_current_validator :: "blockchain \<Rightarrow> validator_response res" where
  "handle_get_current_validator bc =
     (let next_block_number = (if chain bc = [] then 1 else b_index (last (chain bc)) + 1)
      in bindE (get_current_validator (validators (validator_cfg bc)) next_block_number) (\<lambda>expected_validator.
         bindE (is_authorized_validator (node_id bc) next_block_number (validator_cfg bc)) (\<lambda>is_this_node.
         Inr \<lparr>vi_next_block_number = next_block_number, vi_expected_validator = expected_validator,
              vi_validator_address = (case get_validator_address (validator_cfg bc) expected_validator of
                  Some a \<Rightarrow> a | None \<Rightarrow> ''unknown''),
              vi_is_this_node_validator = is_this_node, vi_current_node_id = node_id bc\<rparr>)))"

section \<open>Statistics\<close>

record chain_stats_response =
  cs_total_blocks :: u64
  cs_total_collections :: u64
  cs_total_accounts :: u64
  cs_total_time :: int
  cs_intervals :: nat
  cs_validator_distribution :: "string \<rightharpoonup> u64"

definition count_or_zero :: "nat res \<Rightarrow> u64" where
  "count_or_zero r = (case r of Inr n \<Rightarrow> of_nat n | Inl _ \<Rightarrow> 0)"

definition bump_validator :: "string \<Rightarrow> (string \<rightharpoonup> u64) \<Rightarrow> (string \<rightharpoonup> u64)" where
  "bump_validator v m = m(v \<mapsto> (case m v of Some n \<Rightarrow> n | None \<Rightarrow> 0) + 1)"

text \<open>The average block time is \<open>cs_total_time / cs_intervals\<close>, zero without an interval.\<close>

definition handle_get_stats :: "'z node_env_scheme \<Rightarrow> blockchain \<Rightarrow> chain_stats_response" where
  "handle_get_stats env bc =
     (let bs = chain bc
      in \<lparr>cs_total_blocks = of_nat (length bs),
          cs_total_collections = foldl (\<lambda>n b. n + count_or_zero (get_collection_count env (container_js env) b)) 0 bs,
          cs_total_accounts = foldl (\<lambda>n b. n + count_or_zero (get_account_count env (container_js env) b)) 0 bs,
          cs_total_time = (if length bs > 1
             then foldl (\<lambda>t i. t + (b_timestamp (bs ! i) - b_timestamp (bs ! (i - 1)))) 0 [1..<length bs] else 0),
          cs_intervals = (if length bs > 1 then length bs - 1 else 0),
          cs_validator_distribution = foldl (\<lambda>m b. bump_validator (b_validator b) m) Map.empty bs\<rparr>)"

section \<open>The data volume\<close>

text \<open>What a path denotes: a file with its size, a directory with its entries (\<open>None\<close> where the listing fails,
  for an entry or as a whole), a symbolic link with its target, or something without readable metadata.\<close>

datatype fs_node =
    FsFile u64
  | FsDir "(string \<times> fs_node) option list option"
  | FsLink fs_node
  | FsBroken

primrec follow :: "fs_node \<Rightarrow> fs_node" where
  "follow (FsFile n) = FsFile n"
| "follow (FsDir d) = FsDir d"
| "follow (FsLink t) = follow t"
| "follow FsBroken = FsBroken"

text \<open>The sum over the entries of a directory; the first error ends the walk.\<close>

fun sum_entries :: "(string \<times> u64 option) option list \<Rightarrow> u64 option" where
  "sum_entries [] = Some 0"
| "sum_entries (Some (name, Some n) # es) = map_option ((+) n) (sum_entries es)"
| "sum_entries (_ # es) = None"

text \<open>The size of an entry: its metadata does not follow links.\<close>

primrec entry_size :: "fs_node \<Rightarrow> u64 option" where
  "entry_size (FsFile n) = Some n"
| "entry_size (FsDir d) =
     (case map_option (map (map_option (map_prod id entry_size))) d of None \<Rightarrow> None | Some es \<Rightarrow> sum_entries es)"
| "entry_size (FsLink t) = Some 0"
| "entry_size FsBroken = None"

definition calculate_directory_size :: "fs_node \<Rightarrow> u64 option" where
  "calculate_directory_size path = (case follow path of FsDir d \<Rightarrow> entry_size (FsDir d) | _ \<Rightarrow> Some 0)"

text \<open>\<open>Path::extension\<close>: the part after the last dot, unless that dot begins the name.\<close>

definition has_extension :: "string \<Rightarrow> string \<Rightarrow> bool" where
  "has_extension ext name =
     (let parts = split_on CHR ''.'' name
      in 2 \<le> length parts \<and> last parts = ext \<and> \<not> (length parts = 2 \<and> hd parts = []))"

text \<open>The tree under the directory is finite: cycles of symbolic links, in which the code would not return, are not represented.\<close>

primrec count_recursive :: "fs_node \<Rightarrow> string \<Rightarrow> u64 option" where
  "count_recursive (FsFile n) = (\<lambda>name. Some (if has_extension ''sst'' name then 1 else 0))"
| "count_recursive (FsDir d) = (\<lambda>name.
     case map_option (map (map_option (map_prod id count_recursive))) d of
       None \<Rightarrow> None | Some es \<Rightarrow> sum_entries (map (map_option (\<lambda>(name, count). (name, count name))) es))"
| "count_recursive (FsLink t) = count_recursive t"
| "count_recursive FsBroken = (\<lambda>name. Some 0)"

definition count_sst_files :: "fs_node \<Rightarrow> u64 option" where
  "count_sst_files rocksdb_path = count_recursive rocksdb_path ''rocksdb''"

record volume_metrics =
  vm_disk_used_bytes :: u64
  vm_disk_used_mb :: u64
  vm_mount_path :: string
  vm_rocksdb_present :: bool
  vm_sst_file_count :: "u64 option"

text \<open>\<open>data\<close> and \<open>rocksdb\<close>: what the data directory and the directory of the database in it denote, if they exist.\<close>

definition collect_volume_metrics :: "fs_node option \<Rightarrow> fs_node option \<Rightarrow> volume_metrics option" where
  "collect_volume_metrics data rocksdb =
     (case data of
        None \<Rightarrow> None
      | Some data_path \<Rightarrow>
          let disk_used_bytes = (case calculate_directory_size data_path of Some n \<Rightarrow> n | None \<Rightarrow> 0);
              rocksdb_present = (case rocksdb of Some t \<Rightarrow> (case follow t of FsDir _ \<Rightarrow> True | _ \<Rightarrow> False) | None \<Rightarrow> False)
          in Some \<lparr>vm_disk_used_bytes = disk_used_bytes, vm_disk_used_mb = disk_used_bytes div (1024 * 1024),
                   vm_mount_path = DATA_DIRECTORY, vm_rocksdb_present = rocksdb_present,
                   vm_sst_file_count = (if rocksdb_present then count_sst_files (the rocksdb) else None)\<rparr>)"

record node_metrics_response =
  nm_node_id :: string
  nm_chain_length :: u64
  nm_peer_count :: nat
  nm_latest_block_index :: u64
  nm_latest_block_timestamp :: i64
  nm_status :: string
  nm_total_operations :: u64
  nm_cache_hit_rate :: "u64 \<times> u64"
  nm_operations_per_second :: nat
  nm_volume_metrics :: "volume_metrics option"

definition handle_get_metrics ::
  "'z node_env_scheme \<Rightarrow> ('c, cached_keys_with_ttl) lru \<Rightarrow> 'c key_cache \<Rightarrow> fs_node option \<Rightarrow> fs_node option
     \<Rightarrow> 'db p2p_node \<Rightarrow> node_metrics_response" where
  "handle_get_metrics env l kc data rocksdb node =
     (let bc = pn_blockchain node
      in \<lparr>nm_node_id = node_id bc, nm_chain_length = of_nat (length (chain bc)),
          nm_peer_count = length (pn_peers node), nm_latest_block_index = latest_index bc,
          nm_latest_block_timestamp = (if chain bc = [] then 0 else b_timestamp (last (chain bc))),
          nm_status = ''healthy'',
          nm_total_operations = foldl (\<lambda>n b. n + count_or_zero (get_account_count env (container_js env) b)
             + count_or_zero (get_collection_count env (container_js env) b)) 0 (chain bc),
          nm_cache_hit_rate = hit_rate (cache_stats_of l kc), nm_operations_per_second = 0,
          nm_volume_metrics = collect_volume_metrics data rocksdb\<rparr>)"

definition handle_get_prometheus_metrics ::
  "(u64 \<times> u64 \<Rightarrow> string) \<Rightarrow> ('c, cached_keys_with_ttl) lru \<Rightarrow> 'c key_cache \<Rightarrow> fs_node option \<Rightarrow> fs_node option
     \<Rightarrow> 'db p2p_node \<Rightarrow> string" where
  "handle_get_prometheus_metrics show_rate l kc data rocksdb node =
     (let bc = pn_blockchain node;
          node_metrics =
            metric ''goud_chain_length'' ''Total number of blocks in the chain'' ''gauge'' (show_nat (length (chain bc)))
            @ metric ''goud_peer_count'' ''Number of connected P2P peers'' ''gauge'' (show_nat (length (pn_peers node)))
            @ metric ''goud_latest_block_index'' ''Index of the latest block'' ''gauge'' (show_u64 (latest_index bc))
            @ metric ''goud_latest_block_timestamp'' ''Timestamp of the latest block'' ''gauge''
                (show_int (if chain bc = [] then 0 else b_timestamp (last (chain bc))));
          volume_metrics = (case collect_volume_metrics data rocksdb of
              Some vm \<Rightarrow>
                metric ''goud_volume_disk_used_bytes'' ''Disk space used by blockchain data in bytes'' ''gauge''
                  (show_u64 (vm_disk_used_bytes vm))
                @ metric ''goud_volume_disk_used_mb'' ''Disk space used by blockchain data in megabytes'' ''gauge''
                    (show_u64 (vm_disk_used_mb vm))
                @ metric ''goud_volume_rocksdb_present''
                    ''Whether RocksDB database is present (1=present, 0=absent)'' ''gauge''
                    (if vm_rocksdb_present vm then ''1'' else ''0'')
                @ metric ''goud_volume_sst_files'' ''Number of RocksDB SST files'' ''gauge''
                    (show_u64 (case vm_sst_file_count vm of Some n \<Rightarrow> n | None \<Rightarrow> 0))
            | None \<Rightarrow> [])
      in node_metrics @ [CHR 0x0A] @ volume_metrics @ [CHR 0x0A] @ prometheus_metrics show_rate l kc)"

section \<open>The signed test endpoint\<close>

definition test_signed_request ::
  "'db rocks \<Rightarrow> ('c, nonce_entry) lru \<Rightarrow> 'z crypto_env_scheme \<Rightarrow> (string, string) codec \<Rightarrow> (nat \<Rightarrow> i64)
     \<Rightarrow> string signed_request \<Rightarrow> (('db, 'c) nonce_store, fail, string \<times> string) act" where
  "test_signed_request rdb l env js clk req =
     bindS (validate_signed_request rdb l env js clk req) (\<lambda>_.
     retS (''Request validated successfully - replay protection active'', sr_payload req))"

section \<open>Lemmas\<close>

text \<open>The validator endpoint announces the block that the chain accepts next.\<close>

lemma current_validator_creates:
  assumes "make_block env seed bc = Inr b"
  shows "\<exists>r. handle_get_current_validator bc = Inr r \<and> vi_next_block_number r = b_index b
    \<and> vi_expected_validator r = b_validator b \<and> vi_is_this_node_validator r"
  using assms
  by (rule make_block_cases) (simp add: handle_get_current_validator_def is_authorized_validator_def Let_def)

text \<open>The total time telescopes to the distance between the first and the last block.\<close>

lemma total_time_telescopes:
  "bs \<noteq> [] \<Longrightarrow> foldl (\<lambda>t i. t + (b_timestamp (bs ! i) - b_timestamp (bs ! (i - 1)))) 0 [1..<length bs]
     = b_timestamp (last bs) - b_timestamp (hd bs)"
proof -
  have "foldl (\<lambda>t i. t + (f i - f (i - 1))) 0 [1..<Suc n] = f n - (f 0 :: int)" for f n
    by (induction n) auto
  from this [of "\<lambda>i. b_timestamp (bs ! i)" "length bs - 1"]
  show "bs \<noteq> [] \<Longrightarrow> foldl (\<lambda>t i. t + (b_timestamp (bs ! i) - b_timestamp (bs ! (i - 1)))) 0 [1..<length bs]
     = b_timestamp (last bs) - b_timestamp (hd bs)"
    by (simp add: last_conv_nth hd_conv_nth)
qed

lemma stats_total_time:
  "chain bc \<noteq> [] \<Longrightarrow>
   cs_total_time (handle_get_stats env bc) = b_timestamp (last (chain bc)) - b_timestamp (hd (chain bc))"
  using total_time_telescopes [of "chain bc"]
  by (cases "chain bc") (auto simp: handle_get_stats_def Let_def)

text \<open>The two endpoints count the same operations.\<close>

lemma metrics_agree:
  "nm_total_operations (handle_get_metrics env l kc data rocksdb node)
     = cs_total_accounts (handle_get_stats env (pn_blockchain node))
       + cs_total_collections (handle_get_stats env (pn_blockchain node))"
proof -
  have "foldl (\<lambda>n b. n + f b + g b) (a + c) bs = foldl (\<lambda>n b. n + f b) a bs + foldl (\<lambda>n b. n + g b) c bs"
    for f g :: "block \<Rightarrow> u64" and a c bs
  proof (induction bs arbitrary: a c)
    case (Cons b bs)
    from Cons.IH [of "a + f b" "c + g b"] show ?case by (simp add: algebra_simps)
  qed simp
  from this [of _ _ 0 0] show ?thesis by (simp add: handle_get_metrics_def handle_get_stats_def Let_def)
qed

text \<open>Every block is counted for its validator.\<close>

lemma distribution_counts:
  "(case cs_validator_distribution (handle_get_stats env bc) v of Some n \<Rightarrow> n | None \<Rightarrow> 0)
     = of_nat (length (filter (\<lambda>b. b_validator b = v) (chain bc)))"
proof -
  have "(case foldl (\<lambda>m b. bump_validator (b_validator b) m) m bs v of Some n \<Rightarrow> n | None \<Rightarrow> 0)
      = (case m v of Some n \<Rightarrow> n | None \<Rightarrow> 0) + of_nat (length (filter (\<lambda>b. b_validator b = v) bs))" for m and bs :: "block list"
    by (induction bs arbitrary: m) (auto simp: bump_validator_def)
  then show ?thesis by (simp add: handle_get_stats_def Let_def)
qed

end
