(* ===== verification/Spec2Isabelle.thy ===== *)
theory Spec2Isabelle
  imports Goud_Races Goud_Status
begin

text \<open>
  Verification of Goud Chain, a blockchain node for encrypted user data (the Rust crate under \<open>src/\<close>).

  \<^bold>\<open>The program.\<close> A node keeps a chain of blocks. Clients create accounts and submit data over HTTP; data is
  encrypted under the client's API key, collected into a block by the validator whose turn it is (proof of
  authority, round robin), saved in RocksDB and sent to the peers. Nodes whose turn it is not forward the
  request. Around this core the node authenticates requests (API keys and session tokens), limits
  their rate with graduated penalties, protects signed requests against replay, keeps an audit log that is
  itself stored on the chain, notifies WebSocket clients, exposes health and metrics, and migrates the
  schema of its database from the command line. All components of a running node share one database and one
  blockchain behind a lock.

  \<^bold>\<open>Theories and sources.\<close> Paths are relative to \<open>src/src\<close>.

  \<^item> \<open>Goud_Prelude\<close>: machine integers, Rust strings and byte vectors, results and state transformers
    (\<open>bindE\<close>, \<open>bindS\<close>), printing, parsing, byte encodings; the locale \<open>machine\<close>.
  \<^item> \<open>Goud_Errors\<close> (\<open>types/errors.rs\<close>), \<open>Goud_Constants\<close> (\<open>constants.rs\<close>).
  \<^item> \<open>Goud_Env\<close>: the external libraries as records of functions, and their documented behaviour.
  \<^item> \<open>Goud_Crypto\<close> (\<open>crypto/\<close>), \<open>Goud_Key_Cache\<close> (\<open>crypto/key_cache.rs\<close>).
  \<^item> \<open>Goud_Config\<close> (\<open>config.rs\<close>), \<open>Goud_Collection\<close> (\<open>domain/encrypted_collection.rs\<close>, \<open>user_account.rs\<close>,
    \<open>envelope.rs\<close>), \<open>Goud_Block\<close> (\<open>domain/block.rs\<close>), \<open>Goud_Blockchain\<close> (\<open>domain/blockchain.rs\<close>) with
    \<open>Goud_Chain_Laws\<close> (single operations) and \<open>Goud_Ledger\<close> (lookups, sequences of operations).
  \<^item> \<open>Goud_Store\<close> (\<open>storage/blockchain_store.rs\<close>, \<open>storage/mod.rs\<close>), \<open>Goud_Nonce\<close> (\<open>storage/nonce_store.rs\<close>,
    \<open>api/request_signature.rs\<close>), \<open>Goud_Rate_Store\<close> (\<open>storage/rate_limit_store.rs\<close>), \<open>Goud_Rate_Limiter\<close>
    (\<open>api/rate_limiter.rs\<close>), \<open>Goud_Audit\<close> (\<open>types/audit.rs\<close>, \<open>storage/audit_log.rs\<close>), \<open>Goud_Migration\<close>
    (\<open>storage/migration*.rs\<close>, \<open>migrations/\<close>).
  \<^item> \<open>Goud_P2P\<close> (\<open>network/\<close>), \<open>Goud_Client\<close> (\<open>api/internal_client.rs\<close>).
  \<^item> \<open>Goud_Validation\<close> (\<open>types/validation.rs\<close>, \<open>api/schemas.rs\<close>), \<open>Goud_Auth\<close> (\<open>api/auth.rs\<close>), \<open>Goud_Routes\<close>
    (\<open>api/routes/account.rs\<close>, \<open>data.rs\<close>, \<open>audit.rs\<close>) with \<open>Goud_Route_Laws\<close>, \<open>Goud_WebSocket\<close>
    (\<open>api/websocket.rs\<close>), \<open>Goud_Status\<close> (\<open>api/routes/health.rs\<close>, \<open>metrics.rs\<close>, \<open>test.rs\<close>).
  \<^item> \<open>Goud_Shared_Db\<close>, \<open>Goud_Node\<close>, \<open>Goud_Cli\<close> (\<open>cli.rs\<close>) and \<open>Goud_Main\<close> (\<open>main.rs\<close>): the composition;
    \<open>Goud_Races\<close>: what interleavings inside the audit flush and around a synchronisation do to the next start.
  \<^item> \<open>Goud_Demo\<close>, \<open>Goud_Demo_Chain\<close>: concrete instances of the libraries and a small node for the witnesses.

  \<^bold>\<open>How code becomes definitions.\<close> A struct is a record, an enum a datatype, a method a function of the same name
  (prefixed or renamed where HOL has the name). \<open>u8\<close> to \<open>u64\<close> are words; \<open>i64\<close> is \<open>int\<close> with the wrap-around
  written out where operands are not a clock reading plus a small constant. A fallible function returns
  \<open>Inl\<close> of an error or of \<open>Panic\<close>, so that every \<open>?\<close>, \<open>unwrap\<close>, out-of-range index and division by zero is a
  branch. A method that changes its object is a state transformer that returns the state also when it fails.
  Clock readings, random bytes, identifiers, environment variables, files, sockets and task orders
  are arguments. Where a function reads the clock several times it gets a function from the position of the
  reading.

  \<^bold>\<open>The running node.\<close> \<open>node_state\<close> is what \<open>main\<close> shares between its tasks. A request, a peer
  connection, a timer or a socket event is one \<open>node_step\<close>. Where a handler releases the lock of the chain, or takes
  none, its parts are steps too, between which others may run: the second half of storing an account or data,
  checking and recording a nonce, one reply to a synchronisation, creating and saving a block of the audit flush,
  the change of a WebSocket subscription and its confirmation, each send of a broadcast and the removal of failed
  connections (\<open>ws_step\<close>).
  What a handler spawns (broadcasts and notifications) goes into a list of tasks, any of
  which may run at any later step; this allows every order in which the runtime can run them. \<open>main_process\<close>
  takes a launch to an exit code or a serving node; \<open>lifetime_step\<close> adds crashes, restarts and migration
  commands.

  \<^bold>\<open>Interfaces.\<close> Each locale states what a client may rely on, and is interpreted with the definitions of the code:
  \<open>machine\<close> and \<open>growing_machine\<close> (sequences of operations; the ledger), \<open>chain_storage\<close> (save and load; the
  RocksDB chain store), \<open>key_service\<close> (key derivation; the cache), \<open>replay_guard\<close> (nonces; the nonce store with
  its cache), \<open>penalty_store\<close> (violations and bans; the rate limit store, under the limiter),
  \<open>migration_log\<close> (applied migrations; the migration store, under the runner), \<open>shared_db\<close> (an invariant that
  survives the writes of other components; isolation of the tenants, durability of the chain),
  \<open>node_invariant\<close> and \<open>synced_invariant\<close> (an invariant of chain and database that every step keeps; durability,
  the links, a flush that was overtaken, a database behind a chain that was taken over), \<open>migration_host\<close> (an
  invariant that migrations keep; durability, and the gap that a chain taken over leaves in the database).

  \<^bold>\<open>What is shown.\<close>

  \<^item> Whole node: what it accepted survives every life without synchronisation and interrupted flushes
    (\<open>restart_keeps_chain\<close>); a chain that is linked when the process starts stays linked while it runs, also with
    synchronisation (\<open>node_stays_linked\<close>; the load at a start does not validate); no launch hangs
    (\<open>launch_never_hangs\<close>); components do not touch each other's keys (\<open>tenants_isolated\<close>); and where this ends: an
    audit block that is saved late (\<open>late_save_loses_blocks\<close>), a synchronisation (\<open>sync_breaks_restart\<close>).
  \<^item> Chain: invariant of all sequences of operations (\<open>ledger_run_sound\<close>), the exact meaning of validation and
    what it leaves open (\<open>validation_exact\<close>, \<open>numbering_unchecked\<close>), the effects of creating and replacing,
    settlement of forks, tamper evidence up to hash collisions, lookups.
  \<^item> User data: encryption round trips for collections, accounts and the endpoints; tamper evidence of
    collections; sessions and tokens; request validation.
  \<^item> Infrastructure: replay protection over all histories and its limits (expiry, and
    concurrent copies, \<open>replay_race\<close>), the penalty ladder, migrations,
    forwarding, propagation of blocks, conservation of audit events, exact paging,
    exact WebSocket delivery for every interleaving, configuration loading, transparency of the key cache.

  Each property is stated after a comment with its number; a property with hypotheses is followed, at once or at the
  end of its theory, by a theorem that applies it to a concrete node.

  \<^bold>\<open>Hypotheses on libraries.\<close> Predicates ending in \<open>_ok\<close> in \<open>Goud_Env\<close> and \<open>Goud_Auth\<close>: encoders invert,
  sealing opens under the same key, signatures verify, a healthy database answers with what was
  written and iterates over a prefix, a cache returns what was put or nothing, a JSON web token
  decodes until it expires. Nothing assumes that hash functions have no collisions: where that matters
  the property speaks of two values whose relevant digests differ, or the absence of collisions on the hashed
  strings at hand is a hypothesis of the property.

  \<^bold>\<open>Bounds and fuel.\<close> No definition uses fuel: every loop is a structural recursion or has a termination proof,
  except the checkpoint scan of \<open>load_checkpoints\<close>, a \<open>partial_function\<close> into \<open>option\<close>, since its counter can
  wrap around; it is shown to end on every database with fewer than \<open>2 ^ 62\<close> checkpoints (\<open>launch_never_hangs\<close>), and to
  load the checkpoints that the node wrote. Chain lengths are below
  \<open>2 ^ 63\<close> where the numbering of blocks in 64 bits matters.

  \<^bold>\<open>Simplifications.\<close> The handlers derive keys directly; \<open>key_cache_transparent\<close> shows that the cache in
  between does not change the keys. Log output is left out, and so are content types of responses. Floating point
  averages and rates are exact fractions. Timeouts appear as the errors they cause; an attempt to connect
  to a validator, for which the code sets no timeout, is always answered in the model. The file system that the
  metrics walk through is a finite tree, without cycles of symbolic links. In \<open>restart_keeps_chain\<close>
  only \<open>orderly\<close> steps occur: no synchronisation, because the code does not save a chain it takes over, and no flush
  that is interrupted between creating and saving its block. A check of the rate limiter is one step; the
  interleaving of its database accesses with those of another check is not modelled.

  \<^bold>\<open>Not modelled.\<close> Opening RocksDB with its tuning options, binding ports and accepting connections, HTTP
  routing, command line parsing, the OpenAPI document and the HTML page that shows it, and the
  frameworks behind them (axum, tokio, clap, utoipa): they carry no decision of the program's own. Tests,
  scripts, deployment files and the web dashboard are not part of the node.
\<close>

end
